(* ===== verification/Prelude.thy ===== *)
theory Prelude
  imports Main
begin

text \<open>
  Shared vocabulary of the development: the Python exceptions the modelled code can
  raise, the result type \<open>'a result\<close> of a fallible Python step (\<open>Inl\<close> the exception),
  the collections of rewrite rules the component theories contribute to, and generic
  lemmas on lists, association lists and fallible maps that several components use.
\<close>

named_theorems py_simps "equations of the Python-level operations on decoded JSON values"
named_theorems db_simps "equations of the SQLite model"

text \<open>
  Exception classes that reach the modelled code. \<open>SqlError\<close> stands for the
  subclasses of \<open>sqlite3.Error\<close> (the ones the code catches); the others are plain
  Python exceptions, which the code never catches.
\<close>

datatype sql_error = ProgrammingError | IntegrityError | OperationalError

datatype pyexc =
    TypeError
  | AttributeError
  | KeyError
  | OverflowError
  | SqlError sql_error

type_synonym 'a result = "pyexc + 'a"

text \<open>\<open>isinstance(e, sqlite3.Error)\<close>: the exceptions an \<open>except sqlite3.Error\<close>
  clause catches.\<close>

fun is_sql_error :: "pyexc \<Rightarrow> bool" where
  "is_sql_error (SqlError e) = True"
| "is_sql_error _ = False"

text \<open>
  A loop that applies a fallible step to every element and stops at the first
  exception, as a Python \<open>for\<close> loop over a list does when its body raises.
\<close>

fun map_err :: "('a \<Rightarrow> 'e + 'b) \<Rightarrow> 'a list \<Rightarrow> 'e + 'b list" where
  "map_err f [] = Inr []"
| "map_err f (x # xs) =
     (case f x of
        Inl e \<Rightarrow> Inl e
      | Inr y \<Rightarrow> (case map_err f xs of Inl e \<Rightarrow> Inl e | Inr ys \<Rightarrow> Inr (y # ys)))"

text \<open>
  Decimal digits, shared by the printers and readers of numbers: \<open>str(n)\<close> of a
  non-negative integer (\<open>show_nat\<close>, \<open>show_int\<close>) and the value of a digit string
  (\<open>digits_val\<close>), with the round trip between them.
\<close>

definition digit_char :: "nat \<Rightarrow> char" where
  "digit_char d = char_of (48 + d)"

definition is_digit :: "char \<Rightarrow> bool" where
  "is_digit c \<longleftrightarrow> (48::nat) \<le> of_char c \<and> (of_char c::nat) \<le> 57"

definition digit_val :: "char \<Rightarrow> nat" where
  "digit_val c = of_char c - 48"

fun show_nat :: "nat \<Rightarrow> string" where
  "show_nat n = (if n < 10 then [digit_char n] else show_nat (n div 10) @ [digit_char (n mod 10)])"

declare show_nat.simps [simp del]

definition digits_val :: "string \<Rightarrow> nat" where
  "digits_val ds = foldl (\<lambda>acc c. 10 * acc + digit_val c) 0 ds"

text \<open>\<open>sep.join(xs)\<close>.\<close>

fun py_join :: "string \<Rightarrow> string list \<Rightarrow> string" where
  "py_join sep [] = []"
| "py_join sep [x] = x"
| "py_join sep (x # y # zs) = x @ sep @ py_join sep (y # zs)"

definition show_int :: "int \<Rightarrow> string" where
  "show_int i = (if i < 0 then CHR ''-'' # show_nat (nat (- i)) else show_nat (nat i))"

subsection \<open>Lemmas\<close>

lemma map_err_Inr_length [simp]:
  "map_err f xs = Inr ys \<Longrightarrow> length ys = length xs"
  by (induction xs arbitrary: ys) (auto split: sum.splits)

lemma map_err_all_Inr [simp]:
  "map_err (\<lambda>x. Inr (g x)) xs = Inr (map g xs)"
  by (induction xs) auto

lemma map_err_Inr_map:
  "(\<And>x. x \<in> set xs \<Longrightarrow> f x = Inr (g x)) \<Longrightarrow> map_err f xs = Inr (map g xs)"
  by (induction xs) auto

lemma map_err_Inl:
  "x \<in> set xs \<Longrightarrow> f x = Inl e \<Longrightarrow> \<exists>e'. map_err f xs = Inl e'"
  by (induction xs) (auto split: sum.splits)

lemma map_err_Inl_elem:
  "map_err f xs = Inl e \<Longrightarrow> \<exists>x \<in> set xs. f x = Inl e"
proof (induction xs)
  case (Cons x xs)
  then show ?case by (cases "f x") (auto split: sum.splits)
qed simp

lemma map_err_Inl_unique:
  assumes "x \<in> set xs" "f x = Inl e" "\<And>y e'. y \<in> set xs \<Longrightarrow> f y = Inl e' \<Longrightarrow> e' = e"
  shows "map_err f xs = Inl e"
proof -
  from map_err_Inl [where f = f, OF assms(1,2)] obtain e' where e': "map_err f xs = Inl e'" ..
  from map_err_Inl_elem [OF e'] obtain y where "y \<in> set xs" "f y = Inl e'" by blast
  then have "e' = e" by (rule assms(3))
  with e' show ?thesis by simp
qed

lemma map_err_map_of_zip:
  "map_err f xs = Inr ys \<Longrightarrow> map_of (zip ks xs) k = Some x \<Longrightarrow>
   \<exists>y. f x = Inr y \<and> map_of (zip ks ys) k = Some y"
proof (induction xs arbitrary: ks ys)
  case Nil
  then show ?case by simp
next
  case (Cons x' xs)
  then show ?case
    by (cases ks) (auto split: sum.splits if_splits)
qed

lemma digit_char_is_digit [simp]: "d < 10 \<Longrightarrow> is_digit (digit_char d)"
  by (simp add: digit_char_def is_digit_def)

lemma digit_val_digit_char [simp]: "d < 10 \<Longrightarrow> digit_val (digit_char d) = d"
  by (simp add: digit_char_def digit_val_def)

lemma digit_char_zero_iff [simp]: "d < 10 \<Longrightarrow> digit_char d = CHR ''0'' \<longleftrightarrow> d = 0"
  by (auto simp: digit_char_def char_of_eq_iff take_bit_eq_mod)

lemma show_nat_digits [intro]: "c \<in> set (show_nat n) \<Longrightarrow> is_digit c"
proof (induction n rule: show_nat.induct)
  case (1 n)
  then show ?case by (auto simp: show_nat.simps [of n] split: if_splits)
qed

lemma show_nat_nonempty [simp]: "show_nat n \<noteq> []"
  by (simp add: show_nat.simps [of n])

lemma digits_val_snoc [simp]: "digits_val (xs @ [c]) = 10 * digits_val xs + digit_val c"
  by (simp add: digits_val_def)

lemma digits_val_show_nat [simp]: "digits_val (show_nat n) = n"
proof (induction n rule: show_nat.induct)
  case (1 n)
  then show ?case by (simp add: show_nat.simps [of n] digits_val_def)
qed

lemma show_nat_hd: "0 < n \<Longrightarrow> hd (show_nat n) \<noteq> CHR ''0''"
proof (induction n rule: show_nat.induct)
  case (1 n)
  show ?case
  proof (cases "n < 10")
    case True
    with "1.prems" show ?thesis by (simp add: show_nat.simps [of n])
  next
    case False
    then have "0 < n div 10" by simp
    with "1.IH" False show ?thesis by (simp add: show_nat.simps [of n])
  qed
qed

end
