(* ===== verification/PyJson.thy ===== *)
theory PyJson
  imports Prelude
begin

text \<open>
  Python values produced by \<open>json.loads\<close> (the result of \<open>response.json()\<close> in
  \<open>fetch_api_data\<close>, src/processor.py) and the Python operations the processors
  apply to them: truthiness (\<open>not x\<close>), membership (\<open>'id' in x\<close>), subscription
  (\<open>x['products']\<close>), \<open>dict.get\<close>, iteration and \<open>len\<close>. Each operation follows
  CPython on every kind of value, raising \<open>TypeError\<close> or \<open>AttributeError\<close> where
  CPython does.

  A JSON object decodes to a \<open>dict\<close>, kept as an association list in insertion
  order; a float is kept as the decimal \<open>m * 10 ^ e\<close> of its shortest \<open>repr\<close>,
  normalised (no trailing zero digit in \<open>m\<close>; zero is \<open>0 * 10 ^ 0\<close>).
  Strings are \<open>char\<close> lists, i.e. code points 0 to 255.
\<close>

datatype json =
    JNull
  | JBool bool
  | JInt int
  | JFloat int int
  | JStr string
  | JArr "json list"
  | JObj "(string \<times> json) list"

definition float_normal :: "int \<Rightarrow> int \<Rightarrow> bool" where
  "float_normal m e \<longleftrightarrow> (if m = 0 then e = 0 else \<not> (10 dvd m))"

text \<open>
  Well-formed values: every float normalised, every object with distinct keys (a
  \<open>dict\<close> never holds a key twice).
\<close>

fun json_wf :: "json \<Rightarrow> bool" where
  "json_wf (JFloat m e) = float_normal m e"
| "json_wf (JArr xs) = list_all json_wf xs"
| "json_wf (JObj kvs) = (distinct (map fst kvs) \<and> list_all json_wf (map snd kvs))"
| "json_wf _ = True"

subsection \<open>Python operations on decoded values\<close>

text \<open>\<open>bool(x)\<close>: \<open>None\<close>, \<open>False\<close>, zero and empty containers are false.\<close>

fun py_truthy :: "json \<Rightarrow> bool" where
  "py_truthy JNull = False"
| "py_truthy (JBool b) = b"
| "py_truthy (JInt i) = (i \<noteq> 0)"
| "py_truthy (JFloat m e) = (m \<noteq> 0)"
| "py_truthy (JStr s) = (s \<noteq> [])"
| "py_truthy (JArr xs) = (xs \<noteq> [])"
| "py_truthy (JObj kvs) = (kvs \<noteq> [])"

text \<open>Substring test of \<open>str.__contains__\<close>.\<close>

fun has_infix :: "string \<Rightarrow> string \<Rightarrow> bool" where
  "has_infix xs [] = (xs = [])"
| "has_infix xs (y # ys) = (take (length xs) (y # ys) = xs \<or> has_infix xs ys)"

text \<open>
  \<open>k in x\<close> for a string \<open>k\<close>: a key test on a \<open>dict\<close>, an equality test against
  the elements of a \<open>list\<close>, a substring test on a \<open>str\<close>, and \<open>TypeError\<close>
  (\<open>argument of type ... is not iterable\<close>) on \<open>None\<close>, booleans and numbers.
\<close>

fun py_contains :: "string \<Rightarrow> json \<Rightarrow> bool result" where
  "py_contains k (JObj kvs) = Inr (k \<in> set (map fst kvs))"
| "py_contains k (JArr xs) = Inr (JStr k \<in> set xs)"
| "py_contains k (JStr s) = Inr (has_infix k s)"
| "py_contains k _ = Inl TypeError"

text \<open>\<open>x[k]\<close> for a string \<open>k\<close>: \<open>KeyError\<close> on a missing key, \<open>TypeError\<close> on any
  value that is not a \<open>dict\<close>.\<close>

fun py_getitem :: "json \<Rightarrow> string \<Rightarrow> json result" where
  "py_getitem (JObj kvs) k = (case map_of kvs k of None \<Rightarrow> Inl KeyError | Some v \<Rightarrow> Inr v)"
| "py_getitem _ k = Inl TypeError"

text \<open>\<open>x.get(k, d)\<close>: only a \<open>dict\<close> has the method.\<close>

fun py_get :: "json \<Rightarrow> string \<Rightarrow> json \<Rightarrow> json result" where
  "py_get (JObj kvs) k d = Inr (case map_of kvs k of None \<Rightarrow> d | Some v \<Rightarrow> v)"
| "py_get _ k d = Inl AttributeError"

text \<open>\<open>x.get(k)\<close> without a default: \<open>None\<close> when the key is missing.\<close>

fun py_get_opt :: "json \<Rightarrow> string \<Rightarrow> json option result" where
  "py_get_opt (JObj kvs) k = Inr (map_of kvs k)"
| "py_get_opt _ k = Inl AttributeError"

text \<open>\<open>for x in v\<close>: the elements of a list, the keys of a dict, the one-character
  strings of a str; \<open>TypeError\<close> otherwise.\<close>

fun py_iter :: "json \<Rightarrow> json list result" where
  "py_iter (JArr xs) = Inr xs"
| "py_iter (JObj kvs) = Inr (map (JStr \<circ> fst) kvs)"
| "py_iter (JStr s) = Inr (map (\<lambda>c. JStr [c]) s)"
| "py_iter _ = Inl TypeError"

fun py_len :: "json \<Rightarrow> nat result" where
  "py_len (JArr xs) = Inr (length xs)"
| "py_len (JObj kvs) = Inr (length kvs)"
| "py_len (JStr s) = Inr (length s)"
| "py_len _ = Inl TypeError"

declare py_truthy.simps [py_simps] py_contains.simps [py_simps] py_getitem.simps [py_simps]
  py_get.simps [py_simps] py_get_opt.simps [py_simps] py_iter.simps [py_simps] py_len.simps [py_simps]

subsection \<open>Facts shared by the processors\<close>

text \<open>On a \<open>dict\<close>, membership and subscription agree: a key that \<open>in\<close> finds is
  one that \<open>[]\<close> returns, and \<open>.get\<close> with a default never raises.\<close>

lemma py_contains_getitem:
  "py_contains k (JObj kvs) = Inr True \<Longrightarrow> \<exists>v. py_getitem (JObj kvs) k = Inr v \<and> map_of kvs k = Some v"
  by (cases "map_of kvs k") (auto simp: map_of_eq_None_iff)

lemma py_get_JObj_Some [simp]:
  "map_of kvs k = Some v \<Longrightarrow> py_get (JObj kvs) k d = Inr v"
  by simp

lemma py_get_JObj_None [simp]:
  "map_of kvs k = None \<Longrightarrow> py_get (JObj kvs) k d = Inr d"
  by simp

lemma py_contains_Inr_iff:
  "(\<exists>b. py_contains k v = Inr b) \<longleftrightarrow> (\<exists>kvs. v = JObj kvs) \<or> (\<exists>xs. v = JArr xs) \<or> (\<exists>s. v = JStr s)"
  by (cases v) auto

end
