(* ===== verification/Sqlite.thy ===== *)
theory Sqlite
  imports PyJson "HOL-Library.AList"
begin

text \<open>
  The part of SQLite and of Python's \<open>sqlite3\<close> module that src/processor.py and
  src/view_db.py rely on, modelled from the SQLite documentation: a database is
  its tables in \<open>sqlite_master\<close> order; a table is its column declarations and its
  rows in rowid order (the order of the table b-tree, which is the order of
  \<open>SELECT *\<close> without \<open>ORDER BY\<close>). The \<open>INTEGER PRIMARY KEY\<close> column is an alias of
  the rowid. The operations are \<open>CREATE TABLE\<close> and \<open>INSERT OR IGNORE\<close> through
  \<open>executemany\<close>, with parameter binding as \<open>sqlite3\<close> does it.
\<close>

datatype sql_value = SNull | SInteger int | SReal int int | SText string

record coldef =
  col_name :: string
  col_type :: string
  col_notnull :: bool
  col_pk :: bool

record table =
  tcols :: "coldef list"
  trows :: "(int \<times> sql_value list) list"

type_synonym database = "(string \<times> table) list"

definition int64_min :: int where
  "int64_min = - (2 ^ 63)"

definition int64_max :: int where
  "int64_max = 2 ^ 63 - 1"

definition int64_range :: "int \<Rightarrow> bool" where
  "int64_range k \<longleftrightarrow> int64_min \<le> k \<and> k \<le> int64_max"

text \<open>An SQLite integer is a 64-bit value.\<close>

fun sql_ok :: "sql_value \<Rightarrow> bool" where
  "sql_ok (SInteger i) = int64_range i"
| "sql_ok _ = True"

subsection \<open>Binding Python values\<close>

text \<open>
  \<open>sqlite3\<close> binds \<open>None\<close>, \<open>bool\<close>, \<open>int\<close>, \<open>float\<close> and \<open>str\<close>; an \<open>int\<close> outside
  the 64-bit range raises \<open>OverflowError\<close> (not a \<open>sqlite3.Error\<close>), a \<open>list\<close> or
  \<open>dict\<close> raises \<open>ProgrammingError\<close> (unsupported type).
\<close>

fun bind_param :: "json \<Rightarrow> sql_value result" where
  "bind_param JNull = Inr SNull"
| "bind_param (JBool b) = Inr (SInteger (if b then 1 else 0))"
| "bind_param (JInt i) = (if int64_range i then Inr (SInteger i) else Inl OverflowError)"
| "bind_param (JFloat m e) = Inr (SReal m e)"
| "bind_param (JStr s) = Inr (SText s)"
| "bind_param (JArr xs) = Inl (SqlError ProgrammingError)"
| "bind_param (JObj kvs) = Inl (SqlError ProgrammingError)"

subsection \<open>The rowid key\<close>

fun pk_index :: "coldef list \<Rightarrow> nat option" where
  "pk_index [] = None"
| "pk_index (c # cs) = (if col_pk c then Some 0 else map_option Suc (pk_index cs))"

text \<open>An integer literal as INTEGER affinity reads it from text.\<close>

fun int_text :: "string \<Rightarrow> int option" where
  "int_text [] = None"
| "int_text (c # ds) =
     (if c = CHR ''-'' \<or> c = CHR ''+'' then
        (if ds \<noteq> [] \<and> list_all is_digit ds
         then Some ((if c = CHR ''-'' then -1 else 1) * int (digits_val ds)) else None)
      else if list_all is_digit (c # ds) then Some (int (digits_val (c # ds))) else None)"

text \<open>
  The value given for a rowid alias: \<open>NULL\<close> asks for a fresh rowid; an integer,
  a real with an integral value or a text holding an integer literal is that key;
  anything else is a datatype mismatch.
\<close>

datatype rowid_value = KeyInt int | KeyAuto | KeyMismatch

fun key_conv :: "sql_value \<Rightarrow> rowid_value" where
  "key_conv SNull = KeyAuto"
| "key_conv (SInteger k) = KeyInt k"
| "key_conv (SReal m e) =
     (if 0 \<le> e then (if int64_range (m * 10 ^ nat e) then KeyInt (m * 10 ^ nat e) else KeyMismatch)
      else if 10 ^ nat (- e) dvd m \<and> int64_range (m div 10 ^ nat (- e))
      then KeyInt (m div 10 ^ nat (- e)) else KeyMismatch)"
| "key_conv (SText s) =
     (case int_text s of Some k \<Rightarrow> if int64_range k then KeyInt k else KeyMismatch | None \<Rightarrow> KeyMismatch)"

text \<open>A fresh rowid is one more than the largest, 1 in an empty table.\<close>

definition next_rowid :: "table \<Rightarrow> int" where
  "next_rowid t = (case map fst (trows t) of [] \<Rightarrow> 1 | k # ks \<Rightarrow> fold max ks k + 1)"

definition row_keys :: "table \<Rightarrow> int set" where
  "row_keys t = set (map fst (trows t))"

subsection \<open>INSERT OR IGNORE of one row\<close>

text \<open>The row of the table's columns from the statement's columns and values;
  a column the statement does not name is \<open>NULL\<close>.\<close>

definition row_of :: "coldef list \<Rightarrow> string list \<Rightarrow> sql_value list \<Rightarrow> sql_value list" where
  "row_of cs cols vals =
     map (\<lambda>c. case map_of (zip cols vals) (col_name c) of None \<Rightarrow> SNull | Some v \<Rightarrow> v) cs"

definition notnull_violated :: "coldef list \<Rightarrow> sql_value list \<Rightarrow> bool" where
  "notnull_violated cs row \<longleftrightarrow>
     (\<exists>(c, v) \<in> set (zip cs row). col_notnull c \<and> \<not> col_pk c \<and> v = SNull)"

definition add_row :: "table \<Rightarrow> int \<Rightarrow> sql_value list \<Rightarrow> table" where
  "add_row t k row = t\<lparr>trows := insort_key fst (k, row) (trows t)\<rparr>"

text \<open>
  The ignore resolution skips a row whose key is taken or that violates a
  \<open>NOT NULL\<close> constraint (the rowid alias is exempt: \<open>NULL\<close> there is a fresh
  rowid); a datatype mismatch on the key is an error that \<open>OR IGNORE\<close> does not
  cover. The second component counts the rows written (\<open>cursor.rowcount\<close>).
\<close>

definition insert_or_ignore :: "table \<Rightarrow> sql_value list \<Rightarrow> sql_error + (table \<times> nat)" where
  "insert_or_ignore t row =
     (case pk_index (tcols t) of
        None \<Rightarrow>
          (if notnull_violated (tcols t) row then Inr (t, 0)
           else if int64_max < next_rowid t then Inl OperationalError
           else Inr (add_row t (next_rowid t) row, 1))
      | Some i \<Rightarrow>
          (case key_conv (row ! i) of
             KeyMismatch \<Rightarrow> Inl IntegrityError
           | KeyAuto \<Rightarrow>
               (if notnull_violated (tcols t) row then Inr (t, 0)
                else if int64_max < next_rowid t then Inl OperationalError
                else Inr (add_row t (next_rowid t) (row[i := SInteger (next_rowid t)]), 1))
           | KeyInt k \<Rightarrow>
               (if notnull_violated (tcols t) row \<or> k \<in> row_keys t then Inr (t, 0)
                else Inr (add_row t k (row[i := SInteger k]), 1))))"

subsection \<open>executemany\<close>

text \<open>
  One parameter set: bind every parameter (the count must match the
  placeholders), then step the statement, which fails on a read-only database
  before it looks at the row.
\<close>

definition exec_insert ::
  "bool \<Rightarrow> table \<Rightarrow> string list \<Rightarrow> json list \<Rightarrow> (table \<times> nat) result" where
  "exec_insert wr t cols ps =
     (if length ps \<noteq> length cols then Inl (SqlError ProgrammingError)
      else case map_err bind_param ps of
        Inl e \<Rightarrow> Inl e
      | Inr vals \<Rightarrow>
          (if \<not> wr then Inl (SqlError OperationalError)
           else case insert_or_ignore t (row_of (tcols t) cols vals) of
             Inl e \<Rightarrow> Inl (SqlError e)
           | Inr r \<Rightarrow> Inr r))"

fun exec_many ::
  "bool \<Rightarrow> table \<Rightarrow> string list \<Rightarrow> json list list \<Rightarrow> (table \<times> nat) result" where
  "exec_many wr t cols [] = Inr (t, 0)"
| "exec_many wr t cols (p # ps) =
     (case exec_insert wr t cols p of
        Inl e \<Rightarrow> Inl e
      | Inr (t', n) \<Rightarrow>
          (case exec_many wr t' cols ps of
             Inl e \<Rightarrow> Inl e
           | Inr (t'', m) \<Rightarrow> Inr (t'', n + m)))"

text \<open>
  \<open>INSERT OR IGNORE INTO name (cols) VALUES (?, ...)\<close> run by \<open>executemany\<close> on
  the uncommitted state of the connection: preparing the statement fails on a
  missing table or column.
\<close>

definition insert_many ::
  "bool \<Rightarrow> database \<Rightarrow> string \<Rightarrow> string list \<Rightarrow> json list list \<Rightarrow> (database \<times> nat) result" where
  "insert_many wr db name cols pss =
     (case map_of db name of
        None \<Rightarrow> Inl (SqlError OperationalError)
      | Some t \<Rightarrow>
          (if \<not> set cols \<subseteq> set (map col_name (tcols t)) then Inl (SqlError OperationalError)
           else case exec_many wr t cols pss of
             Inl e \<Rightarrow> Inl e
           | Inr (t', n) \<Rightarrow> Inr (AList.update name t' db, n)))"

subsection \<open>CREATE TABLE and the catalogue\<close>

definition create_table ::
  "bool \<Rightarrow> database \<Rightarrow> string \<Rightarrow> coldef list \<Rightarrow> sql_error + database" where
  "create_table wr db name cs =
     (if name \<in> set (map fst db) then Inl OperationalError
      else if \<not> wr then Inl OperationalError
      else Inr (db @ [(name, \<lparr>tcols = cs, trows = []\<rparr>)]))"

text \<open>\<open>SELECT name FROM sqlite_master WHERE type='table' AND name=?\<close>\<close>

definition table_exists :: "database \<Rightarrow> string \<Rightarrow> bool" where
  "table_exists db name \<longleftrightarrow> name \<in> set (map fst db)"

subsection \<open>Invariant and abstraction\<close>

text \<open>
  The table b-tree: keys ascending and distinct, each a 64-bit integer; every row
  as wide as the table, holding its key in the rowid-alias column.
\<close>

definition table_inv :: "table \<Rightarrow> bool" where
  "table_inv t \<longleftrightarrow>
     sorted (map fst (trows t)) \<and> distinct (map fst (trows t)) \<and>
     (\<forall>(k, r) \<in> set (trows t). int64_range k \<and> length r = length (tcols t) \<and>
        (case pk_index (tcols t) of None \<Rightarrow> True | Some i \<Rightarrow> r ! i = SInteger k))"

definition db_inv :: "database \<Rightarrow> bool" where
  "db_inv db \<longleftrightarrow> distinct (map fst db) \<and> (\<forall>t \<in> snd ` set db. table_inv t)"

text \<open>A parameter set that gives the rowid alias a value other than \<open>None\<close>.\<close>

definition keyed :: "coldef list \<Rightarrow> string list \<Rightarrow> json list \<Rightarrow> bool" where
  "keyed cs cols ps \<longleftrightarrow>
     (case pk_index cs of
        None \<Rightarrow> False
      | Some i \<Rightarrow> (case map_of (zip cols ps) (col_name (cs ! i)) of None \<Rightarrow> False | Some v \<Rightarrow> v \<noteq> JNull))"

text \<open>Every parameter set of a batch for table \<open>name\<close> gives the rowid alias a value.\<close>

definition batch_keyed :: "database \<Rightarrow> string \<Rightarrow> string list \<Rightarrow> json list list \<Rightarrow> bool" where
  "batch_keyed db name cols pss \<longleftrightarrow>
     (case map_of db name of None \<Rightarrow> True | Some t \<Rightarrow> list_all (keyed (tcols t) cols) pss)"

text \<open>The abstract view of a table: a finite map from keys to rows.\<close>

definition table_map :: "table \<Rightarrow> int \<rightharpoonup> sql_value list" where
  "table_map t = map_of (trows t)"

text \<open>
  \<open>grows_by t t' n\<close>: \<open>t'\<close> is \<open>t\<close> with \<open>n\<close> more rows and no row changed or
  removed, the contract of a batch of \<open>INSERT OR IGNORE\<close> statements.
\<close>

definition grows_by :: "table \<Rightarrow> table \<Rightarrow> nat \<Rightarrow> bool" where
  "grows_by t t' n \<longleftrightarrow>
     tcols t' = tcols t \<and> table_map t \<subseteq>\<^sub>m table_map t' \<and> length (trows t') = length (trows t) + n"

declare int64_min_def [db_simps] int64_max_def [db_simps] int64_range_def [db_simps]
  next_rowid_def [db_simps] row_keys_def [db_simps] row_of_def [db_simps]
  notnull_violated_def [db_simps] add_row_def [db_simps] insert_or_ignore_def [db_simps]
  exec_insert_def [db_simps] insert_many_def [db_simps] create_table_def [db_simps]
  table_exists_def [db_simps] table_inv_def [db_simps] db_inv_def [db_simps]
  keyed_def [db_simps] batch_keyed_def [db_simps]

subsection \<open>Lemmas: fresh rowids and sorted insertion\<close>

lemma map_of_insort_key_fresh:
  "k \<notin> fst ` set rows \<Longrightarrow> map_of (insort_key fst (k, r) rows) = (map_of rows)(k \<mapsto> r)"
  by (induction rows) (auto simp: fun_upd_twist)

lemma next_rowid_gt: "k \<in> row_keys t \<Longrightarrow> k < next_rowid t"
proof (cases "map fst (trows t)")
  case Nil
  assume "k \<in> row_keys t"
  with Nil show ?thesis by (simp add: row_keys_def)
next
  case (Cons k0 ks)
  assume "k \<in> row_keys t"
  with Cons have "k \<in> set (k0 # ks)" by (simp add: row_keys_def)
  then have "k \<le> Max (set (k0 # ks))" by simp
  with Cons show ?thesis by (simp add: next_rowid_def flip: Max.set_eq_fold)
qed

lemma next_rowid_fresh [simp]: "next_rowid t \<notin> row_keys t"
  using next_rowid_gt by blast

lemma next_rowid_lower:
  assumes "\<forall>k \<in> row_keys t. int64_min \<le> k"
  shows "int64_min \<le> next_rowid t"
proof (cases "map fst (trows t)")
  case Nil
  then show ?thesis by (simp add: next_rowid_def int64_min_def)
next
  case (Cons k0 ks)
  then have "k0 \<in> row_keys t" by (simp add: row_keys_def)
  with assms have "int64_min \<le> k0" by blast
  also have "k0 < next_rowid t" using \<open>k0 \<in> row_keys t\<close> by (rule next_rowid_gt)
  finally show ?thesis by simp
qed

lemma pk_index_less: "pk_index cs = Some i \<Longrightarrow> i < length cs"
  by (induction cs arbitrary: i) (auto split: if_splits)

lemma length_row_of [simp]: "length (row_of cs cols vals) = length cs"
  by (simp add: row_of_def)

lemma key_conv_range: "key_conv v = KeyInt k \<Longrightarrow> sql_ok v \<Longrightarrow> int64_range k"
  by (cases v) (auto split: if_splits option.splits)

lemma bind_param_ok: "bind_param j = Inr v \<Longrightarrow> sql_ok v"
  by (cases j) (auto simp: int64_range_def int64_min_def int64_max_def split: if_splits)

lemma bind_param_SNull: "bind_param v = Inr SNull \<Longrightarrow> v = JNull"
  by (cases v) (auto split: if_splits)

lemma row_keys_add_row [simp]: "row_keys (add_row t k r) = insert k (row_keys t)"
  by (simp add: row_keys_def add_row_def set_insort_key)

lemma tcols_add_row [simp]: "tcols (add_row t k r) = tcols t"
  by (simp add: add_row_def)

lemma length_add_row [simp]: "length (trows (add_row t k r)) = Suc (length (trows t))"
  by (simp add: add_row_def)

lemma table_map_add_row:
  "k \<notin> row_keys t \<Longrightarrow> table_map (add_row t k r) = (table_map t)(k \<mapsto> r)"
  by (simp add: table_map_def add_row_def row_keys_def map_of_insort_key_fresh)

lemma table_inv_add_row:
  assumes "table_inv t" "k \<notin> row_keys t" "int64_range k" "length r = length (tcols t)"
    "case pk_index (tcols t) of None \<Rightarrow> True | Some i \<Rightarrow> r ! i = SInteger k"
  shows "table_inv (add_row t k r)"
  using assms
  by (auto simp: table_inv_def add_row_def row_keys_def sorted_insort_key distinct_insort_key
      set_insort_key)

lemma table_inv_next_rowid:
  assumes "table_inv t" "next_rowid t \<le> int64_max"
  shows "int64_range (next_rowid t)"
proof -
  have "\<forall>k \<in> row_keys t. int64_min \<le> k"
    using assms(1) by (fastforce simp: table_inv_def row_keys_def int64_range_def)
  then have "int64_min \<le> next_rowid t" by (rule next_rowid_lower)
  with assms(2) show ?thesis by (simp add: int64_range_def)
qed

text \<open>
  What one \<open>INSERT OR IGNORE\<close> does to a well-formed table: nothing and a count of 0,
  or one new row under a fresh 64-bit key, holding that key in the rowid alias,
  and a count of 1.
\<close>

lemma insert_or_ignore_Inr:
  assumes inv: "table_inv t" and ok: "list_all sql_ok row" and len: "length row = length (tcols t)"
    and ins: "insert_or_ignore t row = Inr (t', n)"
  shows "(n = 0 \<and> t' = t) \<or>
         (n = 1 \<and> (\<exists>k. k \<notin> row_keys t \<and> int64_range k \<and>
            t' = add_row t k (case pk_index (tcols t) of None \<Rightarrow> row | Some i \<Rightarrow> row[i := SInteger k])))"
proof (cases "pk_index (tcols t)")
  case None
  show ?thesis
  proof (cases "notnull_violated (tcols t) row \<or> int64_max < next_rowid t")
    case True
    with ins None show ?thesis by (auto simp: insert_or_ignore_def split: if_splits)
  next
    case False
    then have "int64_range (next_rowid t)" using inv by (simp add: table_inv_next_rowid)
    with False ins None show ?thesis
      by (auto simp: insert_or_ignore_def intro!: exI [where x = "next_rowid t"])
  qed
next
  case (Some i)
  show ?thesis
  proof (cases "key_conv (row ! i)")
    case (KeyInt k)
    have "i < length row" using Some len by (simp add: pk_index_less)
    with KeyInt ok have "int64_range k" by (simp add: key_conv_range list_all_length)
    with KeyInt Some ins show ?thesis
      by (auto simp: insert_or_ignore_def split: if_splits)
  next
    case KeyAuto
    show ?thesis
    proof (cases "notnull_violated (tcols t) row \<or> int64_max < next_rowid t")
      case True
      with ins Some KeyAuto show ?thesis by (auto simp: insert_or_ignore_def split: if_splits)
    next
      case False
      then have "int64_range (next_rowid t)" using inv by (simp add: table_inv_next_rowid)
      with False ins Some KeyAuto show ?thesis
      by (auto simp: insert_or_ignore_def intro!: exI [where x = "next_rowid t"])
    qed
  next
    case KeyMismatch
    with ins Some show ?thesis by (simp add: insert_or_ignore_def)
  qed
qed

lemma insert_or_ignore_inv:
  assumes inv: "table_inv t" and ok: "list_all sql_ok row" and len: "length row = length (tcols t)"
    and ins: "insert_or_ignore t row = Inr (t', n)"
  shows "table_inv t'"
  using insert_or_ignore_Inr [OF inv ok len ins]
proof
  assume "n = 1 \<and> (\<exists>k. k \<notin> row_keys t \<and> int64_range k \<and>
            t' = add_row t k (case pk_index (tcols t) of None \<Rightarrow> row | Some i \<Rightarrow> row[i := SInteger k]))"
  then obtain k where k: "k \<notin> row_keys t" "int64_range k"
    and t': "t' = add_row t k (case pk_index (tcols t) of None \<Rightarrow> row | Some i \<Rightarrow> row[i := SInteger k])"
    by blast
  show ?thesis
  proof (cases "pk_index (tcols t)")
    case None
    with inv k len show ?thesis unfolding t' by (simp add: table_inv_add_row)
  next
    case (Some i)
    then have "i < length row" using len by (simp add: pk_index_less)
    with Some inv k len show ?thesis unfolding t' by (simp add: table_inv_add_row)
  qed
qed (use inv in simp)

subsection \<open>Lemmas: executemany\<close>

lemma row_keys_dom: "row_keys t = dom (table_map t)"
  by (simp add: row_keys_def table_map_def dom_map_of_conv_image_fst)

lemma grows_by_refl [simp]: "grows_by t t 0"
  by (simp add: grows_by_def)

lemma grows_by_trans: "grows_by t t1 n \<Longrightarrow> grows_by t1 t2 m \<Longrightarrow> grows_by t t2 (n + m)"
  by (auto simp: grows_by_def intro: map_le_trans)

lemma grows_by_add_row: "k \<notin> row_keys t \<Longrightarrow> grows_by t (add_row t k r) (Suc 0)"
  by (simp add: grows_by_def table_map_add_row row_keys_dom map_le_def)

lemma grows_by_keys: "grows_by t t' n \<Longrightarrow> row_keys t \<subseteq> row_keys t'"
  by (auto simp: grows_by_def row_keys_dom map_le_implies_dom_le)

lemma row_of_ok: "list_all sql_ok vals \<Longrightarrow> list_all sql_ok (row_of cs cols vals)"
  by (auto simp: row_of_def list_all_iff split: option.splits dest!: map_of_SomeD set_zip_rightD)

lemma bind_all_ok: "map_err bind_param ps = Inr vals \<Longrightarrow> list_all sql_ok vals"
  by (induction ps arbitrary: vals) (auto split: sum.splits simp: bind_param_ok)

lemma insert_or_ignore_grows:
  assumes "table_inv t" "list_all sql_ok row" "length row = length (tcols t)"
    and "insert_or_ignore t row = Inr (t', n)"
  shows "grows_by t t' n \<and> n \<le> 1"
  using insert_or_ignore_Inr [OF assms] by (auto simp: grows_by_add_row)

lemma exec_insert_grows:
  assumes inv: "table_inv t" and ex: "exec_insert wr t cols p = Inr (t', n)"
  shows "table_inv t' \<and> grows_by t t' n \<and> n \<le> 1"
proof -
  from ex obtain vals where vals: "map_err bind_param p = Inr vals"
    and ins: "insert_or_ignore t (row_of (tcols t) cols vals) = Inr (t', n)"
    by (auto simp: exec_insert_def split: if_splits sum.splits)
  have ok: "list_all sql_ok (row_of (tcols t) cols vals)"
    using vals by (simp add: bind_all_ok row_of_ok)
  have len: "length (row_of (tcols t) cols vals) = length (tcols t)" by simp
  show ?thesis
    using insert_or_ignore_inv [OF inv ok len ins] insert_or_ignore_grows [OF inv ok len ins]
    by simp
qed

lemma exec_many_grows:
  "table_inv t \<Longrightarrow> exec_many wr t cols pss = Inr (t', n) \<Longrightarrow>
   table_inv t' \<and> grows_by t t' n \<and> n \<le> length pss"
proof (induction pss arbitrary: t t' n)
  case Nil
  then show ?case by simp
next
  case (Cons p ps)
  from Cons.prems(2) obtain t1 n1 m where
    ex1: "exec_insert wr t cols p = Inr (t1, n1)" and
    ex2: "exec_many wr t1 cols ps = Inr (t', m)" and n: "n = n1 + m"
    by (auto split: sum.splits)
  from exec_insert_grows [OF Cons.prems(1) ex1]
  have t1: "table_inv t1" "grows_by t t1 n1" "n1 \<le> 1" by auto
  from Cons.IH [OF t1(1) ex2] have "table_inv t'" "grows_by t1 t' m" "m \<le> length ps" by auto
  with t1 n show ?case by (auto intro: grows_by_trans)
qed

lemma key_conv_Auto_iff: "key_conv v = KeyAuto \<longleftrightarrow> v = SNull"
  by (cases v) (auto split: if_splits option.splits)

lemma insert_or_ignore_again:
  assumes "insert_or_ignore t row = Inr (t1, n)" "pk_index (tcols t) = Some i"
    "key_conv (row ! i) \<noteq> KeyAuto" "tcols t2 = tcols t" "row_keys t1 \<subseteq> row_keys t2"
  shows "insert_or_ignore t2 row = Inr (t2, 0)"
  using assms by (auto simp: insert_or_ignore_def split: rowid_value.splits if_splits)

lemma row_of_nth:
  "i < length cs \<Longrightarrow> map_of (zip cols vals) (col_name (cs ! i)) = Some v \<Longrightarrow> row_of cs cols vals ! i = v"
  by (simp add: row_of_def)

lemma exec_insert_again:
  assumes ex: "exec_insert wr t cols p = Inr (t1, n)" and key: "keyed (tcols t) cols p"
    and cs: "tcols t2 = tcols t" and ks: "row_keys t1 \<subseteq> row_keys t2"
  shows "exec_insert wr t2 cols p = Inr (t2, 0)"
proof -
  from ex obtain vals where len: "length p = length cols" and wr: wr
    and vals: "map_err bind_param p = Inr vals"
    and ins: "insert_or_ignore t (row_of (tcols t) cols vals) = Inr (t1, n)"
    by (auto simp: exec_insert_def split: if_splits sum.splits)
  from key obtain i v where i: "pk_index (tcols t) = Some i"
    and v: "map_of (zip cols p) (col_name (tcols t ! i)) = Some v" "v \<noteq> JNull"
    by (auto simp: keyed_def split: option.splits)
  from map_err_map_of_zip [OF vals v(1)] obtain y where
    y: "bind_param v = Inr y" "map_of (zip cols vals) (col_name (tcols t ! i)) = Some y"
    by blast
  have "y \<noteq> SNull" using y(1) v(2) bind_param_SNull by blast
  moreover have "row_of (tcols t) cols vals ! i = y"
    using i y(2) by (simp add: pk_index_less row_of_nth)
  ultimately have "key_conv (row_of (tcols t) cols vals ! i) \<noteq> KeyAuto"
    by (simp add: key_conv_Auto_iff)
  from insert_or_ignore_again [OF ins i this cs ks]
  show ?thesis using len wr vals cs by (simp add: exec_insert_def)
qed

lemma exec_many_again:
  "exec_many wr t cols pss = Inr (t', n) \<Longrightarrow> list_all (keyed (tcols t) cols) pss \<Longrightarrow>
   table_inv t \<Longrightarrow> tcols t2 = tcols t \<Longrightarrow> row_keys t' \<subseteq> row_keys t2 \<Longrightarrow>
   exec_many wr t2 cols pss = Inr (t2, 0)"
proof (induction pss arbitrary: t n)
  case Nil
  then show ?case by simp
next
  case (Cons p ps)
  from Cons.prems(1) obtain t1 n1 m where
    ex1: "exec_insert wr t cols p = Inr (t1, n1)" and
    ex2: "exec_many wr t1 cols ps = Inr (t', m)"
    by (auto split: sum.splits)
  from exec_insert_grows [OF Cons.prems(3) ex1] have t1: "table_inv t1" "grows_by t t1 n1" by auto
  then have cs1: "tcols t1 = tcols t" by (simp add: grows_by_def)
  from exec_many_grows [OF t1(1) ex2] have "row_keys t1 \<subseteq> row_keys t'"
    by (auto dest: grows_by_keys)
  with Cons.prems(5) have "row_keys t1 \<subseteq> row_keys t2" by blast
  with ex1 Cons.prems(2,4) have "exec_insert wr t2 cols p = Inr (t2, 0)"
    by (auto intro: exec_insert_again)
  moreover have "exec_many wr t2 cols ps = Inr (t2, 0)"
    using Cons.IH [OF ex2] Cons.prems(2,4,5) t1(1) cs1 by simp
  ultimately show ?case by simp
qed

subsection \<open>Lemmas: the database\<close>

lemma db_inv_update:
  assumes "db_inv db" "table_inv t'"
  shows "db_inv (AList.update name t' db)"
proof -
  have "snd ` set (AList.update name t' db) \<subseteq> insert t' (snd ` set db)"
  proof
    fix t assume "t \<in> snd ` set (AList.update name t' db)"
    then obtain k where "(k, t) \<in> set (AList.update name t' db)" by auto
    then have "map_of (AList.update name t' db) k = Some t"
      using assms(1) by (simp add: db_inv_def distinct_update)
    then have "t = t' \<or> map_of db k = Some t"
      by (auto simp: update_conv' split: if_splits)
    then show "t \<in> insert t' (snd ` set db)"
      by (auto dest: map_of_SomeD intro: rev_image_eqI)
  qed
  moreover have "\<forall>t \<in> insert t' (snd ` set db). table_inv t" using assms by (simp add: db_inv_def)
  ultimately have "\<forall>t \<in> snd ` set (AList.update name t' db). table_inv t" by blast
  with assms(1) show ?thesis by (simp add: db_inv_def distinct_update)
qed

lemma db_inv_lookup: "db_inv db \<Longrightarrow> map_of db name = Some t \<Longrightarrow> table_inv t"
  by (auto simp: db_inv_def dest: map_of_SomeD intro: rev_image_eqI)

lemma insert_many_Inr:
  assumes inv: "db_inv db" and ins: "insert_many wr db name cols pss = Inr (db', n)"
  shows "\<exists>t t'. map_of db name = Some t \<and> db' = AList.update name t' db \<and>
           table_inv t' \<and> grows_by t t' n \<and> n \<le> length pss"
proof -
  from ins obtain t t' where t: "map_of db name = Some t"
    and ex: "exec_many wr t cols pss = Inr (t', n)" and db': "db' = AList.update name t' db"
    by (auto simp: insert_many_def split: option.splits if_splits sum.splits)
  from exec_many_grows [OF db_inv_lookup [OF inv t] ex] t db' show ?thesis by blast
qed

lemma insert_many_inv:
  assumes "db_inv db" "insert_many wr db name cols pss = Inr (db', n)"
  shows "db_inv db'"
  using insert_many_Inr [OF assms] assms(1) by (auto intro: db_inv_update)

lemma create_table_inv:
  "db_inv db \<Longrightarrow> create_table wr db name cs = Inr db' \<Longrightarrow> db_inv db'"
  by (auto simp: create_table_def db_inv_def table_inv_def split: if_splits)

lemma insert_many_again:
  assumes inv: "db_inv db" and ins: "insert_many wr db name cols pss = Inr (db', n)"
    and key: "batch_keyed db name cols pss"
  shows "insert_many wr db' name cols pss = Inr (db', 0)"
proof -
  from ins obtain t t' where t: "map_of db name = Some t"
    and sub: "set cols \<subseteq> set (map col_name (tcols t))"
    and ex: "exec_many wr t cols pss = Inr (t', n)" and db': "db' = AList.update name t' db"
    by (auto simp: insert_many_def split: option.splits if_splits sum.splits)
  have tinv: "table_inv t" using inv t by (rule db_inv_lookup)
  from exec_many_grows [OF tinv ex] have cs: "tcols t' = tcols t" by (simp add: grows_by_def)
  from key t have "list_all (keyed (tcols t) cols) pss" by (simp add: batch_keyed_def)
  from exec_many_again [OF ex this tinv cs] have "exec_many wr t' cols pss = Inr (t', 0)" by simp
  moreover have "map_of db' name = Some t'" by (simp add: db' update_conv')
  moreover have "AList.update name t' db' = db'"
    using \<open>map_of db' name = Some t'\<close> by (rule update_triv)
  ultimately show ?thesis using sub cs by (simp add: insert_many_def)
qed

lemma table_inv_card: "table_inv t \<Longrightarrow> length (trows t) = card (row_keys t)"
  unfolding table_inv_def row_keys_def using distinct_card [of "map fst (trows t)"] by simp

lemma grows_by_card:
  assumes "table_inv t" "table_inv t'" "grows_by t t' n"
  shows "n = card (row_keys t' - row_keys t)"
proof -
  have "row_keys t \<subseteq> row_keys t'" using assms(3) by (rule grows_by_keys)
  moreover have "finite (row_keys t')" by (simp add: row_keys_def)
  ultimately have "card (row_keys t' - row_keys t) = card (row_keys t') - card (row_keys t)"
    by (simp add: card_Diff_subset finite_subset)
  with assms show ?thesis by (simp add: grows_by_def table_inv_card)
qed

lemma exec_many_zero:
  "table_inv t \<Longrightarrow> exec_many wr t cols pss = Inr (t', 0) \<Longrightarrow> t' = t"
proof (induction pss arbitrary: t)
  case Nil
  then show ?case by simp
next
  case (Cons p ps)
  from Cons.prems(2) obtain t1 where
    ex1: "exec_insert wr t cols p = Inr (t1, 0)" and ex2: "exec_many wr t1 cols ps = Inr (t', 0)"
    by (auto split: sum.splits)
  from ex1 obtain vals where vals: "map_err bind_param p = Inr vals"
    and ins: "insert_or_ignore t (row_of (tcols t) cols vals) = Inr (t1, 0)"
    by (auto simp: exec_insert_def split: if_splits sum.splits)
  have "t1 = t"
    using insert_or_ignore_Inr [OF Cons.prems(1) row_of_ok [OF bind_all_ok [OF vals]] length_row_of ins]
    by simp
  with Cons.IH [of t1] Cons.prems(1) ex2 show ?case by simp
qed

lemma insert_many_zero:
  assumes "db_inv db" "insert_many wr db name cols pss = Inr (db', 0)"
  shows "db' = db"
proof -
  from assms(2) obtain t t' where t: "map_of db name = Some t"
    and ex: "exec_many wr t cols pss = Inr (t', 0)" and db': "db' = AList.update name t' db"
    by (auto simp: insert_many_def split: option.splits if_splits sum.splits)
  have "t' = t" using exec_many_zero [OF db_inv_lookup [OF assms(1) t] ex] .
  with t db' show ?thesis by (simp add: update_triv)
qed

lemma insert_many_table_keys:
  assumes "db_inv db" "insert_many wr db name cols pss = Inr (db', n)"
  shows "\<exists>t t'. map_of db name = Some t \<and> map_of db' name = Some t' \<and>
           table_inv t \<and> table_inv t' \<and> grows_by t t' n"
  using insert_many_Inr [OF assms] db_inv_lookup [OF assms(1)] by (auto simp: update_conv')

end
