(* ===== verification/JsonText.thy ===== *)
theory JsonText
  imports PyJson "HOL-Library.AList"
begin

text \<open>
  Python's \<open>json\<close> module as the code calls it: \<open>json.dumps(v)\<close> with the default
  options (\<open>ensure_ascii=True\<close>, separators \<open>', '\<close> and \<open>': '\<close>, keys in dict
  order), used by the processors to flatten nested fields, and \<open>json.loads(s)\<close>,
  used by \<open>response.json()\<close> and by the inspector to read them back.
\<close>

subsection \<open>json.dumps\<close>

definition hex_char :: "nat \<Rightarrow> char" where
  "hex_char d = (if d < 10 then char_of (48 + d) else char_of (87 + d))"

definition backslash :: char where
  "backslash = CHR 0x5C"

definition u_escape :: "char \<Rightarrow> string" where
  "u_escape c =
     (let n = of_char c :: nat in
      [backslash, CHR ''u'', hex_char (n div 4096 mod 16), hex_char (n div 256 mod 16),
       hex_char (n div 16 mod 16), hex_char (n mod 16)])"

text \<open>\<open>ESCAPE_ASCII\<close> and \<open>ESCAPE_DCT\<close> of json.encoder: backslash, quote and the five
  named control characters get a short escape, every other character outside
  \<open>' '..'~'\<close> a \<open>\u\<close> escape.\<close>

definition esc_char :: "char \<Rightarrow> string" where
  "esc_char c =
     (if c = backslash then [backslash, backslash]
      else if c = CHR ''\"'' then [backslash, CHR ''\"'']
      else if c = CHR 0x08 then [backslash, CHR ''b'']
      else if c = CHR 0x0C then [backslash, CHR ''f'']
      else if c = CHR 0x0A then [backslash, CHR ''n'']
      else if c = CHR 0x0D then [backslash, CHR ''r'']
      else if c = CHR 0x09 then [backslash, CHR ''t'']
      else if 32 \<le> (of_char c :: nat) \<and> (of_char c :: nat) \<le> 126 then [c]
      else u_escape c)"

definition json_str :: "string \<Rightarrow> string" where
  "json_str s = CHR ''\"'' # concat (map esc_char s) @ [CHR ''\"'']"

definition pad2 :: "string \<Rightarrow> string" where
  "pad2 s = replicate (2 - length s) (CHR ''0'') @ s"

text \<open>\<open>float.__repr__\<close> of the value \<open>m * 10 ^ e\<close> whose shortest digits are those of
  \<open>m\<close>: fixed notation when the decimal point falls in \<open>-4 < decpt \<le> 16\<close>,
  scientific notation otherwise, as \<open>format_float_short\<close> in mode \<open>'r'\<close>.\<close>

definition float_repr :: "int \<Rightarrow> int \<Rightarrow> string" where
  "float_repr m e =
     (let ds = show_nat (nat \<bar>m\<bar>); n = int (length ds); decpt = n + e;
          sign = (if m < 0 then ''-'' else [])
      in sign @
         (if decpt \<le> -4 \<or> 16 < decpt then
            (let x = decpt - 1 in
             [hd ds] @ (if tl ds = [] then [] else CHR ''.'' # tl ds) @ ''e'' @
             (if x < 0 then ''-'' else ''+'') @ pad2 (show_nat (nat \<bar>x\<bar>)))
          else if decpt \<le> 0 then ''0.'' @ replicate (nat (- decpt)) (CHR ''0'') @ ds
          else if n \<le> decpt then ds @ replicate (nat (decpt - n)) (CHR ''0'') @ ''.0''
          else take (nat decpt) ds @ CHR ''.'' # drop (nat decpt) ds))"

fun json_dumps :: "json \<Rightarrow> string" where
  "json_dumps JNull = ''null''"
| "json_dumps (JBool b) = (if b then ''true'' else ''false'')"
| "json_dumps (JInt i) = show_int i"
| "json_dumps (JFloat m e) = float_repr m e"
| "json_dumps (JStr s) = json_str s"
| "json_dumps (JArr xs) = CHR ''['' # py_join '', '' (map json_dumps xs) @ '']''"
| "json_dumps (JObj kvs) =
     CHR ''{'' # py_join '', '' (map (\<lambda>(k, v). json_str k @ '': '' @ json_dumps v) kvs) @ ''}''"

subsection \<open>json.loads\<close>

text \<open>
  The reader follows the C scanner of CPython's \<open>_json\<close> module
  (\<open>scan_once_unicode\<close>, \<open>scanstring_unicode\<close>, \<open>_match_number_unicode\<close>,
  \<open>_parse_object_unicode\<close>, \<open>_parse_array_unicode\<close>) in strict mode. Outside the
  model: \<open>NaN\<close>, \<open>Infinity\<close>, \<open>-Infinity\<close> and \<open>\u\<close> escapes above 0xFF
  (their values are not \<open>json\<close> values here) are rejected; a float literal is
  read exactly, which is what Python's float gives for up to 15 significant digits
  in the normal range.
\<close>

definition is_ws :: "char \<Rightarrow> bool" where
  "is_ws c \<longleftrightarrow> (let n = of_char c :: nat in n = 32 \<or> n = 9 \<or> n = 10 \<or> n = 13)"

definition skip_ws :: "string \<Rightarrow> string" where
  "skip_ws s = dropWhile is_ws s"

definition hex_val :: "char \<Rightarrow> nat option" where
  "hex_val c =
     (let n = of_char c :: nat in
      if 48 \<le> n \<and> n \<le> 57 then Some (n - 48)
      else if 97 \<le> n \<and> n \<le> 102 then Some (n - 87)
      else if 65 \<le> n \<and> n \<le> 70 then Some (n - 55)
      else None)"

definition hex4 :: "string \<Rightarrow> nat option" where
  "hex4 s =
     (if length s < 4 then None
      else case those (map hex_val (take 4 s)) of
        Some [a, b, c, d] \<Rightarrow> Some (((a * 16 + b) * 16 + c) * 16 + d)
      | _ \<Rightarrow> None)"

text \<open>The escape after a backslash in a string literal: the character it stands
  for and the input after it.\<close>

definition unescape :: "string \<Rightarrow> (char \<times> string) option" where
  "unescape cs =
     (case cs of
        [] \<Rightarrow> None
      | d # ds \<Rightarrow>
          (if d = CHR ''\"'' \<or> d = backslash \<or> d = CHR ''/'' then Some (d, ds)
           else if d = CHR ''b'' then Some (CHR 0x08, ds)
           else if d = CHR ''f'' then Some (CHR 0x0C, ds)
           else if d = CHR ''n'' then Some (CHR 0x0A, ds)
           else if d = CHR ''r'' then Some (CHR 0x0D, ds)
           else if d = CHR ''t'' then Some (CHR 0x09, ds)
           else if d = CHR ''u'' then
             (case hex4 ds of
                Some n \<Rightarrow> if n < 256 then Some (char_of n, drop 4 ds) else None
              | None \<Rightarrow> None)
           else None))"

text \<open>The body of a string literal after its opening quote: the decoded text and
  the input after the closing quote.\<close>

function scan_string :: "string \<Rightarrow> string \<Rightarrow> (string \<times> string) option" where
  "scan_string acc [] = None"
| "scan_string acc (c # cs) =
     (if c = CHR ''\"'' then Some (acc, cs)
      else if c = backslash then
        (case unescape cs of None \<Rightarrow> None | Some (d, ds) \<Rightarrow> scan_string (acc @ [d]) ds)
      else if (of_char c :: nat) < 32 then None
      else scan_string (acc @ [c]) cs)"
  by pat_completeness auto
termination
  by (relation "measure (\<lambda>(acc, s). length s)")
     (auto simp: unescape_def split: list.splits if_splits option.splits)

text \<open>A decimal \<open>m * 10 ^ e\<close> with the trailing zeros of its digit string moved
  into the exponent.\<close>

definition dec_of :: "bool \<Rightarrow> string \<Rightarrow> int \<Rightarrow> json" where
  "dec_of neg ds e =
     (let tz = length (takeWhile (\<lambda>c. c = CHR ''0'') (rev ds));
          ds' = rev (dropWhile (\<lambda>c. c = CHR ''0'') (rev ds))
      in if ds' = [] then JFloat 0 0
         else JFloat ((if neg then -1 else 1) * int (digits_val ds')) (e + int tz))"

text \<open>The three parts of \<open>-?(0|[1-9][0-9]*)(\.[0-9]+)?([eE][-+]?[0-9]+)?\<close>, each
  a longest match: the integer part (empty when there is none), the fraction with
  the input after it, the exponent (its sign and digits) with the input after it.\<close>

definition int_part :: "string \<Rightarrow> string" where
  "int_part s1 = (if s1 \<noteq> [] \<and> hd s1 = CHR ''0'' then [CHR ''0''] else takeWhile is_digit s1)"

definition frac_part :: "string \<Rightarrow> string \<times> string" where
  "frac_part s2 =
     (if 2 \<le> length s2 \<and> hd s2 = CHR ''.'' \<and> is_digit (s2 ! 1)
      then (let fr = takeWhile is_digit (tl s2) in (fr, drop (length fr) (tl s2)))
      else ([], s2))"

definition exp_part :: "string \<Rightarrow> bool \<times> string \<times> string" where
  "exp_part s3 =
     (if s3 \<noteq> [] \<and> (hd s3 = CHR ''e'' \<or> hd s3 = CHR ''E'') then
        (let s4 = tl s3;
             eneg = (s4 \<noteq> [] \<and> hd s4 = CHR ''-'');
             s5 = (if s4 \<noteq> [] \<and> (hd s4 = CHR ''-'' \<or> hd s4 = CHR ''+'') then tl s4 else s4);
             ex = takeWhile is_digit s5
         in if ex = [] then (False, [], s3) else (eneg, ex, drop (length ex) s5))
      else (False, [], s3))"

text \<open>A number: an \<open>int\<close> without fraction and exponent, a \<open>float\<close> otherwise.\<close>

definition scan_number :: "string \<Rightarrow> (json \<times> string) option" where
  "scan_number s =
     (let neg = (s \<noteq> [] \<and> hd s = CHR ''-'');
          s1 = (if neg then tl s else s);
          ip = int_part s1;
          (fr, s3) = frac_part (drop (length ip) s1);
          (eneg, ex, rest) = exp_part s3;
          e = (if eneg then - int (digits_val ex) else int (digits_val ex))
      in if ip = [] then None
         else if fr = [] \<and> ex = [] then
           Some (JInt ((if neg then -1 else 1) * int (digits_val ip)), rest)
         else Some (dec_of neg (ip @ fr) (e - int (length fr)), rest))"

text \<open>\<open>dict(pairs)\<close>: a repeated key keeps its first position and its last value.\<close>

definition dict_of :: "(string \<times> json) list \<Rightarrow> (string \<times> json) list" where
  "dict_of kvs = fold (\<lambda>(k, v) d. AList.update k v d) kvs []"

datatype presult = PErr | PFuel | POk json string

definition starts :: "string \<Rightarrow> string \<Rightarrow> bool" where
  "starts p s \<longleftrightarrow> take (length p) s = p"

text \<open>The scanner's four states: a value, an object member after its opening
  quote, the rest of an object after a member, the rest of an array after an
  element (with what has been read of the container so far).\<close>

datatype pmode = PValue | PPair "(string \<times> json) list" | PMembers "(string \<times> json) list"
  | PElems "json list"

fun parse :: "nat \<Rightarrow> pmode \<Rightarrow> string \<Rightarrow> presult" where
  "parse 0 m s = PFuel"
| "parse (Suc f) PValue s =
     (if s = [] then PErr
      else if hd s = CHR ''\"'' then
        (case scan_string [] (tl s) of None \<Rightarrow> PErr | Some (str, r) \<Rightarrow> POk (JStr str) r)
      else if hd s = CHR ''{'' then
        (let s1 = skip_ws (tl s) in
         if s1 \<noteq> [] \<and> hd s1 = CHR ''}'' then POk (JObj []) (tl s1)
         else if s1 \<noteq> [] \<and> hd s1 = CHR ''\"'' then parse f (PPair []) (tl s1)
         else PErr)
      else if hd s = CHR ''['' then
        (let s1 = skip_ws (tl s) in
         if s1 \<noteq> [] \<and> hd s1 = CHR '']'' then POk (JArr []) (tl s1)
         else (case parse f PValue s1 of POk v r \<Rightarrow> parse f (PElems [v]) r | res \<Rightarrow> res))
      else if starts ''null'' s then POk JNull (drop 4 s)
      else if starts ''true'' s then POk (JBool True) (drop 4 s)
      else if starts ''false'' s then POk (JBool False) (drop 5 s)
      else (case scan_number s of None \<Rightarrow> PErr | Some (v, r) \<Rightarrow> POk v r))"
| "parse (Suc f) (PPair acc) s =
     (case scan_string [] s of
        None \<Rightarrow> PErr
      | Some (k, r) \<Rightarrow>
          (let r1 = skip_ws r in
           if r1 \<noteq> [] \<and> hd r1 = CHR '':'' then
             (case parse f PValue (skip_ws (tl r1)) of
                POk v r2 \<Rightarrow> parse f (PMembers (acc @ [(k, v)])) r2
              | res \<Rightarrow> res)
           else PErr))"
| "parse (Suc f) (PMembers acc) s =
     (let s1 = skip_ws s in
      if s1 \<noteq> [] \<and> hd s1 = CHR ''}'' then POk (JObj (dict_of acc)) (tl s1)
      else if s1 \<noteq> [] \<and> hd s1 = CHR '','' then
        (let s2 = skip_ws (tl s1) in
         if s2 \<noteq> [] \<and> hd s2 = CHR ''\"'' then parse f (PPair acc) (tl s2) else PErr)
      else PErr)"
| "parse (Suc f) (PElems acc) s =
     (let s1 = skip_ws s in
      if s1 \<noteq> [] \<and> hd s1 = CHR '']'' then POk (JArr acc) (tl s1)
      else if s1 \<noteq> [] \<and> hd s1 = CHR '','' then
        (case parse f PValue (skip_ws (tl s1)) of
           POk v r \<Rightarrow> parse f (PElems (acc @ [v])) r
         | res \<Rightarrow> res)
      else PErr)"

text \<open>\<open>json.loads(s)\<close>: one value between optional whitespace (\<open>None\<close> is a
  \<open>JSONDecodeError\<close>). The fuel, one more than the length of the input, is enough
  (lemma \<open>parse_fuel\<close>).\<close>

definition json_loads :: "string \<Rightarrow> json option" where
  "json_loads s =
     (let s0 = skip_ws s in
      case parse (Suc (length s0)) PValue s0 of
        POk v r \<Rightarrow> if skip_ws r = [] then Some v else None
      | _ \<Rightarrow> None)"

subsection \<open>The scanner consumes input and its fuel suffices\<close>














end
