(* ===== verification/World.thy ===== *)
theory World
  imports Sqlite JsonText
begin

text \<open>
  The observable state of a run of src/processor.py: the database file (absent, or
  its committed contents), whether the process may create and write files there,
  the directories that exist, and the log stream written through
  \<open>logger = logging.getLogger('dummy_processor')\<close>. A log record is its level and
  an event naming the call site of \<open>logger.info/warning/error\<close> with the values the
  message interpolates; the Russian message text itself is not modelled.
\<close>

datatype log_level = INFO | WARNING | ERROR

datatype entity = Products | Users | Posts

datatype log_event =
    ApiRequest string "(string \<times> json) list"
  | ApiOk nat
  | ApiTimeout string
  | ApiRequestError string
  | ApiBadJson string
  | DbDirCreated string
  | DbConnected string
  | DbConnectError string
  | DbOsError
  | TableMissing string
  | TableCreated string
  | TableExists string
  | TableInitError string
  | NoDataToSave
  | SavedRows nat string
  | NoNewRows string
  | SaveError string
  | StartProducts string
  | StartUsers int int
  | StartUserPosts int int int
  | StartAllPosts int int
  | NoData entity
  | Found entity nat
  | ConnFailed
  | InitFailed entity
  | SkipNoId entity "json option"
  | Finished entity nat nat
  | FinishedNoNew entity
  | ConnClosed

record world =
  db_file :: "database option"
  writable :: bool
  dirs :: "string list"
  log :: "(log_level \<times> log_event) list"

definition log_add :: "log_level \<Rightarrow> log_event \<Rightarrow> world \<Rightarrow> world" where
  "log_add lv ev w = w\<lparr>log := log w @ [(lv, ev)]\<rparr>"

definition warnings :: "world \<Rightarrow> log_event list" where
  "warnings w = [ev. (lv, ev) \<leftarrow> log w, lv = WARNING]"

text \<open>The connection events of a log: opening the database and closing it.\<close>

fun conn_event :: "log_event \<Rightarrow> bool" where
  "conn_event (DbConnected p) = True"
| "conn_event ConnClosed = True"
| "conn_event ev = False"

definition conn_trace :: "(log_level \<times> log_event) list \<Rightarrow> log_event list" where
  "conn_trace l = [ev. (lv, ev) \<leftarrow> l, conn_event ev]"

lemma log_add_db_file [simp]: "db_file (log_add lv ev w) = db_file w"
  and log_add_writable [simp]: "writable (log_add lv ev w) = writable w"
  and log_add_dirs [simp]: "dirs (log_add lv ev w) = dirs w"
  and log_add_log [simp]: "log (log_add lv ev w) = log w @ [(lv, ev)]"
  by (simp_all add: log_add_def)

lemma conn_trace_simps [simp]:
  "conn_trace [] = []"
  "conn_trace ((lv, ev) # l) = (if conn_event ev then ev # conn_trace l else conn_trace l)"
  "conn_trace (l1 @ l2) = conn_trace l1 @ conn_trace l2"
  by (simp_all add: conn_trace_def)

lemma conn_trace_log_add [simp]:
  "conn_trace (log (log_add lv ev w)) = conn_trace (log w) @ (if conn_event ev then [ev] else [])"
  by (simp add: conn_trace_def)

end
