(* ===== verification/Storage.thy ===== *)
theory Storage
  imports World
begin

text \<open>
  The storage gateway of src/processor.py (lines 80-183): \<open>get_db_connection\<close>,
  \<open>init_db_table\<close> and \<open>save_data_to_db\<close>. A connection is the database as the
  connection sees it; \<open>conn.commit()\<close> makes it the content of the file
  (\<open>db_file\<close>), \<open>conn.rollback()\<close> drops what the failed statement did. Each
  operation returns the world (log and file), the connection after the call, and
  its Python result, \<open>Inl\<close> an exception that leaves the function.
\<close>

definition DB_NAME :: string where
  "DB_NAME = ''dummy_data.db''"

text \<open>\<open>os.path.dirname\<close> (posixpath): the part before the last slash, trailing slashes
  removed unless it is all slashes.\<close>

definition dirname :: "string \<Rightarrow> string" where
  "dirname p =
     (let head = take (length p - length (takeWhile (\<lambda>c. c \<noteq> CHR ''/'') (rev p))) p in
      if head \<noteq> [] \<and> head \<noteq> replicate (length head) (CHR ''/'')
      then rev (dropWhile (\<lambda>c. c = CHR ''/'') (rev head)) else head)"

text \<open>
  \<open>get_db_connection\<close>: create the directory of the database if it is missing
  (\<open>OSError\<close> when that is impossible), then \<open>sqlite3.connect\<close>, which creates an
  empty database file if there is none and fails when it cannot.
\<close>

definition get_db_connection :: "world \<Rightarrow> world \<times> database option" where
  "get_db_connection w =
     (let db_dir = dirname DB_NAME in
      if db_dir \<noteq> [] \<and> db_dir \<notin> set (dirs w) \<and> \<not> writable w
      then (log_add ERROR DbOsError w, None)
      else
        let w1 = (if db_dir \<noteq> [] \<and> db_dir \<notin> set (dirs w)
                  then log_add INFO (DbDirCreated db_dir) (w\<lparr>dirs := dirs w @ [db_dir]\<rparr>) else w) in
        case db_file w1 of
          Some db \<Rightarrow> (log_add INFO (DbConnected DB_NAME) w1, Some db)
        | None \<Rightarrow>
            (if writable w1 then (log_add INFO (DbConnected DB_NAME) (w1\<lparr>db_file := Some []\<rparr>), Some [])
             else (log_add ERROR (DbConnectError DB_NAME) w1, None)))"

text \<open>
  \<open>init_db_table\<close>: look the table up in \<open>sqlite_master\<close>; if it is absent, run the
  \<open>CREATE TABLE\<close> statement (its column declarations are \<open>schema\<close>) and commit. A
  \<open>sqlite3.Error\<close> is logged, rolled back and reported as \<open>False\<close>.
\<close>

definition init_db_table ::
  "world \<Rightarrow> database \<Rightarrow> string \<Rightarrow> coldef list \<Rightarrow> world \<times> database \<times> bool" where
  "init_db_table w c table_name schema =
     (if table_exists c table_name then (log_add INFO (TableExists table_name) w, c, True)
      else
        let w1 = log_add INFO (TableMissing table_name) w in
        case create_table (writable w) c table_name schema of
          Inl e \<Rightarrow> (log_add ERROR (TableInitError table_name) w1, c, False)
        | Inr c' \<Rightarrow> (log_add INFO (TableCreated table_name) (w1\<lparr>db_file := Some c'\<rparr>), c', True))"

text \<open>
  \<open>save_data_to_db\<close>: nothing to do on an empty batch; otherwise one
  \<open>executemany\<close> of \<open>INSERT OR IGNORE\<close> and a commit, returning \<open>cursor.rowcount\<close>.
  A \<open>sqlite3.Error\<close> is logged and rolled back and the result is 0; any other
  exception (\<open>OverflowError\<close> from binding) leaves the function uncaught, with the
  statement's writes uncommitted.
\<close>

definition save_data_to_db ::
  "world \<Rightarrow> database \<Rightarrow> string \<Rightarrow> json list list \<Rightarrow> string list \<Rightarrow> world \<times> database \<times> nat result" where
  "save_data_to_db w c table_name data columns =
     (if data = [] then (log_add INFO NoDataToSave w, c, Inr 0)
      else case insert_many (writable w) c table_name columns data of
        Inr (c', n) \<Rightarrow>
          (log_add INFO (if 0 < n then SavedRows n table_name else NoNewRows table_name)
             (w\<lparr>db_file := Some c'\<rparr>), c', Inr n)
      | Inl e \<Rightarrow>
          (if is_sql_error e then (log_add ERROR (SaveError table_name) w, c, Inr 0)
           else (w, c, Inl e)))"

text \<open>The connection and the file agree (one connection, everything committed) and
  the database is well formed.\<close>

definition conn_ok :: "world \<Rightarrow> database \<Rightarrow> bool" where
  "conn_ok w c \<longleftrightarrow> db_file w = Some c \<and> db_inv c"

text \<open>The keys of a table of the connection.\<close>

definition table_keys :: "database \<Rightarrow> string \<Rightarrow> int set" where
  "table_keys c name = (case map_of c name of None \<Rightarrow> {} | Some t \<Rightarrow> row_keys t)"

subsection \<open>Examples\<close>

text \<open>A database holding one empty posts-like table, and the batch of one post
  that the examples save into it.\<close>

abbreviation ex_columns :: "string list" where
  "ex_columns \<equiv> [''api_id'', ''title'']"

abbreviation ex_schema :: "coldef list" where
  "ex_schema \<equiv> [\<lparr>col_name = ''api_id'', col_type = ''INTEGER'', col_notnull = True, col_pk = True\<rparr>,
                \<lparr>col_name = ''title'', col_type = ''TEXT'', col_notnull = False, col_pk = False\<rparr>]"

abbreviation ex_batch :: "json list list" where
  "ex_batch \<equiv> [[JInt 7, JStr ''hi'']]"

abbreviation ex_db0 :: database where
  "ex_db0 \<equiv> [(''posts'', \<lparr>tcols = ex_schema, trows = []\<rparr>)]"

abbreviation ex_db1 :: database where
  "ex_db1 \<equiv> [(''posts'', \<lparr>tcols = ex_schema, trows = [(7, [SInteger 7, SText ''hi''])]\<rparr>)]"

abbreviation ex_w0 :: world where
  "ex_w0 \<equiv> \<lparr>db_file = Some ex_db0, writable = True, dirs = [], log = []\<rparr>"

abbreviation ex_w1 :: world where
  "ex_w1 \<equiv> \<lparr>db_file = Some ex_db1, writable = True, dirs = [], log = [(INFO, SavedRows 1 ''posts'')]\<rparr>"

subsection \<open>Lemmas\<close>

lemma dirname_DB_NAME [simp]: "dirname DB_NAME = []"
  by (simp add: dirname_def DB_NAME_def)

lemma table_keys_update [simp]: "table_keys (AList.update name t db) name = row_keys t"
  by (simp add: table_keys_def update_conv')

lemma table_keys_lookup: "map_of db name = Some t \<Longrightarrow> table_keys db name = row_keys t"
  by (simp add: table_keys_def)

lemma get_db_connection_conn_ok:
  assumes "case db_file w of None \<Rightarrow> True | Some db \<Rightarrow> db_inv db"
    and "get_db_connection w = (w', Some c)"
  shows "conn_ok w' c"
  using assms by (auto simp: get_db_connection_def conn_ok_def db_inv_def split: option.splits if_splits)

lemma init_db_table_conn_ok:
  "conn_ok w c \<Longrightarrow> init_db_table w c name s = (w', c', b) \<Longrightarrow> conn_ok w' c'"
  by (auto simp: init_db_table_def conn_ok_def create_table_inv Let_def split: if_splits sum.splits)

lemma save_data_to_db_conn_ok:
  "conn_ok w c \<Longrightarrow> save_data_to_db w c name data cols = (w', c', r) \<Longrightarrow> conn_ok w' c'"
  by (auto simp: save_data_to_db_def conn_ok_def insert_many_inv split: if_splits sum.splits)

lemma init_db_table_conn_trace [simp]:
  "conn_trace (log (fst (init_db_table w c name schema))) = conn_trace (log w)"
  by (simp add: init_db_table_def Let_def split: sum.split)

lemma save_data_to_db_conn_trace [simp]:
  "conn_trace (log (fst (save_data_to_db w c name data cols))) = conn_trace (log w)"
  by (simp add: save_data_to_db_def split: sum.split prod.split)

lemma get_db_connection_conn_trace:
  "conn_trace (log (fst (get_db_connection w))) =
   conn_trace (log w) @ (case snd (get_db_connection w) of None \<Rightarrow> [] | Some c \<Rightarrow> [DbConnected DB_NAME])"
  by (simp add: get_db_connection_def split: option.split)

lemma save_data_to_db_writable [simp]:
  "save_data_to_db w c name data cols = (w', c', r) \<Longrightarrow> writable w' = writable w"
  by (auto simp: save_data_to_db_def split: if_splits sum.splits)

lemma save_data_to_db_cases:
  assumes "save_data_to_db w c name data cols = (w', c', r)"
  obtains (empty) "data = []" "c' = c" "r = Inr 0" "db_file w' = db_file w"
  | (stored) n where "data \<noteq> []" "insert_many (writable w) c name cols data = Inr (c', n)"
      "r = Inr n" "db_file w' = Some c'"
  | (sqlerr) e where "data \<noteq> []" "insert_many (writable w) c name cols data = Inl e"
      "is_sql_error e" "c' = c" "r = Inr 0" "db_file w' = db_file w"
  | (raised) e where "data \<noteq> []" "insert_many (writable w) c name cols data = Inl e"
      "\<not> is_sql_error e" "c' = c" "r = Inl e" "w' = w"
  using assms unfolding save_data_to_db_def
  by (cases "data = []"; auto split: sum.splits if_splits)

lemma save_data_to_db_nonempty:
  "data \<noteq> [] \<Longrightarrow> save_data_to_db w c name data cols =
     (case insert_many (writable w) c name cols data of
        Inr (c', n) \<Rightarrow>
          (log_add INFO (if 0 < n then SavedRows n name else NoNewRows name)
             (w\<lparr>db_file := Some c'\<rparr>), c', Inr n)
      | Inl e \<Rightarrow>
          (if is_sql_error e then (log_add ERROR (SaveError name) w, c, Inr 0)
           else (w, c, Inl e)))"
  unfolding save_data_to_db_def by (simp only: if_False)

lemma get_db_connection_eq:
  "get_db_connection w =
     (case db_file w of
        Some db \<Rightarrow> (log_add INFO (DbConnected DB_NAME) w, Some db)
      | None \<Rightarrow>
          (if writable w then (log_add INFO (DbConnected DB_NAME) (w\<lparr>db_file := Some []\<rparr>), Some [])
           else (log_add ERROR (DbConnectError DB_NAME) w, None)))"
  by (simp add: get_db_connection_def)

lemma init_db_table_cases:
  assumes "init_db_table w c name s = (w', c', b)"
  obtains (exists) "table_exists c name" "c' = c" "b" "w' = log_add INFO (TableExists name) w"
  | (created) "\<not> table_exists c name" "create_table (writable w) c name s = Inr c'" "b"
      "db_file w' = Some c'" "writable w' = writable w"
  | (failed) e where "\<not> table_exists c name" "create_table (writable w) c name s = Inl e" "\<not> b"
      "c' = c" "db_file w' = db_file w" "writable w' = writable w"
  using assms unfolding init_db_table_def Let_def
  by (cases "table_exists c name"; cases "create_table (writable w) c name s"; auto)

text \<open>A save that succeeded, repeated on the database it produced, from any world
  connected to that database, inserts nothing and leaves the file as it is.\<close>

lemma save_data_to_db_again:
  assumes inv: "db_inv c" and key: "batch_keyed c name cols data"
    and run: "save_data_to_db w c name data cols = (w1, c1, Inr n)"
    and wr: "writable w' = writable w" and conn: "db_file w' = Some c1"
  shows "\<exists>w2. save_data_to_db w' c1 name data cols = (w2, c1, Inr 0) \<and> db_file w2 = db_file w'"
  using run
proof (cases rule: save_data_to_db_cases)
  case empty
  then show ?thesis by (simp add: save_data_to_db_def)
next
  case (stored m)
  have "insert_many (writable w') c1 name cols data = Inr (c1, 0)"
    using insert_many_again [OF inv stored(2) key] wr by simp
  with stored conn show ?thesis by (simp add: save_data_to_db_nonempty)
next
  case (sqlerr e)
  with wr show ?thesis by (simp add: save_data_to_db_nonempty)
qed simp

text \<open>C1. Re-running a save of the same keyed batch inserts nothing and changes
  neither the connection nor the file (insert-or-ignore idempotence).\<close>

theorem save_data_to_db_idempotent:
  assumes inv: "db_inv c" and key: "batch_keyed c name cols data"
    and run: "save_data_to_db w c name data cols = (w1, c1, Inr n)"
  shows "\<exists>w2. save_data_to_db w1 c1 name data cols = (w2, c1, Inr 0) \<and> db_file w2 = db_file w1"
  using run
proof (cases rule: save_data_to_db_cases)
  case empty
  then show ?thesis by (simp add: save_data_to_db_def)
next
  case (stored m)
  have wr: "writable w1 = writable w" using run by (rule save_data_to_db_writable)
  have "insert_many (writable w1) c1 name cols data = Inr (c1, 0)"
    using insert_many_again [OF inv stored(2) key] wr by simp
  with stored show ?thesis by (simp add: save_data_to_db_nonempty)
next
  case (sqlerr e)
  have wr: "writable w1 = writable w" using run by (rule save_data_to_db_writable)
  with sqlerr show ?thesis by (simp add: save_data_to_db_nonempty)
next
  case (raised e)
  then show ?thesis by simp
qed

text \<open>C2. The count \<open>save_data_to_db\<close> returns is the number of keys the table did
  not hold before the call and holds after it.\<close>

theorem save_data_to_db_count:
  assumes inv: "db_inv c" and run: "save_data_to_db w c name data cols = (w', c', Inr n)"
  shows "n = card (table_keys c' name - table_keys c name)"
  using run
proof (cases rule: save_data_to_db_cases)
  case (stored m)
  from insert_many_table_keys [OF inv stored(2)] obtain t t' where
    "map_of c name = Some t" "map_of c' name = Some t'" "table_inv t" "table_inv t'" "grows_by t t' m"
    by blast
  with stored show ?thesis by (simp add: table_keys_lookup grows_by_card)
qed simp_all

text \<open>C3. A call changes the database only by committing at least one new row: an
  empty batch, a batch of known keys, a \<open>sqlite3.Error\<close> (rolled back) and an
  escaping exception all leave the connection as it was.\<close>

theorem save_data_to_db_changes_only_on_insert:
  assumes inv: "db_inv c" and run: "save_data_to_db w c name data cols = (w', c', r)"
    and changed: "c' \<noteq> c"
  shows "\<exists>n. r = Inr n \<and> 0 < n \<and> db_file w' = Some c'"
  using run
proof (cases rule: save_data_to_db_cases)
  case (stored m)
  have "m \<noteq> 0"
  proof
    assume "m = 0"
    with stored(2) have "c' = c" using insert_many_zero [OF inv] by simp
    with changed show False by simp
  qed
  with stored show ?thesis by simp
qed (use changed in simp_all)

theorem save_data_to_db_idempotent_witness:
  "db_inv ex_db0 \<and> batch_keyed ex_db0 ''posts'' ex_columns ex_batch \<and>
   save_data_to_db ex_w0 ex_db0 ''posts'' ex_batch ex_columns = (ex_w1, ex_db1, Inr 1) \<and>
   (\<exists>w2. save_data_to_db ex_w1 ex_db1 ''posts'' ex_batch ex_columns = (w2, ex_db1, Inr 0) \<and>
         db_file w2 = db_file ex_w1)"
proof (intro conjI)
  show h1: "db_inv ex_db0" by (simp add: db_simps)
  show h2: "batch_keyed ex_db0 ''posts'' ex_columns ex_batch" by (simp add: db_simps)
  show h3: "save_data_to_db ex_w0 ex_db0 ''posts'' ex_batch ex_columns = (ex_w1, ex_db1, Inr 1)"
    by (simp add: save_data_to_db_nonempty db_simps log_add_def)
  show "\<exists>w2. save_data_to_db ex_w1 ex_db1 ''posts'' ex_batch ex_columns = (w2, ex_db1, Inr 0) \<and>
      db_file w2 = db_file ex_w1"
    by (rule save_data_to_db_idempotent [OF h1 h2 h3])
qed

lemma ex_save_first: "save_data_to_db ex_w0 ex_db0 ''posts'' ex_batch ex_columns = (ex_w1, ex_db1, Inr 1)"
  by (simp add: save_data_to_db_nonempty db_simps log_add_def)

theorem save_data_to_db_count_witness:
  "db_inv ex_db0 \<and> save_data_to_db ex_w0 ex_db0 ''posts'' ex_batch ex_columns = (ex_w1, ex_db1, Inr 1) \<and>
   1 = card (table_keys ex_db1 ''posts'' - table_keys ex_db0 ''posts'')"
proof -
  have h1: "db_inv ex_db0" by (simp add: db_simps)
  from save_data_to_db_count [OF h1 ex_save_first] h1 ex_save_first show ?thesis by simp
qed

theorem save_data_to_db_changes_only_on_insert_witness:
  "db_inv ex_db0 \<and> save_data_to_db ex_w0 ex_db0 ''posts'' ex_batch ex_columns = (ex_w1, ex_db1, Inr 1) \<and>
   ex_db1 \<noteq> ex_db0 \<and> (\<exists>n. (Inr 1 :: nat result) = Inr n \<and> 0 < n \<and> db_file ex_w1 = Some ex_db1)"
proof -
  have h1: "db_inv ex_db0" by (simp add: db_simps)
  have h2: "ex_db1 \<noteq> ex_db0" by simp
  from save_data_to_db_changes_only_on_insert [OF h1 ex_save_first h2] h1 h2 ex_save_first
  show ?thesis by simp
qed

text \<open>C30. \<open>sqlite3\<close> cannot bind a Python \<open>int\<close> outside the 64-bit range: it
  raises \<open>OverflowError\<close>, which is not a \<open>sqlite3.Error\<close>. A row holding such an
  integer (and no list or dict) makes \<open>save_data_to_db\<close> raise past its handler,
  with nothing written.\<close>

theorem save_data_to_db_overflow:
  assumes t: "map_of c name = Some t" and cols: "set cols \<subseteq> set (map col_name (tcols t))"
    and len: "length ps = length cols" and big: "JInt i \<in> set ps" "\<not> int64_range i"
    and flat: "\<forall>v \<in> set ps. bind_param v \<noteq> Inl (SqlError ProgrammingError)"
  shows "save_data_to_db w c name (ps # rest) cols = (w, c, Inl OverflowError)"
proof -
  have "map_err bind_param ps = Inl OverflowError"
  proof (rule map_err_Inl_unique [OF big(1)])
    show "bind_param (JInt i) = Inl OverflowError" using big(2) by simp
    show "e' = OverflowError" if "y \<in> set ps" "bind_param y = Inl e'" for y e'
    proof -
      have "bind_param y \<noteq> Inl (SqlError ProgrammingError)" using flat that(1) by blast
      with that(2) show ?thesis by (cases y) (auto split: if_splits)
    qed
  qed
  then have "exec_many (writable w) t cols (ps # rest) = Inl OverflowError"
    using len by (simp add: exec_insert_def)
  then have "insert_many (writable w) c name cols (ps # rest) = Inl OverflowError"
    using t cols by (simp add: insert_many_def)
  then show ?thesis by (simp add: save_data_to_db_nonempty)
qed

theorem save_data_to_db_overflow_witness:
  "map_of [(''products'', \<lparr>tcols = [\<lparr>col_name = ''id'', col_type = ''INTEGER'', col_notnull = False, col_pk = True\<rparr>],
       trows = []\<rparr>)] ''products'' =
     Some \<lparr>tcols = [\<lparr>col_name = ''id'', col_type = ''INTEGER'', col_notnull = False, col_pk = True\<rparr>], trows = []\<rparr> \<and>
   set [''id''] \<subseteq> set (map col_name [\<lparr>col_name = ''id'', col_type = ''INTEGER'', col_notnull = False, col_pk = True\<rparr>]) \<and>
   length [JInt (2 ^ 63)] = length [''id''] \<and> JInt (2 ^ 63) \<in> set [JInt (2 ^ 63)] \<and> \<not> int64_range (2 ^ 63) \<and>
   bind_param (JInt (2 ^ 63)) \<noteq> Inl (SqlError ProgrammingError) \<and>
   save_data_to_db ex_w0 [(''products'', \<lparr>tcols = [\<lparr>col_name = ''id'', col_type = ''INTEGER'', col_notnull = False, col_pk = True\<rparr>],
       trows = []\<rparr>)] ''products'' [[JInt (2 ^ 63)]] [''id''] =
     (ex_w0, [(''products'', \<lparr>tcols = [\<lparr>col_name = ''id'', col_type = ''INTEGER'', col_notnull = False, col_pk = True\<rparr>],
       trows = []\<rparr>)], Inl OverflowError)"
proof -
  have r: "\<not> int64_range (2 ^ 63)" by (simp add: int64_range_def int64_max_def)
  show ?thesis
    using save_data_to_db_overflow [where c = "[(''products'', \<lparr>tcols = [\<lparr>col_name = ''id'', col_type = ''INTEGER'',
        col_notnull = False, col_pk = True\<rparr>], trows = []\<rparr>)]" and name = "''products''" and cols = "[''id'']"
        and ps = "[JInt (2 ^ 63)]" and i = "2 ^ 63" and w = ex_w0 and rest = "[]"] r
    by simp
qed

end
