(* ===== verification/ApiClient.thy ===== *)
theory ApiClient
  imports World
begin

text \<open>
  The API client, \<open>fetch_api_data\<close> (src/processor.py lines 43-73). The upstream
  service is an input of the model: a function from the URL and the query
  parameters to the outcome of the one \<open>requests.get\<close> call (a timeout, another
  \<open>RequestException\<close> such as a refused connection, or a response with its final
  status and body text). \<open>response.json()\<close> is \<open>json_loads\<close> of the body.

  With requests 2.27 and later, \<open>response.json()\<close> raises
  \<open>requests.exceptions.JSONDecodeError\<close>, a subclass of \<open>RequestException\<close>; the
  second \<open>except\<close> clause catches it, so an undecodable body is logged as a
  request error and the third clause never runs.
\<close>

datatype http_result = HTimeout | HConnError | HResponse nat string

type_synonym api = "string \<Rightarrow> (string \<times> json) list \<Rightarrow> http_result"

definition BASE_API_URL :: string where
  "BASE_API_URL = ''https://dummyjson.com/''"

text \<open>\<open>response.raise_for_status()\<close> raises \<open>HTTPError\<close> for 4xx and 5xx.\<close>

definition http_error_status :: "nat \<Rightarrow> bool" where
  "http_error_status st \<longleftrightarrow> 400 \<le> st \<and> st < 600"

definition fetch_api_data :: "api \<Rightarrow> string \<Rightarrow> (string \<times> json) list \<Rightarrow> world \<Rightarrow> world \<times> json option" where
  "fetch_api_data api entity params w =
     (let url = BASE_API_URL @ entity;
          w1 = log_add INFO (ApiRequest url params) w
      in case api url params of
           HTimeout \<Rightarrow> (log_add ERROR (ApiTimeout url) w1, None)
         | HConnError \<Rightarrow> (log_add ERROR (ApiRequestError url) w1, None)
         | HResponse st body \<Rightarrow>
             (if http_error_status st then (log_add ERROR (ApiRequestError url) w1, None)
              else
                let w2 = log_add INFO (ApiOk st) w1 in
                case json_loads body of
                  None \<Rightarrow> (log_add ERROR (ApiRequestError url) w2, None)
                | Some j \<Rightarrow> (w2, Some j)))"

subsection \<open>Lemmas\<close>

lemma fetch_api_data_frame:
  "fetch_api_data api entity params w = (w', r) \<Longrightarrow>
   db_file w' = db_file w \<and> writable w' = writable w \<and> dirs w' = dirs w \<and>
   (\<exists>evs. log w' = log w @ evs)"
  by (auto simp: fetch_api_data_def Let_def split: http_result.splits if_splits option.splits)

lemma fetch_api_data_conn_trace [simp]:
  "conn_trace (log (fst (fetch_api_data api entity params w))) = conn_trace (log w)"
  by (simp add: fetch_api_data_def Let_def split: http_result.split option.split)

lemma fetch_api_data_cases:
  assumes "fetch_api_data api entity params w = (w', r)"
  obtains (timeout) "api (BASE_API_URL @ entity) params = HTimeout" "r = None"
      "log w' = log w @ [(INFO, ApiRequest (BASE_API_URL @ entity) params),
                         (ERROR, ApiTimeout (BASE_API_URL @ entity))]"
  | (conn) "api (BASE_API_URL @ entity) params = HConnError" "r = None"
      "log w' = log w @ [(INFO, ApiRequest (BASE_API_URL @ entity) params),
                         (ERROR, ApiRequestError (BASE_API_URL @ entity))]"
  | (status) st body where "api (BASE_API_URL @ entity) params = HResponse st body"
      "http_error_status st" "r = None"
      "log w' = log w @ [(INFO, ApiRequest (BASE_API_URL @ entity) params),
                         (ERROR, ApiRequestError (BASE_API_URL @ entity))]"
  | (undecodable) st body where "api (BASE_API_URL @ entity) params = HResponse st body"
      "\<not> http_error_status st" "json_loads body = None" "r = None"
      "log w' = log w @ [(INFO, ApiRequest (BASE_API_URL @ entity) params), (INFO, ApiOk st),
                         (ERROR, ApiRequestError (BASE_API_URL @ entity))]"
  | (decoded) st body j where "api (BASE_API_URL @ entity) params = HResponse st body"
      "\<not> http_error_status st" "json_loads body = Some j" "r = Some j"
      "log w' = log w @ [(INFO, ApiRequest (BASE_API_URL @ entity) params), (INFO, ApiOk st)]"
  using assms
  by (auto simp: fetch_api_data_def Let_def split: http_result.splits if_splits option.splits)

text \<open>C4. \<open>fetch_api_data\<close> returns a value exactly when the one request got a
  response with a status below 400 (or of 600 and above) whose body decodes, and
  it then returns the decoded body.\<close>

theorem fetch_api_data_Some_iff:
  "snd (fetch_api_data api entity params w) = Some j \<longleftrightarrow>
   (\<exists>st body. api (BASE_API_URL @ entity) params = HResponse st body \<and>
      \<not> http_error_status st \<and> json_loads body = Some j)"
  by (auto simp: fetch_api_data_def Let_def split: http_result.splits if_splits option.splits)

text \<open>C5. Every failure of \<open>fetch_api_data\<close> (timeout, refused connection, HTTP
  error status, undecodable body) is reported as an ERROR record, the last one the
  call writes, after the INFO record of the request.\<close>

theorem fetch_api_data_failure_logged:
  assumes "fetch_api_data api entity params w = (w', None)"
  shows "\<exists>evs ev. log w' = log w @ (INFO, ApiRequest (BASE_API_URL @ entity) params) # evs @ [(ERROR, ev)]"
  using assms
proof (cases rule: fetch_api_data_cases)
  case (undecodable st body)
  then show ?thesis by auto
qed auto


subsection \<open>Examples\<close>

text \<open>An upstream that answers every request with status 200 and the given body.\<close>

theorem fetch_api_data_Some_iff_witness:
  "snd (fetch_api_data (\<lambda>u p. HResponse 200 ''{\"posts\": []}'') ''posts'' [] \<lparr>db_file = None, writable = True, dirs = [], log = []\<rparr>) = Some (JObj [(''posts'', JArr [])]) \<and>
   (\<exists>st body. (\<lambda>u p. HResponse 200 ''{\"posts\": []}'') (BASE_API_URL @ ''posts'') [] = HResponse st body \<and>
      \<not> http_error_status st \<and> json_loads body = Some (JObj [(''posts'', JArr [])]))"
proof -
  have "json_loads ''{\"posts\": []}'' = Some (JObj [(''posts'', JArr [])])" by code_simp
  then have r: "\<exists>st body. (\<lambda>u p. HResponse 200 ''{\"posts\": []}'') (BASE_API_URL @ ''posts'') [] = HResponse st body \<and>
      \<not> http_error_status st \<and> json_loads body = Some (JObj [(''posts'', JArr [])])"
    by (simp add: http_error_status_def)
  with fetch_api_data_Some_iff show ?thesis by blast
qed

theorem fetch_api_data_failure_logged_witness:
  "fetch_api_data (\<lambda>u p. HTimeout) ''users'' [] \<lparr>db_file = None, writable = True, dirs = [], log = []\<rparr> =
     (\<lparr>db_file = None, writable = True, dirs = [],
       log = [(INFO, ApiRequest (BASE_API_URL @ ''users'') []), (ERROR, ApiTimeout (BASE_API_URL @ ''users''))]\<rparr>, None) \<and>
   (\<exists>evs ev. [(INFO, ApiRequest (BASE_API_URL @ ''users'') []), (ERROR, ApiTimeout (BASE_API_URL @ ''users''))] =
      [] @ (INFO, ApiRequest (BASE_API_URL @ ''users'') []) # evs @ [(ERROR, ev)])"
proof -
  have f: "fetch_api_data (\<lambda>u p. HTimeout) ''users'' [] \<lparr>db_file = None, writable = True, dirs = [], log = []\<rparr> =
     (\<lparr>db_file = None, writable = True, dirs = [],
       log = [(INFO, ApiRequest (BASE_API_URL @ ''users'') []), (ERROR, ApiTimeout (BASE_API_URL @ ''users''))]\<rparr>, None)"
    by (simp add: fetch_api_data_def log_add_def Let_def)
  from fetch_api_data_failure_logged [OF f] f show ?thesis by simp
qed


end
