(* ===== verification/Processor.thy ===== *)
theory Processor
  imports Storage ApiClient
begin

text \<open>
  The entity processors of src/processor.py: \<open>process_products\<close> (lines 190-281),
  \<open>process_users\<close> (284-416) and \<open>process_posts\<close> (419-510). The three functions
  run one protocol and differ in the data they pass to it; the protocol is
  \<open>process_entity\<close> (fetch, validate the response, connect) and \<open>store_entity\<close>
  (the body of the \<open>try\<close>: create the table, build the rows, save), and each
  processor is that protocol applied to its \<open>entity_spec\<close>: response field and
  table name, schema, column list, the field its skip warning names, and the
  function that turns one record into its row (\<open>product_tuple\<close>, \<open>user_tuple\<close>,
  \<open>post_tuple\<close>). A run returns the world and \<open>Inr ()\<close>, or \<open>Inl\<close> the exception
  that leaves the processor.
\<close>

subsection \<open>Schemas\<close>

definition col :: "string \<Rightarrow> string \<Rightarrow> coldef" where
  "col n ty = \<lparr>col_name = n, col_type = ty, col_notnull = False, col_pk = False\<rparr>"

definition pk_col :: "string \<Rightarrow> coldef" where
  "pk_col n = \<lparr>col_name = n, col_type = ''INTEGER'', col_notnull = True, col_pk = True\<rparr>"

definition products_schema :: "coldef list" where
  "products_schema =
     [pk_col ''api_id'', col ''title'' ''TEXT'', col ''description'' ''TEXT'', col ''price'' ''REAL'',
      col ''discountPercentage'' ''REAL'', col ''rating'' ''REAL'', col ''stock'' ''INTEGER'',
      col ''brand'' ''TEXT'', col ''category'' ''TEXT'', col ''thumbnail'' ''TEXT'', col ''images'' ''TEXT'']"

definition products_columns :: "string list" where
  "products_columns =
     [''api_id'', ''title'', ''description'', ''price'', ''discountPercentage'',
      ''rating'', ''stock'', ''brand'', ''category'', ''thumbnail'', ''images'']"

definition users_schema :: "coldef list" where
  "users_schema =
     [pk_col ''api_id'', col ''firstName'' ''TEXT'', col ''lastName'' ''TEXT'', col ''maidenName'' ''TEXT'',
      col ''age'' ''INTEGER'', col ''gender'' ''TEXT'', col ''email'' ''TEXT'', col ''phone'' ''TEXT'',
      col ''username'' ''TEXT'', col ''password'' ''TEXT'', col ''birthDate'' ''TEXT'', col ''image'' ''TEXT'',
      col ''bloodGroup'' ''TEXT'', col ''height'' ''REAL'', col ''weight'' ''REAL'', col ''eyeColor'' ''TEXT'',
      col ''hair'' ''TEXT'', col ''domain'' ''TEXT'', col ''ip'' ''TEXT'', col ''address'' ''TEXT'',
      col ''macAddress'' ''TEXT'', col ''university'' ''TEXT'', col ''bank'' ''TEXT'', col ''company'' ''TEXT'',
      col ''ein'' ''TEXT'', col ''ssn'' ''TEXT'', col ''userAgent'' ''TEXT'']"

definition users_columns :: "string list" where
  "users_columns =
     [''api_id'', ''firstName'', ''lastName'', ''maidenName'', ''age'', ''gender'', ''email'',
      ''phone'', ''username'', ''password'', ''birthDate'', ''image'', ''bloodGroup'',
      ''height'', ''weight'', ''eyeColor'', ''hair'', ''domain'', ''ip'', ''address'',
      ''macAddress'', ''university'', ''bank'', ''company'', ''ein'', ''ssn'', ''userAgent'']"

definition posts_schema :: "coldef list" where
  "posts_schema =
     [pk_col ''api_id'', col ''title'' ''TEXT'', col ''body'' ''TEXT'', col ''userId'' ''INTEGER'',
      col ''tags'' ''TEXT'', col ''reactions'' ''INTEGER'']"

definition posts_columns :: "string list" where
  "posts_columns = [''api_id'', ''title'', ''body'', ''userId'', ''tags'', ''reactions'']"

subsection \<open>From a record to its row\<close>

text \<open>\<open>x.get(k)\<close>, and \<open>json.dumps(x.get(k, d))\<close> for a flattened field.\<close>

definition get_field :: "string \<Rightarrow> json \<Rightarrow> json result" where
  "get_field k x = py_get x k JNull"

definition dumps_field :: "string \<Rightarrow> json \<Rightarrow> json \<Rightarrow> json result" where
  "dumps_field k d x = (case py_get x k d of Inl e \<Rightarrow> Inl e | Inr v \<Rightarrow> Inr (JStr (json_dumps v)))"

definition product_tuple :: "json \<Rightarrow> json list result" where
  "product_tuple product =
     map_err (\<lambda>f. f product)
       [get_field ''id'', get_field ''title'', get_field ''description'', get_field ''price'',
        get_field ''discountPercentage'', get_field ''rating'', get_field ''stock'',
        get_field ''brand'', get_field ''category'', get_field ''thumbnail'',
        dumps_field ''images'' (JArr [])]"

definition user_tuple :: "json \<Rightarrow> json list result" where
  "user_tuple user =
     (case dumps_field ''hair'' (JObj []) user of Inl e \<Rightarrow> Inl e | Inr hair_json \<Rightarrow>
      (case dumps_field ''address'' (JObj []) user of Inl e \<Rightarrow> Inl e | Inr address_json \<Rightarrow>
      (case dumps_field ''bank'' (JObj []) user of Inl e \<Rightarrow> Inl e | Inr bank_json \<Rightarrow>
      (case dumps_field ''company'' (JObj []) user of Inl e \<Rightarrow> Inl e | Inr company_json \<Rightarrow>
      map_err (\<lambda>f. f user)
        [get_field ''id'', get_field ''firstName'', get_field ''lastName'', get_field ''maidenName'',
         get_field ''age'', get_field ''gender'', get_field ''email'', get_field ''phone'',
         get_field ''username'', get_field ''password'', get_field ''birthDate'', get_field ''image'',
         get_field ''bloodGroup'', get_field ''height'', get_field ''weight'', get_field ''eyeColor'',
         \<lambda>_. Inr hair_json, get_field ''domain'', get_field ''ip'', \<lambda>_. Inr address_json,
         get_field ''macAddress'', get_field ''university'', \<lambda>_. Inr bank_json,
         \<lambda>_. Inr company_json, get_field ''ein'', get_field ''ssn'', get_field ''userAgent'']))))"

text \<open>Python's \<open>+\<close> on the numbers of a decoded value (\<open>bool\<close> counts as \<open>int\<close>; a
  \<open>float\<close> operand makes the sum a \<open>float\<close>, here exact); \<open>TypeError\<close> for any
  other operand.\<close>

fun py_num :: "json \<Rightarrow> (int \<times> int \<times> bool) option" where
  "py_num (JBool b) = Some (if b then 1 else 0, 0, False)"
| "py_num (JInt i) = Some (i, 0, False)"
| "py_num (JFloat m e) = Some (m, e, True)"
| "py_num _ = None"

definition py_add :: "json \<Rightarrow> json \<Rightarrow> json result" where
  "py_add a b =
     (case (py_num a, py_num b) of
        (Some (m1, e1, f1), Some (m2, e2, f2)) \<Rightarrow>
          (if \<not> f1 \<and> \<not> f2 then Inr (JInt (m1 + m2))
           else
             let e = min e1 e2; m = m1 * 10 ^ nat (e1 - e) + m2 * 10 ^ nat (e2 - e)
             in Inr (dec_of (m < 0) (show_nat (nat \<bar>m\<bar>)) e))
      | _ \<Rightarrow> Inl TypeError)"

text \<open>\<open>sum(values)\<close>: left to right from the start value \<open>0\<close>.\<close>

definition py_sum :: "json list \<Rightarrow> json result" where
  "py_sum xs = fold (\<lambda>x acc. case acc of Inl e \<Rightarrow> Inl e | Inr a \<Rightarrow> py_add a x) xs (Inr (JInt 0))"

text \<open>Lines 480-483: a \<open>dict\<close> of reactions becomes the sum of its values; any
  other value is kept.\<close>

definition normalize_reactions :: "json \<Rightarrow> json result" where
  "normalize_reactions reactions =
     (case reactions of JObj kvs \<Rightarrow> py_sum (map snd kvs) | _ \<Rightarrow> Inr reactions)"

definition post_tuple :: "json \<Rightarrow> json list result" where
  "post_tuple post =
     (case py_get post ''reactions'' (JInt 0) of Inl e \<Rightarrow> Inl e | Inr r0 \<Rightarrow>
      (case normalize_reactions r0 of Inl e \<Rightarrow> Inl e | Inr reactions \<Rightarrow>
      map_err (\<lambda>f. f post)
        [get_field ''id'', get_field ''title'', get_field ''body'', get_field ''userId'',
         dumps_field ''tags'' (JArr []), \<lambda>_. Inr reactions]))"

subsection \<open>The shared protocol\<close>

record entity_spec =
  es_entity :: entity
  es_table :: string
  es_schema :: "coldef list"
  es_columns :: "string list"
  es_name_field :: string
  es_row :: "json \<Rightarrow> json list result"

text \<open>The loop of step 4: a record without \<open>'id'\<close> is skipped with a warning that
  names it by \<open>es_name_field\<close> (\<open>None\<close>: the default text); any other record
  becomes a row.\<close>

fun prepare_rows :: "entity_spec \<Rightarrow> json list \<Rightarrow> world \<Rightarrow> world \<times> json list list result" where
  "prepare_rows es [] w = (w, Inr [])"
| "prepare_rows es (x # xs) w =
     (case py_contains ''id'' x of
        Inl e \<Rightarrow> (w, Inl e)
      | Inr False \<Rightarrow>
          (case py_get_opt x (es_name_field es) of
             Inl e \<Rightarrow> (w, Inl e)
           | Inr nm \<Rightarrow> prepare_rows es xs (log_add WARNING (SkipNoId (es_entity es) nm) w))
      | Inr True \<Rightarrow>
          (case es_row es x of
             Inl e \<Rightarrow> (w, Inl e)
           | Inr row \<Rightarrow>
               (case prepare_rows es xs w of
                  (w', Inl e) \<Rightarrow> (w', Inl e)
                | (w', Inr rows) \<Rightarrow> (w', Inr (row # rows)))))"

text \<open>The check \<open>not r or key not in r or not r[key]\<close>, evaluated left to right:
  \<open>Inr None\<close> when the run stops with a warning, \<open>Inr (Some list)\<close> when it goes on.\<close>

definition response_list :: "string \<Rightarrow> json option \<Rightarrow> json option result" where
  "response_list key resp =
     (case resp of
        None \<Rightarrow> Inr None
      | Some j \<Rightarrow>
          (if \<not> py_truthy j then Inr None
           else case py_contains key j of
             Inl e \<Rightarrow> Inl e
           | Inr False \<Rightarrow> Inr None
           | Inr True \<Rightarrow>
               (case py_getitem j key of
                  Inl e \<Rightarrow> Inl e
                | Inr v \<Rightarrow> (if py_truthy v then Inr (Some v) else Inr None))))"

text \<open>Steps 3 to 6, inside the \<open>try\<close>.\<close>

definition store_entity :: "entity_spec \<Rightarrow> json \<Rightarrow> world \<Rightarrow> database \<Rightarrow> world \<times> unit result" where
  "store_entity es lst w c =
     (case init_db_table w c (es_table es) (es_schema es) of
        (w1, c1, False) \<Rightarrow> (log_add ERROR (InitFailed (es_entity es)) w1, Inr ())
      | (w1, c1, True) \<Rightarrow>
          (case py_iter lst of
             Inl e \<Rightarrow> (w1, Inl e)
           | Inr items \<Rightarrow>
               (case prepare_rows es items w1 of
                  (w2, Inl e) \<Rightarrow> (w2, Inl e)
                | (w2, Inr data) \<Rightarrow>
                    (case save_data_to_db w2 c1 (es_table es) data (es_columns es) of
                       (w3, c3, Inl e) \<Rightarrow> (w3, Inl e)
                     | (w3, c3, Inr saved_count) \<Rightarrow>
                         (case py_len lst of
                            Inl e \<Rightarrow> (w3, Inl e)
                          | Inr total_count \<Rightarrow>
                              (log_add INFO
                                 (if 0 < saved_count then Finished (es_entity es) saved_count total_count
                                  else FinishedNoNew (es_entity es)) w3, Inr ()))))))"

text \<open>Steps 1 and 2 and the \<open>finally\<close>: the connection is closed and the closing
  logged on every path out of the \<open>try\<close>, the exceptional ones included.\<close>

definition process_entity ::
  "api \<Rightarrow> entity_spec \<Rightarrow> string \<Rightarrow> (string \<times> json) list \<Rightarrow> world \<Rightarrow> world \<times> unit result" where
  "process_entity api es endpoint params w =
     (case fetch_api_data api endpoint params w of
        (w1, api_response) \<Rightarrow>
          (case response_list (es_table es) api_response of
             Inl e \<Rightarrow> (w1, Inl e)
           | Inr None \<Rightarrow> (log_add WARNING (NoData (es_entity es)) w1, Inr ())
           | Inr (Some lst) \<Rightarrow>
               (case py_len lst of
                  Inl e \<Rightarrow> (w1, Inl e)
                | Inr n \<Rightarrow>
                    (case get_db_connection (log_add INFO (Found (es_entity es) n) w1) of
                       (w2, None) \<Rightarrow> (log_add ERROR ConnFailed w2, Inr ())
                     | (w2, Some conn) \<Rightarrow>
                         (case store_entity es lst w2 conn of
                            (w3, r) \<Rightarrow> (log_add INFO ConnClosed w3, r))))))"

subsection \<open>The three processors\<close>

definition DEFAULT_LIMIT :: int where "DEFAULT_LIMIT = 10"
definition DEFAULT_SKIP :: int where "DEFAULT_SKIP = 0"
definition DEFAULT_SEARCH :: string where "DEFAULT_SEARCH = ''iPhone''"

definition products_spec :: entity_spec where
  "products_spec =
     \<lparr>es_entity = Products, es_table = ''products'', es_schema = products_schema,
      es_columns = products_columns, es_name_field = ''title'', es_row = product_tuple\<rparr>"

definition users_spec :: entity_spec where
  "users_spec =
     \<lparr>es_entity = Users, es_table = ''users'', es_schema = users_schema,
      es_columns = users_columns, es_name_field = ''username'', es_row = user_tuple\<rparr>"

definition posts_spec :: entity_spec where
  "posts_spec =
     \<lparr>es_entity = Posts, es_table = ''posts'', es_schema = posts_schema,
      es_columns = posts_columns, es_name_field = ''title'', es_row = post_tuple\<rparr>"

definition process_products :: "api \<Rightarrow> string \<Rightarrow> world \<Rightarrow> world \<times> unit result" where
  "process_products api search_query w =
     process_entity api products_spec ''products/search'' [(''q'', JStr search_query)]
       (log_add INFO (StartProducts search_query) w)"

definition process_users :: "api \<Rightarrow> int \<Rightarrow> int \<Rightarrow> world \<Rightarrow> world \<times> unit result" where
  "process_users api limit skip w =
     process_entity api users_spec ''users'' [(''limit'', JInt limit), (''skip'', JInt skip)]
       (log_add INFO (StartUsers limit skip) w)"

text \<open>\<open>if user_id:\<close> is Python truthiness: \<open>None\<close> and \<open>0\<close> both select all posts.\<close>

definition process_posts :: "api \<Rightarrow> int \<Rightarrow> int \<Rightarrow> int option \<Rightarrow> world \<Rightarrow> world \<times> unit result" where
  "process_posts api limit skip user_id w =
     (let (endpoint, w1) =
        (case user_id of
           Some u \<Rightarrow>
             (if u \<noteq> 0 then (''users/'' @ show_int u @ ''/posts'', log_add INFO (StartUserPosts u limit skip) w)
              else (''posts'', log_add INFO (StartAllPosts limit skip) w))
         | None \<Rightarrow> (''posts'', log_add INFO (StartAllPosts limit skip) w))
      in process_entity api posts_spec endpoint [(''limit'', JInt limit), (''skip'', JInt skip)] w1)"

subsection \<open>Predicates used by the properties\<close>

fun is_dict :: "json \<Rightarrow> bool" where
  "is_dict (JObj kvs) = True"
| "is_dict _ = False"

fun dict_items :: "json \<Rightarrow> (string \<times> json) list" where
  "dict_items (JObj kvs) = kvs"
| "dict_items _ = []"

definition has_id :: "json \<Rightarrow> bool" where
  "has_id x \<longleftrightarrow> py_contains ''id'' x = Inr True"

text \<open>What the run-again property needs of an entity: the rowid-alias column comes
  first in the schema and in the column list, and the row of a record starts with
  the record's \<open>'id'\<close>.\<close>

definition es_ok :: "entity_spec \<Rightarrow> bool" where
  "es_ok es \<longleftrightarrow> pk_index (es_schema es) = Some 0 \<and> es_schema es \<noteq> [] \<and> es_columns es \<noteq> [] \<and>
     hd (es_columns es) = col_name (hd (es_schema es)) \<and>
     (\<forall>x row. es_row es x = Inr row \<longrightarrow> row \<noteq> [] \<and> py_get x ''id'' JNull = Inr (hd row))"

text \<open>No record of the response's entity list has \<open>"id": null\<close>.\<close>

definition ids_not_null :: "string \<Rightarrow> json option \<Rightarrow> bool" where
  "ids_not_null key resp \<longleftrightarrow>
     (case response_list key resp of
        Inr (Some lst) \<Rightarrow>
          (case py_iter lst of
             Inr items \<Rightarrow> list_all (\<lambda>x. py_get_opt x ''id'' \<noteq> Inr (Some JNull)) items
           | Inl e \<Rightarrow> True)
      | _ \<Rightarrow> True)"

text \<open>The database a run starts from: none yet, or one whose table for the entity,
  if there is one, has the entity's schema.\<close>

definition start_ok :: "entity_spec \<Rightarrow> world \<Rightarrow> bool" where
  "start_ok es w \<longleftrightarrow>
     (case db_file w of
        None \<Rightarrow> True
      | Some db \<Rightarrow> db_inv db \<and> (case map_of db (es_table es) of None \<Rightarrow> True | Some t \<Rightarrow> tcols t = es_schema es))"


abbreviation ex_items :: "json list" where
  "ex_items \<equiv> [JObj [(''id'', JInt 1), (''title'', JStr ''a'')], JObj [(''title'', JStr ''b'')]]"

abbreviation ex_wn :: world where
  "ex_wn \<equiv> \<lparr>db_file = None, writable = True, dirs = [], log = []\<rparr>"


abbreviation ex_one_api :: api where
  "ex_one_api \<equiv> \<lambda>url params. HResponse 200 ''{\"products\": [{\"id\": 1, \"title\": \"a\"}]}''"

subsection \<open>Lemmas\<close>

lemma fetch_api_data_result_indep:
  "snd (fetch_api_data api ep params w) = snd (fetch_api_data api ep params w')"
  by (simp add: fetch_api_data_def Let_def split: http_result.splits option.splits)

lemma prepare_rows_snd:
  "snd (prepare_rows es xs w) = snd (prepare_rows es xs w')"
proof (induction xs arbitrary: w w')
  case Nil
  then show ?case by simp
next
  case (Cons x xs)
  obtain a b where ab: "prepare_rows es xs w = (a, b)" by fastforce
  obtain c d where cd: "prepare_rows es xs w' = (c, d)" by fastforce
  have "b = d" using Cons.IH [of w w'] ab cd by simp
  then show ?case
    using Cons.IH [of "log_add WARNING _ w" "log_add WARNING _ w'"] ab cd
    by (simp split: sum.split bool.split)
qed

lemma prepare_rows_fst:
  "fst (prepare_rows es xs w) = w\<lparr>log := log (fst (prepare_rows es xs w))\<rparr>"
proof (induction xs arbitrary: w)
  case Nil
  then show ?case by simp
next
  case (Cons x xs)
  obtain a b where ab: "prepare_rows es xs w = (a, b)" by fastforce
  have a: "a = w\<lparr>log := log a\<rparr>" using Cons.IH [of w] ab by simp
  show ?case
  proof (cases "py_contains ''id'' x")
    case (Inr c)
    show ?thesis
    proof (cases c)
      case False
      then show ?thesis
        using Inr Cons.IH [of "log_add WARNING _ w"]
        by (simp add: log_add_def split: sum.split)
    next
      case True
      then show ?thesis
        using Inr a ab by (simp split: sum.split)
    qed
  qed simp
qed

lemma prepare_rows_frame:
  "prepare_rows es xs w = (w', r) \<Longrightarrow>
   db_file w' = db_file w \<and> writable w' = writable w \<and> dirs w' = dirs w"
  by (metis fst_conv prepare_rows_fst world.select_convs(1-3) world.surjective world.update_convs(4))



text \<open>C8. On a list of records (dicts), the loop of step 4 computes exactly the
  rows of the records that carry \<open>'id'\<close>, in order: the records without one
  are left out and change nothing else.\<close>

theorem prepare_rows_eq:
  "list_all is_dict xs \<Longrightarrow> snd (prepare_rows es xs w) = map_err (es_row es) (filter has_id xs)"
proof (induction xs arbitrary: w)
  case Nil
  then show ?case by simp
next
  case (Cons x xs)
  from Cons.prems obtain kvs where x: "x = JObj kvs" by (cases x) auto
  from Cons.prems have xs: "list_all is_dict xs" by simp
  show ?case
  proof (cases "has_id x")
    case False
    then have "py_contains ''id'' x = Inr False" by (simp add: has_id_def x)
    with False Cons.IH [OF xs] show ?thesis by (simp add: x)
  next
    case True
    then have c: "py_contains ''id'' x = Inr True" by (simp add: has_id_def)
    show ?thesis
    proof (cases "es_row es x")
      case (Inl e)
      with c True show ?thesis by simp
    next
      case (Inr row)
      obtain w' r where p: "prepare_rows es xs w = (w', r)" by fastforce
      have "r = map_err (es_row es) (filter has_id xs)" using Cons.IH [OF xs, of w] p by simp
      with c True Inr p show ?thesis by (simp split: sum.split)
    qed
  qed
qed

theorem prepare_rows_eq_witness:
  "list_all is_dict ex_items \<and>
   snd (prepare_rows products_spec ex_items ex_wn) = map_err product_tuple [JObj [(''id'', JInt 1), (''title'', JStr ''a'')]]"
  using prepare_rows_eq [of ex_items products_spec ex_wn] by (simp add: has_id_def products_spec_def)

lemma py_sum_ints:
  "fold (\<lambda>x acc. case acc of Inl e \<Rightarrow> Inl e | Inr a \<Rightarrow> py_add a x) (map JInt ns) (Inr (JInt a)) =
   Inr (JInt (a + sum_list ns))"
  by (induction ns arbitrary: a) (simp_all add: py_add_def add.assoc)

text \<open>C9. Every record the loop skips leaves exactly one warning, in order, naming
  the record by its name field (\<open>None\<close> when it has none); when the loop completes
  it yields one row per record that carries \<open>'id'\<close>.\<close>

theorem prepare_rows_skip_warnings:
  assumes "list_all is_dict xs" and "prepare_rows es xs w = (w', Inr rows)"
  shows "log w' = log w @ map (\<lambda>x. (WARNING, SkipNoId (es_entity es) (map_of (dict_items x) (es_name_field es))))
                              (filter (\<lambda>x. \<not> has_id x) xs) \<and>
         length rows = length (filter has_id xs)"
  using assms
proof (induction xs arbitrary: w w' rows)
  case Nil
  then show ?case by simp
next
  case (Cons x xs)
  from Cons.prems obtain kvs where x: "x = JObj kvs" by (cases x) auto
  show ?case
  proof (cases "has_id x")
    case False
    then have "py_contains ''id'' x = Inr False" by (simp add: has_id_def x)
    with False Cons.prems Cons.IH show ?thesis by (simp add: x)
  next
    case True
    then have c: "py_contains ''id'' x = Inr True" by (simp add: has_id_def)
    with Cons.prems obtain row rows' where
      "es_row es x = Inr row" "prepare_rows es xs w = (w', Inr rows')" "rows = row # rows'"
      by (auto split: sum.splits prod.splits)
    with True Cons.prems Cons.IH show ?thesis by simp
  qed
qed

theorem prepare_rows_skip_warnings_witness:
  "\<exists>rows. list_all is_dict ex_items \<and>
     prepare_rows products_spec ex_items ex_wn = (log_add WARNING (SkipNoId Products (Some (JStr ''b''))) ex_wn, Inr rows) \<and>
     log (log_add WARNING (SkipNoId Products (Some (JStr ''b''))) ex_wn) =
       [(WARNING, SkipNoId Products (Some (JStr ''b'')))] \<and> length rows = 1"
proof -
  obtain rows where p:
    "prepare_rows products_spec ex_items ex_wn = (log_add WARNING (SkipNoId Products (Some (JStr ''b''))) ex_wn, Inr rows)"
    by (simp add: products_spec_def product_tuple_def get_field_def dumps_field_def)
  show ?thesis
    using prepare_rows_skip_warnings [OF _ p] p by (simp add: has_id_def)
qed

text \<open>C10. A \<open>reactions\<close> breakdown whose values are integers is stored as their
  sum: \<open>{likes: 5, dislikes: 2}\<close> becomes 7.\<close>

theorem normalize_reactions_sum:
  "map snd kvs = map JInt ns \<Longrightarrow> normalize_reactions (JObj kvs) = Inr (JInt (sum_list ns))"
  using py_sum_ints [of ns 0] by (simp add: normalize_reactions_def py_sum_def)

theorem normalize_reactions_sum_witness:
  "map snd [(''likes'', JInt 5), (''dislikes'', JInt 2)] = map JInt [5, 2] \<and>
   normalize_reactions (JObj [(''likes'', JInt 5), (''dislikes'', JInt 2)]) = Inr (JInt 7)"
  using normalize_reactions_sum [of "[(''likes'', JInt 5), (''dislikes'', JInt 2)]" "[5, 2]"] by simp

text \<open>C11. A post whose \<open>reactions\<close> field is absent is stored with reaction count
  0; one whose field is not an object (a bare integer 7) is stored unchanged. The
  row never fails to be built in these cases and has the six columns of the
  posts table.\<close>

theorem post_tuple_reactions_scalar:
  assumes "\<forall>kvs'. map_of kvs ''reactions'' \<noteq> Some (JObj kvs')"
  shows "\<exists>row. post_tuple (JObj kvs) = Inr row \<and> length row = length posts_columns \<and>
               last row = (case map_of kvs ''reactions'' of None \<Rightarrow> JInt 0 | Some v \<Rightarrow> v)"
proof -
  have "normalize_reactions (case map_of kvs ''reactions'' of None \<Rightarrow> JInt 0 | Some v \<Rightarrow> v) =
        Inr (case map_of kvs ''reactions'' of None \<Rightarrow> JInt 0 | Some v \<Rightarrow> v)"
    using assms by (auto simp: normalize_reactions_def split: option.split json.split)
  then show ?thesis
    by (simp add: post_tuple_def get_field_def dumps_field_def posts_columns_def split: option.split)
qed

theorem post_tuple_reactions_scalar_witness:
  "(\<forall>kvs'. map_of [(''id'', JInt 1), (''reactions'', JInt 7)] ''reactions'' \<noteq> Some (JObj kvs')) \<and>
   (\<exists>row. post_tuple (JObj [(''id'', JInt 1), (''reactions'', JInt 7)]) = Inr row \<and>
          length row = length posts_columns \<and> last row = JInt 7)"
  using post_tuple_reactions_scalar [of "[(''id'', JInt 1), (''reactions'', JInt 7)]"] by simp


lemma map_err_Cons_Inr:
  "map_err f (a # as) = Inr ys \<Longrightarrow> \<exists>y ys'. f a = Inr y \<and> ys = y # ys'"
  by (auto split: sum.splits)

lemma map_err_first:
  assumes "map_err (\<lambda>f. f x) (g # gs) = Inr row"
  shows "row \<noteq> [] \<and> g x = Inr (hd row)"
  using map_err_Cons_Inr [OF assms] by auto

lemma product_tuple_id:
  "product_tuple x = Inr row \<Longrightarrow> row \<noteq> [] \<and> py_get x ''id'' JNull = Inr (hd row)"
  unfolding product_tuple_def by (drule map_err_first) (simp add: get_field_def)

lemma user_tuple_id:
  "user_tuple x = Inr row \<Longrightarrow> row \<noteq> [] \<and> py_get x ''id'' JNull = Inr (hd row)"
  unfolding user_tuple_def
  by (auto split: sum.splits dest!: map_err_first simp del: map_err.simps) (simp_all add: get_field_def)

lemma post_tuple_id:
  "post_tuple x = Inr row \<Longrightarrow> row \<noteq> [] \<and> py_get x ''id'' JNull = Inr (hd row)"
  unfolding post_tuple_def
  by (auto split: sum.splits dest!: map_err_first simp del: map_err.simps) (simp_all add: get_field_def)

lemma es_ok_specs:
  "es \<in> set [products_spec, users_spec, posts_spec] \<Longrightarrow> es_ok es"
proof -
  have "es_ok products_spec"
    unfolding es_ok_def products_spec_def
    by (simp add: products_schema_def products_columns_def pk_col_def) (blast dest: product_tuple_id)
  moreover have "es_ok users_spec"
    unfolding es_ok_def users_spec_def
    by (simp add: users_schema_def users_columns_def pk_col_def) (blast dest: user_tuple_id)
  moreover have "es_ok posts_spec"
    unfolding es_ok_def posts_spec_def
    by (simp add: posts_schema_def posts_columns_def pk_col_def) (blast dest: post_tuple_id)
  ultimately show "es \<in> set [products_spec, users_spec, posts_spec] \<Longrightarrow> es_ok es" by auto
qed

lemma keyed_first:
  "pk_index cs = Some 0 \<Longrightarrow> cs \<noteq> [] \<Longrightarrow> cols \<noteq> [] \<Longrightarrow> hd cols = col_name (hd cs) \<Longrightarrow>
   ps \<noteq> [] \<Longrightarrow> hd ps \<noteq> JNull \<Longrightarrow> keyed cs cols ps"
  by (cases cs; cases cols; cases ps) (auto simp: keyed_def)

lemma prepare_rows_keyed:
  assumes es: "es_ok es"
  shows "list_all (\<lambda>x. py_get_opt x ''id'' \<noteq> Inr (Some JNull)) xs \<Longrightarrow> snd (prepare_rows es xs w) = Inr data \<Longrightarrow>
         list_all (keyed (es_schema es) (es_columns es)) data"
proof (induction xs arbitrary: w data)
  case Nil
  then show ?case by simp
next
  case (Cons x xs)
  show ?case
  proof (cases "py_contains ''id'' x")
    case (Inl e)
    with Cons.prems show ?thesis by simp
  next
    case (Inr b)
    show ?thesis
    proof (cases b)
      case False
      with Inr Cons.prems Cons.IH show ?thesis by (auto split: sum.splits)
    next
      case True
      obtain w' r where p: "prepare_rows es xs w = (w', r)" by fastforce
      with True Inr Cons.prems obtain row rows where r: "es_row es x = Inr row"
        and rs: "r = Inr rows" and d: "data = row # rows"
        by (auto split: sum.splits)
      from es r have ne: "row \<noteq> []" and g: "py_get x ''id'' JNull = Inr (hd row)"
        by (auto simp: es_ok_def)
      from g obtain kvs where x: "x = JObj kvs" by (cases x) auto
      with True Inr have "map_of kvs ''id'' \<noteq> None" by (simp add: map_of_eq_None_iff)
      with g x Cons.prems have "hd row \<noteq> JNull" by (auto split: option.splits)
      with es ne have "keyed (es_schema es) (es_columns es) row"
        by (intro keyed_first) (auto simp: es_ok_def)
      moreover have "list_all (keyed (es_schema es) (es_columns es)) rows"
        using Cons.IH [of w rows] Cons.prems p rs by simp
      ultimately show ?thesis by (simp add: d)
    qed
  qed
qed

lemma store_entity_Inr_cases:
  assumes "store_entity es lst w c = (w1, Inr ())"
  obtains (init_failed) wi where "init_db_table w c (es_table es) (es_schema es) = (wi, c, False)"
      "w1 = log_add ERROR (InitFailed (es_entity es)) wi"
  | (saved) wi ci items wp data ws cs cnt tot where
      "init_db_table w c (es_table es) (es_schema es) = (wi, ci, True)" "py_iter lst = Inr items"
      "prepare_rows es items wi = (wp, Inr data)"
      "save_data_to_db wp ci (es_table es) data (es_columns es) = (ws, cs, Inr cnt)" "py_len lst = Inr tot"
      "w1 = log_add INFO (if 0 < cnt then Finished (es_entity es) cnt tot else FinishedNoNew (es_entity es)) ws"
proof -
  obtain wi ci b where i: "init_db_table w c (es_table es) (es_schema es) = (wi, ci, b)" by (metis prod.exhaust)
  show thesis
  proof (cases b)
    case False
    from i have "ci = c" by (cases rule: init_db_table_cases) (use False in simp_all)
    with False i assms show thesis by (intro that(1) [of wi]) (simp_all add: store_entity_def)
  next
    case True
    with i assms show thesis
      by (auto simp: store_entity_def split: sum.splits prod.splits intro: that(2))
  qed
qed

lemma save_data_to_db_table_exists:
  "save_data_to_db w c name data cols = (w', c', r) \<Longrightarrow> table_exists c name \<Longrightarrow> table_exists c' name"
  by (erule save_data_to_db_cases)
     (auto simp: insert_many_def table_exists_def dom_update split: option.splits if_splits sum.splits)

lemma init_db_table_True:
  assumes i: "init_db_table w c name s = (wi, ci, True)" and inv: "db_inv c"
    and conn: "conn_ok w c" and sch: "case map_of c name of None \<Rightarrow> True | Some t \<Rightarrow> tcols t = s"
  shows "conn_ok wi ci \<and> table_exists ci name \<and> writable wi = writable w \<and>
         (\<exists>t. map_of ci name = Some t \<and> tcols t = s)"
  using i
proof (cases rule: init_db_table_cases)
  case exists
  with conn sch show ?thesis by (auto simp: table_exists_def conn_ok_def map_of_eq_None_iff split: option.splits)
next
  case created
  then have "db_inv ci" using create_table_inv [OF inv] by blast
  moreover have "map_of c name = None" using created(1) by (simp add: table_exists_def map_of_eq_None_iff)
  ultimately show ?thesis using created
    by (auto simp: conn_ok_def create_table_def table_exists_def map_add_def split: if_splits)
qed simp

lemma store_entity_again:
  assumes es: "es_ok es" and inv: "db_inv c"
    and sch: "case map_of c (es_table es) of None \<Rightarrow> True | Some t \<Rightarrow> tcols t = es_schema es"
    and conn: "conn_ok w c"
    and ids: "\<forall>items. py_iter lst = Inr items \<longrightarrow> list_all (\<lambda>x. py_get_opt x ''id'' \<noteq> Inr (Some JNull)) items"
    and run: "store_entity es lst w c = (w1, Inr ())"
    and c1: "db_file w1 = Some c1" and wr: "writable w' = writable w" and c1': "db_file w' = Some c1"
  shows "\<exists>w2. store_entity es lst w' c1 = (w2, Inr ()) \<and> db_file w2 = db_file w'"
  using run
proof (cases rule: store_entity_Inr_cases)
  case (init_failed wi)
  from init_failed(1) obtain e where ne: "\<not> table_exists c (es_table es)"
    and ct: "create_table (writable w) c (es_table es) (es_schema es) = Inl e" and dbi: "db_file wi = db_file w"
    by (cases rule: init_db_table_cases) auto
  have "c1 = c" using c1 conn dbi init_failed(2) by (simp add: conn_ok_def)
  then show ?thesis using ne ct wr by (simp add: store_entity_def init_db_table_def Let_def)
next
  case (saved wi ci items wp data ws cs cnt tot)
  from init_db_table_True [OF saved(1) inv conn sch] obtain t where
    ci: "conn_ok wi ci" "table_exists ci (es_table es)" "writable wi = writable w"
    and t: "map_of ci (es_table es) = Some t" "tcols t = es_schema es"
    by blast
  have pf: "db_file wp = db_file wi" "writable wp = writable wi"
    using prepare_rows_frame [OF saved(3)] by simp_all
  have "list_all (keyed (es_schema es) (es_columns es)) data"
    using prepare_rows_keyed [OF es, of items wi data] ids saved(2,3) by simp
  with t have key: "batch_keyed ci (es_table es) (es_columns es) data" by (simp add: batch_keyed_def)
  have "conn_ok ws cs"
    using save_data_to_db_conn_ok [OF _ saved(4)] ci(1) pf by (simp add: conn_ok_def)
  with saved(6) c1 have cs: "cs = c1" by (simp add: conn_ok_def)
  have ex: "table_exists c1 (es_table es)"
    using save_data_to_db_table_exists [OF saved(4) ci(2)] cs by simp
  obtain wp' where p': "prepare_rows es items (log_add INFO (TableExists (es_table es)) w') = (wp', Inr data)"
    using prepare_rows_snd [of es items wi "log_add INFO (TableExists (es_table es)) w'"] saved(3)
    by (metis prod.collapse snd_conv)
  have pf': "db_file wp' = db_file w'" "writable wp' = writable w'"
    using prepare_rows_frame [OF p'] by simp_all
  obtain w2 where s2: "save_data_to_db wp' c1 (es_table es) data (es_columns es) = (w2, c1, Inr 0)"
    and d2: "db_file w2 = db_file wp'"
    using save_data_to_db_again [OF ci(1) [unfolded conn_ok_def, THEN conjunct2] key saved(4)[unfolded cs]]
      pf pf' wr ci(3) c1' by auto
  show ?thesis
    using ex saved(2,5) p' s2 d2 pf' by (simp add: store_entity_def init_db_table_def)
qed

lemma store_entity_Inr_conn:
  assumes conn: "conn_ok w c" and run: "store_entity es lst w c = (w', Inr ())"
  shows "(\<exists>c'. conn_ok w' c') \<and> writable w' = writable w"
  using run
proof (cases rule: store_entity_Inr_cases)
  case (init_failed wi)
  have "conn_ok wi c" using init_db_table_conn_ok [OF conn init_failed(1)] .
  moreover from init_failed(1) have "writable wi = writable w" by (cases rule: init_db_table_cases) simp_all
  ultimately show ?thesis using init_failed(2) by (auto simp: conn_ok_def)
next
  case (saved wi ci items wp data ws cs cnt tot)
  have "conn_ok wi ci" using init_db_table_conn_ok [OF conn saved(1)] .
  moreover have "writable wi = writable w" using saved(1) by (cases rule: init_db_table_cases) simp_all
  moreover have "db_file wp = db_file wi" "writable wp = writable wi"
    using prepare_rows_frame [OF saved(3)] by simp_all
  ultimately have "conn_ok wp ci" "writable wp = writable w" by (simp_all add: conn_ok_def)
  with save_data_to_db_conn_ok [OF this(1) saved(4)] save_data_to_db_writable [OF saved(4)] saved(6)
  show ?thesis by (auto simp: conn_ok_def)
qed

lemma get_db_connection_start_ok:
  assumes "start_ok es w" "db_file v = db_file w" "writable v = writable w"
    and "get_db_connection v = (wc, Some c)"
  shows "conn_ok wc c \<and> writable wc = writable w"
    and "case map_of c (es_table es) of None \<Rightarrow> True | Some t \<Rightarrow> tcols t = es_schema es"
proof -
  show "conn_ok wc c \<and> writable wc = writable w"
    using assms by (auto simp: get_db_connection_eq start_ok_def conn_ok_def db_inv_def split: option.splits if_splits)
  show "case map_of c (es_table es) of None \<Rightarrow> True | Some t \<Rightarrow> tcols t = es_schema es"
    using assms by (auto simp: get_db_connection_eq start_ok_def split: option.splits if_splits)
qed

lemma store_entity_reconnect:
  assumes eok: "es_ok es" and start: "start_ok es w"
    and ff: "db_file v = db_file w" "writable v = writable w"
    and gc: "get_db_connection v = (wc, Some c)"
    and ids': "\<forall>items. py_iter lst = Inr items \<longrightarrow> list_all (\<lambda>x. py_get_opt x ''id'' \<noteq> Inr (Some JNull)) items"
    and st: "store_entity es lst wc c = (w3, Inr ())"
    and ff': "db_file v' = db_file w3" "writable v' = writable w3"
  shows "\<exists>c3 w4. get_db_connection v' = (log_add INFO (DbConnected DB_NAME) v', Some c3) \<and>
           store_entity es lst (log_add INFO (DbConnected DB_NAME) v') c3 = (w4, Inr ()) \<and> db_file w4 = db_file v'"
proof -
  note gs = get_db_connection_start_ok [OF start ff gc]
  then have cok: "conn_ok wc c" and wcw: "writable wc = writable w" by simp_all
  obtain c3 where c3: "conn_ok w3 c3" and w3w: "writable w3 = writable wc"
    using store_entity_Inr_conn [OF cok st] by blast
  have gc': "get_db_connection v' = (log_add INFO (DbConnected DB_NAME) v', Some c3)"
    using c3 ff' by (simp add: get_db_connection_eq conn_ok_def)
  obtain w4 where "store_entity es lst (log_add INFO (DbConnected DB_NAME) v') c3 = (w4, Inr ())"
      "db_file w4 = db_file (log_add INFO (DbConnected DB_NAME) v')"
    using store_entity_again [OF eok _ gs(2) cok ids' st, of c3 "log_add INFO (DbConnected DB_NAME) v'"] cok c3 ff' w3w wcw
    by (auto simp: conn_ok_def)
  then show ?thesis using gc' by auto
qed

text \<open>C13. Running a processor again against the same upstream answer, right after
  a run that returned normally, leaves the database file as the first run left it,
  provided every record's \<open>id\<close> is non-null and the entity's table, if it existed
  before the first run, had the processor's schema (spec: idempotence of re-runs).\<close>

theorem process_entity_rerun:
  assumes es: "es \<in> set [products_spec, users_spec, posts_spec]"
    and start: "start_ok es w"
    and ids: "ids_not_null (es_table es) (snd (fetch_api_data api endpoint params w))"
    and run: "process_entity api es endpoint params w = (w1, Inr ())"
  shows "\<exists>w2. process_entity api es endpoint params w1 = (w2, Inr ()) \<and> db_file w2 = db_file w1"
proof -
  have eok: "es_ok es" using es by (rule es_ok_specs)
  obtain wf resp where f: "fetch_api_data api endpoint params w = (wf, resp)" by fastforce
  obtain wf' where f': "fetch_api_data api endpoint params w1 = (wf', resp)"
    using fetch_api_data_result_indep [of api endpoint params w1 w] f by (metis prod.collapse snd_conv)
  have ff: "db_file wf = db_file w" "writable wf = writable w" using fetch_api_data_frame [OF f] by simp_all
  have ff': "db_file wf' = db_file w1" "writable wf' = writable w1" using fetch_api_data_frame [OF f'] by simp_all
  show ?thesis
  proof (cases "response_list (es_table es) resp")
    case (Inl e)
    with run f show ?thesis by (simp add: process_entity_def)
  next
    case (Inr opt)
    show ?thesis
    proof (cases opt)
      case None
      with Inr f' ff' show ?thesis by (simp add: process_entity_def)
    next
      case (Some lst)
      from run f Inr Some obtain n where n: "py_len lst = Inr n"
        by (auto simp: process_entity_def split: sum.splits)
      have ids': "\<forall>items. py_iter lst = Inr items \<longrightarrow> list_all (\<lambda>x. py_get_opt x ''id'' \<noteq> Inr (Some JNull)) items"
        using ids f Inr Some by (auto simp: ids_not_null_def)
      show ?thesis
      proof (cases "db_file w = None \<and> \<not> writable w")
        case True
        with run f Inr Some n ff have "db_file w1 = None" "\<not> writable w1"
          by (auto simp: process_entity_def get_db_connection_eq)
        with f' Inr Some n ff' show ?thesis
          by (simp add: process_entity_def get_db_connection_eq)
      next
        case False
        obtain c wc where gc: "get_db_connection (log_add INFO (Found (es_entity es) n) wf) = (wc, Some c)"
          using False ff by (cases "db_file w") (auto simp: get_db_connection_eq)
        obtain w3 where st: "store_entity es lst wc c = (w3, Inr ())" and w1: "w1 = log_add INFO ConnClosed w3"
          using run f Inr Some n gc by (auto simp: process_entity_def split: prod.splits)
        obtain c3 w4 where
          gc': "get_db_connection (log_add INFO (Found (es_entity es) n) wf') =
                (log_add INFO (DbConnected DB_NAME) (log_add INFO (Found (es_entity es) n) wf'), Some c3)"
          and st': "store_entity es lst (log_add INFO (DbConnected DB_NAME) (log_add INFO (Found (es_entity es) n) wf')) c3 = (w4, Inr ())"
          and d4: "db_file w4 = db_file wf'"
          using store_entity_reconnect [OF eok start _ _ gc ids' st, of "log_add INFO (Found (es_entity es) n) wf'"] ff ff' w1
          by auto
        show ?thesis
          using f' Inr Some n gc' st' d4 ff' by (simp add: process_entity_def)
      qed
    qed
  qed
qed

lemma prepare_rows_conn_trace [simp]:
  "conn_trace (log (fst (prepare_rows es xs w))) = conn_trace (log w)"
  by (induction es xs w rule: prepare_rows.induct)
     (simp_all add: prod.case_eq_if split: sum.split bool.split)

lemma store_entity_conn_trace [simp]:
  "conn_trace (log (fst (store_entity es lst w c))) = conn_trace (log w)"
  by (simp add: store_entity_def prod.case_eq_if split: sum.split bool.split)

text \<open>The \<open>finally\<close> clause: a processor that opens the database closes it on every
  path out of the \<open>try\<close>, and one that does not open it logs no closing.\<close>

lemma process_entity_conn_trace:
  "conn_trace (log (fst (process_entity api es endpoint params w))) \<in>
     {conn_trace (log w), conn_trace (log w) @ [DbConnected DB_NAME, ConnClosed]}"
proof -
  let ?w1 = "fst (fetch_api_data api endpoint params w)"
  have g: "conn_trace (log (fst (get_db_connection v))) =
           conn_trace (log v) @ (case snd (get_db_connection v) of None \<Rightarrow> [] | Some c \<Rightarrow> [DbConnected DB_NAME])"
    for v by (rule get_db_connection_conn_trace)
  show ?thesis
    by (simp add: process_entity_def prod.case_eq_if g split: sum.split option.split)
qed

lemma process_entity_log_add_conn_trace [simp]:
  "\<not> conn_event ev \<Longrightarrow> conn_trace (log (fst (process_entity api es endpoint params (log_add lv ev w)))) \<in>
     {conn_trace (log w), conn_trace (log w) @ [DbConnected DB_NAME, ConnClosed]}"
  using process_entity_conn_trace [of api es endpoint params "log_add lv ev w"] by simp

lemma process_entities_conn_trace:
  "conn_trace (log (fst (process_products api q w))) \<in>
     {conn_trace (log w), conn_trace (log w) @ [DbConnected DB_NAME, ConnClosed]}"
  "conn_trace (log (fst (process_users api l s w))) \<in>
     {conn_trace (log w), conn_trace (log w) @ [DbConnected DB_NAME, ConnClosed]}"
  "conn_trace (log (fst (process_posts api l s u w))) \<in>
     {conn_trace (log w), conn_trace (log w) @ [DbConnected DB_NAME, ConnClosed]}"
  by (simp_all add: process_products_def process_users_def process_posts_def Let_def
      del: insert_iff split: option.split)

text \<open>Without a database file and without the right to create one, \<open>sqlite3.connect\<close>
  fails: a processor opens no connection and the file stays absent.\<close>

lemma process_entity_readonly:
  assumes "db_file w = None" "\<not> writable w"
  shows "db_file (fst (process_entity api es endpoint params w)) = None \<and>
         \<not> writable (fst (process_entity api es endpoint params w)) \<and>
         conn_trace (log (fst (process_entity api es endpoint params w))) = conn_trace (log w)"
proof -
  obtain wf r where f: "fetch_api_data api endpoint params w = (wf, r)" by fastforce
  have "db_file wf = None" "\<not> writable wf" "conn_trace (log wf) = conn_trace (log w)"
    using fetch_api_data_frame [OF f] fetch_api_data_conn_trace [of api endpoint params w] f assms by auto
  then show ?thesis using f
    by (simp add: process_entity_def get_db_connection_def split: sum.split option.split)
qed

lemma process_entities_readonly:
  assumes "db_file w = None" "\<not> writable w"
  shows "db_file (fst (process_products api q w)) = None \<and> \<not> writable (fst (process_products api q w)) \<and>
         conn_trace (log (fst (process_products api q w))) = conn_trace (log w)"
    and "db_file (fst (process_users api l s w)) = None \<and> \<not> writable (fst (process_users api l s w)) \<and>
         conn_trace (log (fst (process_users api l s w))) = conn_trace (log w)"
    and "db_file (fst (process_posts api l s u w)) = None \<and> \<not> writable (fst (process_posts api l s u w)) \<and>
         conn_trace (log (fst (process_posts api l s u w))) = conn_trace (log w)"
  using assms process_entity_readonly [of "log_add INFO _ w"]
  by (simp_all add: process_products_def process_users_def process_posts_def Let_def split: option.split)

lemma ex_prepare_one: "prepare_rows products_spec [JObj [(''id'', JInt 1), (''title'', JStr ''a'')]] w = (w, Inr [[JInt 1, JStr ''a'', JNull, JNull, JNull, JNull, JNull, JNull, JNull, JNull, JStr ''[]'']])"
  by (simp add: products_spec_def product_tuple_def get_field_def dumps_field_def)

lemma ex_init_products: "init_db_table w [] ''products'' products_schema = (log_add INFO (TableCreated ''products'') (log_add INFO (TableMissing ''products'') w)\<lparr>db_file := Some [(''products'', \<lparr>tcols = products_schema, trows = []\<rparr>)]\<rparr>, [(''products'', \<lparr>tcols = products_schema, trows = []\<rparr>)], True)" if "writable w"
  using that by (simp add: init_db_table_def table_exists_def create_table_def log_add_def)

lemma ex_insert_one: "\<exists>c n. insert_many True [(''products'', \<lparr>tcols = products_schema, trows = []\<rparr>)] ''products'' products_columns [[JInt 1, JStr ''a'', JNull, JNull, JNull, JNull, JNull, JNull, JNull, JNull, JStr ''[]'']] = Inr (c, n)"
  by (simp add: products_schema_def products_columns_def pk_col_def col_def db_simps)

lemma ex_store_one: "\<exists>w3. store_entity products_spec (JArr [JObj [(''id'', JInt 1), (''title'', JStr ''a'')]]) w [] = (w3, Inr ())" if "writable w"
proof -
  obtain c n where i: "insert_many True [(''products'', \<lparr>tcols = products_schema, trows = []\<rparr>)] ''products'' products_columns [[JInt 1, JStr ''a'', JNull, JNull, JNull, JNull, JNull, JNull, JNull, JNull, JStr ''[]'']] = Inr (c, n)"
    using ex_insert_one by blast
  have e: "es_table products_spec = ''products''" "es_schema products_spec = products_schema"
    "es_columns products_spec = products_columns" by (simp_all add: products_spec_def)
  show ?thesis
    by (simp add: store_entity_def save_data_to_db_nonempty e ex_init_products [OF that] ex_prepare_one i that del: prepare_rows.simps)
qed

theorem process_entity_rerun_witness:
  "\<exists>w1. products_spec \<in> set [products_spec, users_spec, posts_spec] \<and> start_ok products_spec ex_wn \<and>
     ids_not_null (es_table products_spec) (snd (fetch_api_data ex_one_api ''products/search'' [] ex_wn)) \<and>
     process_entity ex_one_api products_spec ''products/search'' [] ex_wn = (w1, Inr ()) \<and>
     (\<exists>w2. process_entity ex_one_api products_spec ''products/search'' [] w1 = (w2, Inr ()) \<and>
           db_file w2 = db_file w1)"
proof -
  have fs: "snd (fetch_api_data ex_one_api ''products/search'' [] ex_wn) =
     Some (JObj [(''products'', JArr [JObj [(''id'', JInt 1), (''title'', JStr ''a'')]])])"
    by (simp add: fetch_api_data_def Let_def http_error_status_def) code_simp
  then obtain wf where f: "fetch_api_data ex_one_api ''products/search'' [] ex_wn =
     (wf, Some (JObj [(''products'', JArr [JObj [(''id'', JInt 1), (''title'', JStr ''a'')]])]))"
    by (metis prod.collapse)
  have wf: "db_file wf = None" "writable wf" using fetch_api_data_frame [OF f] by simp_all
  have e: "es_table products_spec = ''products''" by (simp add: products_spec_def)
  have s: "start_ok products_spec ex_wn" by (simp add: start_ok_def)
  have i: "ids_not_null (es_table products_spec) (snd (fetch_api_data ex_one_api ''products/search'' [] ex_wn))"
    by (simp add: f ids_not_null_def response_list_def e)
  obtain w3 where st: "store_entity products_spec (JArr [JObj [(''id'', JInt 1), (''title'', JStr ''a'')]])
      (log_add INFO (DbConnected DB_NAME) ((log_add INFO (Found (es_entity products_spec) 1) wf)\<lparr>db_file := Some []\<rparr>)) [] = (w3, Inr ())"
    using ex_store_one [of "log_add INFO (DbConnected DB_NAME) ((log_add INFO (Found (es_entity products_spec) 1) wf)\<lparr>db_file := Some []\<rparr>)"] wf
    by auto
  have r: "process_entity ex_one_api products_spec ''products/search'' [] ex_wn = (log_add INFO ConnClosed w3, Inr ())"
    using st wf by (simp add: process_entity_def f response_list_def e get_db_connection_eq)
  show ?thesis
    using process_entity_rerun [OF _ s i r] s i r by auto
qed

end
