(* ===== verification/Pipeline.thy ===== *)
theory Pipeline
  imports Processor
begin

text \<open>
  The entry point of src/processor.py (\<open>if __name__ == "__main__"\<close>): the
  optional \<open>--clean\<close> removal of the database file, then the three processors in
  order, an escaping exception ending the run. The lemmas show that a processor
  touches no table but its own, and that a re-run of a processor leaves the
  database as it is when its own table is as the first run left it; from them,
  the idempotence of the whole pipeline.
\<close>

text \<open>The lines \<open>__main__\<close> prints (standard output, not the log): the
  removal of the database or its failure, the start, the end and the hint to run
  the inspector. The Russian text of each line is its constructor.\<close>

datatype main_line = DbRemoved string | RemoveFailed | StartProcessing | ProcessingDone | ViewHint

text \<open>\<open>--clean\<close> as the first argument removes an existing database file;
  \<open>os.remove\<close> needs write access to the directory, else it raises \<open>OSError\<close>,
  which is printed.\<close>

definition clean_db :: "string list \<Rightarrow> world \<Rightarrow> world \<times> main_line list" where
  "clean_db argv w =
     (if 1 < length argv \<and> argv ! 1 = ''--clean'' \<and> db_file w \<noteq> None then
        (if writable w then (w\<lparr>db_file := None\<rparr>, [DbRemoved DB_NAME]) else (w, [RemoveFailed]))
      else (w, []))"

text \<open>The three processors with the fixed arguments of \<open>__main__\<close>; an exception
  escaping one of them ends the process before the next one runs.\<close>

definition processor_main :: "api \<Rightarrow> string list \<Rightarrow> world \<Rightarrow> world \<times> main_line list \<times> unit result" where
  "processor_main api argv w =
     (case clean_db argv w of
        (w1, out1) \<Rightarrow>
          (let out2 = out1 @ [StartProcessing] in
           case process_products api DEFAULT_SEARCH w1 of
             (w2, Inl e) \<Rightarrow> (w2, out2, Inl e)
           | (w2, Inr _) \<Rightarrow>
               (case process_users api 20 DEFAULT_SKIP w2 of
                  (w3, Inl e) \<Rightarrow> (w3, out2, Inl e)
                | (w3, Inr _) \<Rightarrow>
                    (case process_posts api 30 DEFAULT_SKIP None w3 of
                       (w4, Inl e) \<Rightarrow> (w4, out2, Inl e)
                     | (w4, Inr _) \<Rightarrow> (w4, out2 @ [ProcessingDone, ViewHint], Inr ())))))"

definition table_of :: "world \<Rightarrow> string \<Rightarrow> table option" where
  "table_of w name = (case db_file w of None \<Rightarrow> None | Some c \<Rightarrow> map_of c name)"


subsection \<open>Lemmas: the database outside one table\<close>

lemma insert_many_cong:
  assumes "map_of c2 name = map_of c name"
  shows "insert_many wr c2 name cols pss =
     (case insert_many wr c name cols pss of
        Inl e \<Rightarrow> Inl e
      | Inr (c', n) \<Rightarrow> Inr (AList.update name (the (map_of c' name)) c2, n))"
  using assms by (auto simp: insert_many_def update_conv' split: option.splits sum.splits)

lemma insert_many_again_local:
  assumes inv: "db_inv c" and ins: "insert_many wr c name cols pss = Inr (c1, n)"
    and key: "batch_keyed c name cols pss" and same: "map_of c2 name = map_of c1 name"
  shows "insert_many wr c2 name cols pss = Inr (c2, 0)"
proof -
  have again: "insert_many wr c1 name cols pss = Inr (c1, 0)" using insert_many_again [OF inv ins key] .
  obtain t where t: "map_of c1 name = Some t"
    using ins by (auto simp: insert_many_def update_conv' split: option.splits if_splits sum.splits)
  have "AList.update name t c2 = c2" using same t by (simp add: update_triv)
  then show ?thesis using insert_many_cong [OF same, of wr cols pss] again t by simp
qed

lemma insert_many_other:
  "insert_many wr c name cols pss = Inr (c', n) \<Longrightarrow> name' \<noteq> name \<Longrightarrow> map_of c' name' = map_of c name'"
  by (auto simp: insert_many_def update_conv' split: option.splits if_splits sum.splits)

lemma create_table_other:
  "create_table wr c name s = Inr c' \<Longrightarrow> name' \<noteq> name \<Longrightarrow> map_of c' name' = map_of c name'"
  by (auto simp: create_table_def map_add_def split: if_splits option.splits)

lemma save_data_to_db_again_local:
  assumes inv: "db_inv c" and key: "batch_keyed c name cols data"
    and run: "save_data_to_db w c name data cols = (w1, c1, Inr n)"
    and wr: "writable w' = writable w" and conn: "db_file w' = Some c2"
    and same: "map_of c2 name = map_of c1 name"
  shows "\<exists>w2. save_data_to_db w' c2 name data cols = (w2, c2, Inr 0) \<and> db_file w2 = db_file w'"
  using run
proof (cases rule: save_data_to_db_cases)
  case empty
  then show ?thesis by (simp add: save_data_to_db_def)
next
  case (stored m)
  have "insert_many (writable w') c2 name cols data = Inr (c2, 0)"
    using insert_many_again_local [OF inv stored(2) key same] wr by simp
  with stored conn show ?thesis by (simp add: save_data_to_db_nonempty)
next
  case (sqlerr e)
  have "insert_many (writable w') c2 name cols data = Inl e"
    using insert_many_cong [of c2 name c "writable w'" cols data] same sqlerr wr by simp
  with sqlerr show ?thesis by (simp add: save_data_to_db_nonempty)
qed simp

lemma save_data_to_db_other:
  assumes "save_data_to_db w c name data cols = (w', c', r)" "name' \<noteq> name"
  shows "map_of c' name' = map_of c name' \<and> writable w' = writable w \<and>
         (db_file w' = db_file w \<or> db_file w' = Some c') \<and> (db_inv c \<longrightarrow> db_inv c')"
  using assms(1)
proof (cases rule: save_data_to_db_cases)
  case (stored n)
  then show ?thesis using insert_many_other [OF stored(2) assms(2)] insert_many_inv [OF _ stored(2)]
    save_data_to_db_writable [OF assms(1)] by simp
qed (use save_data_to_db_writable [OF assms(1)] in simp_all)

lemma table_exists_same:
  "map_of c2 name = map_of c1 name \<Longrightarrow> table_exists c2 name = table_exists c1 name"
  by (metis table_exists_def map_of_eq_None_iff image_set)

lemma create_table_fails:
  "create_table wr c name s = Inl e \<Longrightarrow> \<not> table_exists c name \<Longrightarrow> \<not> wr"
  by (auto simp: create_table_def table_exists_def split: if_splits)

lemma store_entity_again_local:
  assumes es: "es_ok es" and inv: "db_inv c"
    and sch: "case map_of c (es_table es) of None \<Rightarrow> True | Some t \<Rightarrow> tcols t = es_schema es"
    and conn: "conn_ok w c"
    and ids: "\<forall>items. py_iter lst = Inr items \<longrightarrow> list_all (\<lambda>x. py_get_opt x ''id'' \<noteq> Inr (Some JNull)) items"
    and run: "store_entity es lst w c = (w1, Inr ())"
    and c1: "db_file w1 = Some c1" and wr: "writable w' = writable w" and c2: "db_file w' = Some c2"
    and same: "map_of c2 (es_table es) = map_of c1 (es_table es)"
  shows "\<exists>w2. store_entity es lst w' c2 = (w2, Inr ()) \<and> db_file w2 = db_file w'"
  using run
proof (cases rule: store_entity_Inr_cases)
  case (init_failed wi)
  from init_failed(1) obtain e where ne: "\<not> table_exists c (es_table es)"
    and ct: "create_table (writable w) c (es_table es) (es_schema es) = Inl e" and dbi: "db_file wi = db_file w"
    by (cases rule: init_db_table_cases) auto
  have "c1 = c" using c1 conn dbi init_failed(2) by (simp add: conn_ok_def)
  then have ne2: "\<not> table_exists c2 (es_table es)" using ne table_exists_same [OF same] by simp
  have "\<not> writable w'" using create_table_fails [OF ct ne] wr by simp
  then have "create_table (writable w') c2 (es_table es) (es_schema es) = Inl OperationalError"
    using ne2 by (simp add: create_table_def table_exists_def)
  then show ?thesis using ne2 by (simp add: store_entity_def init_db_table_def Let_def)
next
  case (saved wi ci items wp data ws cs cnt tot)
  from init_db_table_True [OF saved(1) inv conn sch] obtain t where
    ci: "conn_ok wi ci" "table_exists ci (es_table es)" "writable wi = writable w"
    and t: "map_of ci (es_table es) = Some t" "tcols t = es_schema es"
    by blast
  have pf: "db_file wp = db_file wi" "writable wp = writable wi"
    using prepare_rows_frame [OF saved(3)] by simp_all
  have "list_all (keyed (es_schema es) (es_columns es)) data"
    using prepare_rows_keyed [OF es, of items wi data] ids saved(2,3) by simp
  with t have key: "batch_keyed ci (es_table es) (es_columns es) data" by (simp add: batch_keyed_def)
  have "conn_ok ws cs"
    using save_data_to_db_conn_ok [OF _ saved(4)] ci(1) pf by (simp add: conn_ok_def)
  with saved(6) c1 have cs: "cs = c1" by (simp add: conn_ok_def)
  have ex: "table_exists c2 (es_table es)"
    using save_data_to_db_table_exists [OF saved(4) ci(2)] cs table_exists_same [OF same] by simp
  obtain wp' where p': "prepare_rows es items (log_add INFO (TableExists (es_table es)) w') = (wp', Inr data)"
    using prepare_rows_snd [of es items wi "log_add INFO (TableExists (es_table es)) w'"] saved(3)
    by (metis prod.collapse snd_conv)
  have pf': "db_file wp' = db_file w'" "writable wp' = writable w'"
    using prepare_rows_frame [OF p'] by simp_all
  obtain w2 where s2: "save_data_to_db wp' c2 (es_table es) data (es_columns es) = (w2, c2, Inr 0)"
    and d2: "db_file w2 = db_file wp'"
    using save_data_to_db_again_local [OF ci(1) [unfolded conn_ok_def, THEN conjunct2] key saved(4)[unfolded cs]]
      pf pf' wr ci(3) c2 same by auto
  show ?thesis
    using ex saved(2,5) p' s2 d2 pf' by (simp add: store_entity_def init_db_table_def)
qed

lemma store_entity_readonly_missing:
  assumes "\<not> writable w" "map_of c (es_table es) = None"
  shows "\<exists>w2. store_entity es lst w c = (w2, Inr ()) \<and> db_file w2 = db_file w"
proof -
  have "\<not> table_exists c (es_table es)" using assms(2) by (simp add: table_exists_def map_of_eq_None_iff)
  then show ?thesis using assms(1) by (simp add: store_entity_def init_db_table_def create_table_def Let_def)
qed

lemma process_entity_again_local:
  assumes es: "es \<in> set [products_spec, users_spec, posts_spec]"
    and start: "start_ok es w"
    and ids: "ids_not_null (es_table es) (snd (fetch_api_data api endpoint params w))"
    and run: "process_entity api es endpoint params w = (w1, Inr ())"
    and wr: "writable v = writable w"
    and none: "db_file v = None \<Longrightarrow> db_file w1 = None"
    and inv: "\<And>c2. db_file v = Some c2 \<Longrightarrow> db_inv c2"
    and same: "table_of v (es_table es) = table_of w1 (es_table es)"
  shows "\<exists>v2. process_entity api es endpoint params v = (v2, Inr ()) \<and> db_file v2 = db_file v"
proof -
  have eok: "es_ok es" using es by (rule es_ok_specs)
  obtain wf resp where f: "fetch_api_data api endpoint params w = (wf, resp)" by fastforce
  obtain vf where f': "fetch_api_data api endpoint params v = (vf, resp)"
    using fetch_api_data_result_indep [of api endpoint params v w] f by (metis prod.collapse snd_conv)
  have ff: "db_file wf = db_file w" "writable wf = writable w" using fetch_api_data_frame [OF f] by simp_all
  have ff': "db_file vf = db_file v" "writable vf = writable v" using fetch_api_data_frame [OF f'] by simp_all
  show ?thesis
  proof (cases "response_list (es_table es) resp")
    case (Inl e)
    with run f show ?thesis by (simp add: process_entity_def)
  next
    case (Inr opt)
    show ?thesis
    proof (cases opt)
      case None
      with Inr f' ff' show ?thesis by (simp add: process_entity_def)
    next
      case (Some lst)
      note opt_lst = Some
      from run f Inr Some obtain n where n: "py_len lst = Inr n"
        by (auto simp: process_entity_def split: sum.splits)
      have ids': "\<forall>items. py_iter lst = Inr items \<longrightarrow> list_all (\<lambda>x. py_get_opt x ''id'' \<noteq> Inr (Some JNull)) items"
        using ids f Inr Some by (auto simp: ids_not_null_def)
      show ?thesis
      proof (cases "db_file w = None \<and> \<not> writable w")
        case True
        with run f Inr Some n ff have w1: "db_file w1 = None" "\<not> writable v"
          using wr by (auto simp: process_entity_def get_db_connection_eq)
        show ?thesis
        proof (cases "db_file v")
          case None
          with f' Inr Some n ff' w1 show ?thesis by (simp add: process_entity_def get_db_connection_eq)
        next
          case (Some c2)
          have "map_of c2 (es_table es) = None" using same Some w1 by (simp add: table_of_def)
          then obtain w4 where st: "store_entity es lst (log_add INFO (DbConnected DB_NAME)
                (log_add INFO (Found (es_entity es) n) vf)) c2 = (w4, Inr ())"
            and d4: "db_file w4 = Some c2"
            using store_entity_readonly_missing [where w = "log_add INFO (DbConnected DB_NAME)
                (log_add INFO (Found (es_entity es) n) vf)" and c = c2 and es = es and lst = lst] w1 ff' Some
            by auto
          show ?thesis using f' Inr opt_lst n ff' st d4 Some by (simp add: process_entity_def get_db_connection_eq)
        qed
      next
        case False
        obtain c wc where gc: "get_db_connection (log_add INFO (Found (es_entity es) n) wf) = (wc, Some c)"
          using False ff by (cases "db_file w") (auto simp: get_db_connection_eq)
        have cok: "conn_ok wc c" and wcw: "writable wc = writable w"
          using gc start ff by (auto simp: get_db_connection_eq start_ok_def conn_ok_def db_inv_def split: option.splits if_splits)
        have sch: "case map_of c (es_table es) of None \<Rightarrow> True | Some t \<Rightarrow> tcols t = es_schema es"
          using gc start ff by (auto simp: get_db_connection_eq start_ok_def split: option.splits if_splits)
        obtain w3 where st: "store_entity es lst wc c = (w3, Inr ())" and w1: "w1 = log_add INFO ConnClosed w3"
          using run f Inr Some n gc by (auto simp: process_entity_def split: prod.splits)
        obtain c3 where c3: "conn_ok w3 c3" and w3w: "writable w3 = writable wc"
          using store_entity_Inr_conn [OF cok st] by blast
        obtain c2 where c2: "db_file v = Some c2" using none c3 w1 by (cases "db_file v") (auto simp: conn_ok_def)
        let ?vc = "log_add INFO (DbConnected DB_NAME) (log_add INFO (Found (es_entity es) n) vf)"
        have gc': "get_db_connection (log_add INFO (Found (es_entity es) n) vf) = (?vc, Some c2)"
          using c2 ff' by (simp add: get_db_connection_eq)
        have sm: "map_of c2 (es_table es) = map_of c3 (es_table es)"
          using same c2 c3 w1 by (simp add: table_of_def conn_ok_def)
        obtain w4 where st': "store_entity es lst ?vc c2 = (w4, Inr ())" and d4: "db_file w4 = db_file ?vc"
          using store_entity_again_local [OF eok _ sch cok ids' st _ _ _ sm, of ?vc] cok c3 ff' c2 w3w wcw wr
          by (auto simp: conn_ok_def)
        show ?thesis
          using f' Inr Some n gc' st' d4 ff' by (simp add: process_entity_def)
      qed
    qed
  qed
qed

lemma conn_ok_log_add [simp]: "conn_ok (log_add lv ev w) c = conn_ok w c"
  by (simp add: conn_ok_def)

lemma init_db_table_frame:
  assumes conn: "conn_ok w c" and i: "init_db_table w c name s = (w', c', b)" and other: "name' \<noteq> name"
  shows "conn_ok w' c' \<and> writable w' = writable w \<and> map_of c' name' = map_of c name'"
  using i
proof (cases rule: init_db_table_cases)
  case created
  then show ?thesis using init_db_table_conn_ok [OF conn i] create_table_other [OF created(2) other] by simp
qed (use init_db_table_conn_ok [OF conn i] in simp_all)

text \<open>A processor's storage step changes no table but its own and keeps the
  connection's database valid, whatever its outcome.\<close>

lemma store_entity_frame:
  assumes conn: "conn_ok w c" and run: "store_entity es lst w c = (w', r)" and other: "name \<noteq> es_table es"
  shows "writable w' = writable w \<and> (\<exists>c'. conn_ok w' c' \<and> map_of c' name = map_of c name)"
proof -
  obtain wi ci b where i: "init_db_table w c (es_table es) (es_schema es) = (wi, ci, b)" by (metis prod.exhaust)
  have I: "conn_ok wi ci" "writable wi = writable w" "map_of ci name = map_of c name"
    using init_db_table_frame [OF conn i other] by simp_all
  show ?thesis
  proof (cases "b \<and> (\<exists>items. py_iter lst = Inr items)")
    case False
    then show ?thesis using run i I by (cases b) (auto simp: store_entity_def split: sum.splits)
  next
    case True
    then obtain items where b: b and it: "py_iter lst = Inr items" by blast
    obtain wp rp where p: "prepare_rows es items wi = (wp, rp)" by fastforce
    have P: "conn_ok wp ci" "writable wp = writable w"
      using prepare_rows_frame [OF p] I by (simp_all add: conn_ok_def)
    show ?thesis
    proof (cases rp)
      case (Inl e)
      then show ?thesis using run i b it p P I by (auto simp: store_entity_def)
    next
      case (Inr data)
      obtain ws cs rs where sv: "save_data_to_db wp ci (es_table es) data (es_columns es) = (ws, cs, rs)"
        by (metis prod.exhaust)
      have S: "conn_ok ws cs" "writable ws = writable w" "map_of cs name = map_of c name"
        using save_data_to_db_conn_ok [OF P(1) sv] save_data_to_db_other [OF sv other] P I by simp_all
      show ?thesis
        using run i b it p Inr sv S by (auto simp: store_entity_def split: sum.splits)
    qed
  qed
qed

lemma process_entity_frame:
  assumes run: "process_entity api es endpoint params v = (v', r)" and other: "name \<noteq> es_table es"
    and inv: "\<And>c. db_file v = Some c \<Longrightarrow> db_inv c"
  shows "writable v' = writable v \<and> table_of v' name = table_of v name \<and>
         (db_file v \<noteq> None \<longrightarrow> db_file v' \<noteq> None) \<and> (\<forall>c. db_file v' = Some c \<longrightarrow> db_inv c)"
proof -
  obtain vf resp where f: "fetch_api_data api endpoint params v = (vf, resp)" by fastforce
  have ff: "db_file vf = db_file v" "writable vf = writable v" using fetch_api_data_frame [OF f] by simp_all
  show ?thesis
  proof (cases "\<exists>lst n. response_list (es_table es) resp = Inr (Some lst) \<and> py_len lst = Inr n")
    case False
    then show ?thesis using run f ff inv by (auto simp: process_entity_def table_of_def split: sum.splits option.splits)
  next
    case True
    then obtain lst n where l: "response_list (es_table es) resp = Inr (Some lst)" "py_len lst = Inr n" by blast
    let ?vn = "log_add INFO (Found (es_entity es) n) vf"
    obtain vc co where gc: "get_db_connection ?vn = (vc, co)" by fastforce
    show ?thesis
    proof (cases co)
      case None
      then show ?thesis using run f ff l gc inv
        by (auto simp: process_entity_def get_db_connection_eq table_of_def split: option.splits if_splits)
    next
      case (Some c)
      have cok: "conn_ok vc c"
        using get_db_connection_conn_ok [of ?vn vc c] gc Some ff inv by (auto split: option.splits)
      have tab: "map_of c name = table_of v name" "writable vc = writable v"
        using gc Some ff by (auto simp: get_db_connection_eq table_of_def split: option.splits if_splits)
      obtain w3 r3 where st: "store_entity es lst vc c = (w3, r3)" by fastforce
      from store_entity_frame [OF cok st other] obtain c' where
        "writable w3 = writable vc" "conn_ok w3 c'" "map_of c' name = map_of c name" by blast
      then show ?thesis using run f l gc Some st tab
        by (auto simp: process_entity_def table_of_def conn_ok_def)
    qed
  qed
qed

lemma start_ok_frame:
  assumes start: "start_ok es v" and run: "process_entity api es' endpoint params v = (v', r)"
    and other: "es_table es \<noteq> es_table es'"
  shows "start_ok es v'"
proof -
  have inv: "\<And>c. db_file v = Some c \<Longrightarrow> db_inv c" using start by (simp add: start_ok_def)
  from process_entity_frame [OF run other inv] have
    "table_of v' (es_table es) = table_of v (es_table es)" "\<forall>c. db_file v' = Some c \<longrightarrow> db_inv c" by simp_all
  then show ?thesis using start
    by (auto simp: start_ok_def table_of_def split: option.splits)
qed

lemma start_ok_log_add [simp]: "start_ok es (log_add lv ev w) = start_ok es w"
  by (simp add: start_ok_def)

lemma table_of_log_add [simp]: "table_of (log_add lv ev w) name = table_of w name"
  by (simp add: table_of_def)

lemma clean_db_start_ok:
  "clean_db argv w = (w', out) \<Longrightarrow> start_ok es w \<Longrightarrow> start_ok es w' \<and> writable w' = writable w"
  by (auto simp: clean_db_def start_ok_def split: if_splits)

lemma processor_main_Inr:
  assumes "processor_main api argv w = (w1, out, Inr ())"
  obtains wa outa wb wc where "clean_db argv w = (wa, outa)"
    "process_entity api products_spec ''products/search'' [(''q'', JStr DEFAULT_SEARCH)]
       (log_add INFO (StartProducts DEFAULT_SEARCH) wa) = (wb, Inr ())"
    "process_entity api users_spec ''users'' [(''limit'', JInt 20), (''skip'', JInt DEFAULT_SKIP)]
       (log_add INFO (StartUsers 20 DEFAULT_SKIP) wb) = (wc, Inr ())"
    "process_entity api posts_spec ''posts'' [(''limit'', JInt 30), (''skip'', JInt DEFAULT_SKIP)]
       (log_add INFO (StartAllPosts 30 DEFAULT_SKIP) wc) = (w1, Inr ())"
  using assms
  by (auto simp: processor_main_def process_products_def process_users_def process_posts_def Let_def
           split: prod.splits sum.splits)

lemma table_of_cong: "db_file a = db_file b \<Longrightarrow> table_of a name = table_of b name"
  by (simp add: table_of_def)

lemma spec_tables [simp]:
  "es_table products_spec = ''products''" "es_table users_spec = ''users''" "es_table posts_spec = ''posts''"
  by (simp_all add: products_spec_def users_spec_def posts_spec_def)

lemma specs_in [simp]:
  "products_spec \<in> set [products_spec, users_spec, posts_spec]"
  "users_spec \<in> set [products_spec, users_spec, posts_spec]"
  "posts_spec \<in> set [products_spec, users_spec, posts_spec]"
  by simp_all

lemma processor_main_Inr_frames:
  assumes start: "list_all (\<lambda>es. start_ok es w) [products_spec, users_spec, posts_spec]"
    and cl: "clean_db argv w = (wa, outa)"
    and rp: "process_entity api products_spec ''products/search'' [(''q'', JStr DEFAULT_SEARCH)]
               (log_add INFO (StartProducts DEFAULT_SEARCH) wa) = (wb, Inr ())"
    and ru: "process_entity api users_spec ''users'' [(''limit'', JInt 20), (''skip'', JInt DEFAULT_SKIP)]
               (log_add INFO (StartUsers 20 DEFAULT_SKIP) wb) = (wc, Inr ())"
    and ro: "process_entity api posts_spec ''posts'' [(''limit'', JInt 30), (''skip'', JInt DEFAULT_SKIP)]
               (log_add INFO (StartAllPosts 30 DEFAULT_SKIP) wc) = (w1, Inr ())"
  shows "start_ok products_spec wa" "start_ok users_spec wa" "start_ok posts_spec wa" "writable wa = writable w"
    and "start_ok users_spec wb" "start_ok posts_spec wc"
    and "writable wb = writable w" "table_of wb ''users'' = table_of wa ''users''"
    and "writable wc = writable w" "table_of wc ''products'' = table_of wb ''products''"
      "db_file wb \<noteq> None \<longrightarrow> db_file wc \<noteq> None"
    and "writable w1 = writable w" "table_of w1 ''products'' = table_of wc ''products''"
      "table_of w1 ''users'' = table_of wc ''users''"
      "db_file wc \<noteq> None \<longrightarrow> db_file w1 \<noteq> None" "\<forall>c. db_file w1 = Some c \<longrightarrow> db_inv c"
proof -
  have sa: "start_ok products_spec wa" "start_ok users_spec wa" "start_ok posts_spec wa" "writable wa = writable w"
    using clean_db_start_ok [OF cl, of products_spec] clean_db_start_ok [OF cl, of users_spec]
      clean_db_start_ok [OF cl, of posts_spec] start by simp_all
  have su: "start_ok users_spec wb" and so1: "start_ok posts_spec wb"
    using start_ok_frame [OF _ rp] sa by simp_all
  have so: "start_ok posts_spec wc" using start_ok_frame [OF _ ru] so1 by simp
  have invb: "\<And>c. db_file wb = Some c \<Longrightarrow> db_inv c" using su by (simp add: start_ok_def)
  have invc: "\<And>c. db_file wc = Some c \<Longrightarrow> db_inv c" using so by (simp add: start_ok_def)
  have Fb: "writable wb = writable w" "table_of wb ''users'' = table_of wa ''users''"
  proof -
    have "\<And>c. db_file wa = Some c \<Longrightarrow> db_inv c" using sa(1) by (simp add: start_ok_def)
    then show "writable wb = writable w" "table_of wb ''users'' = table_of wa ''users''"
      using process_entity_frame [OF rp, of "''users''"] sa(4) by simp_all
  qed
  have Fc: "writable wc = writable w" "table_of wc ''products'' = table_of wb ''products''"
      "db_file wb \<noteq> None \<longrightarrow> db_file wc \<noteq> None"
    using process_entity_frame [OF ru, of "''products''"] invb Fb by simp_all
  have invc': "\<And>c. db_file (log_add INFO (StartAllPosts 30 DEFAULT_SKIP) wc) = Some c \<Longrightarrow> db_inv c"
    using invc by simp
  have P1: "writable w1 = writable wc \<and> table_of w1 ''products'' = table_of wc ''products'' \<and>
            (db_file wc \<noteq> None \<longrightarrow> db_file w1 \<noteq> None) \<and> (\<forall>c. db_file w1 = Some c \<longrightarrow> db_inv c)"
    using process_entity_frame [OF ro _ invc', of "''products''"] by simp
  have P2: "table_of w1 ''users'' = table_of wc ''users''"
    using process_entity_frame [OF ro _ invc', of "''users''"] by simp
  have F1: "writable w1 = writable w" "table_of w1 ''products'' = table_of wc ''products''"
      "table_of w1 ''users'' = table_of wc ''users''"
      "db_file wc \<noteq> None \<longrightarrow> db_file w1 \<noteq> None" "\<forall>c. db_file w1 = Some c \<longrightarrow> db_inv c"
    using P1 P2 Fc(1) by simp_all
  show "start_ok products_spec wa" "start_ok users_spec wa" "start_ok posts_spec wa" "writable wa = writable w"
    "start_ok users_spec wb" "start_ok posts_spec wc" using sa su so by simp_all
  show "writable wb = writable w" "table_of wb ''users'' = table_of wa ''users''" by (fact Fb)+
  show "writable wc = writable w" "table_of wc ''products'' = table_of wb ''products''"
    "db_file wb \<noteq> None \<longrightarrow> db_file wc \<noteq> None" by (fact Fc)+
  show "writable w1 = writable w" "table_of w1 ''products'' = table_of wc ''products''"
    "table_of w1 ''users'' = table_of wc ''users''"
    "db_file wc \<noteq> None \<longrightarrow> db_file w1 \<noteq> None" "\<forall>c. db_file w1 = Some c \<longrightarrow> db_inv c" by (fact F1)+
qed

text \<open>C26. Running the whole pipeline again (without \<open>--clean\<close>) against the
  same upstream answers, after a run that ended normally, leaves the database file
  as the first run left it (spec \<section>8, idempotence), provided the records carry
  non-null ids and any table that existed before had the processor's schema.\<close>

theorem processor_main_rerun:
  assumes start: "list_all (\<lambda>es. start_ok es w) [products_spec, users_spec, posts_spec]"
    and idp: "ids_not_null ''products'' (snd (fetch_api_data api ''products/search'' [(''q'', JStr DEFAULT_SEARCH)] w))"
    and idu: "ids_not_null ''users'' (snd (fetch_api_data api ''users'' [(''limit'', JInt 20), (''skip'', JInt DEFAULT_SKIP)] w))"
    and ido: "ids_not_null ''posts'' (snd (fetch_api_data api ''posts'' [(''limit'', JInt 30), (''skip'', JInt DEFAULT_SKIP)] w))"
    and run: "processor_main api argv w = (w1, out, Inr ())"
  shows "\<exists>w2 out2. processor_main api [prog] w1 = (w2, out2, Inr ()) \<and> db_file w2 = db_file w1"
proof -
  obtain wa outa wb wc where cl: "clean_db argv w = (wa, outa)"
    and rp: "process_entity api products_spec ''products/search'' [(''q'', JStr DEFAULT_SEARCH)]
               (log_add INFO (StartProducts DEFAULT_SEARCH) wa) = (wb, Inr ())"
    and ru: "process_entity api users_spec ''users'' [(''limit'', JInt 20), (''skip'', JInt DEFAULT_SKIP)]
               (log_add INFO (StartUsers 20 DEFAULT_SKIP) wb) = (wc, Inr ())"
    and ro: "process_entity api posts_spec ''posts'' [(''limit'', JInt 30), (''skip'', JInt DEFAULT_SKIP)]
               (log_add INFO (StartAllPosts 30 DEFAULT_SKIP) wc) = (w1, Inr ())"
    using run by (rule processor_main_Inr)
  note fr = processor_main_Inr_frames [OF start cl rp ru ro]
  note sa = fr(1-4) and su = fr(5) and so = fr(6) and Fb = fr(7-8) and Fc = fr(9-11) and F1 = fr(12-16)
  have ids: "ids_not_null ''products'' (snd (fetch_api_data api ''products/search'' [(''q'', JStr DEFAULT_SEARCH)]
               (log_add INFO (StartProducts DEFAULT_SEARCH) wa)))"
    "ids_not_null ''users'' (snd (fetch_api_data api ''users'' [(''limit'', JInt 20), (''skip'', JInt DEFAULT_SKIP)]
               (log_add INFO (StartUsers 20 DEFAULT_SKIP) wb)))"
    "ids_not_null ''posts'' (snd (fetch_api_data api ''posts'' [(''limit'', JInt 30), (''skip'', JInt DEFAULT_SKIP)]
               (log_add INFO (StartAllPosts 30 DEFAULT_SKIP) wc)))"
    using idp idu ido fetch_api_data_result_indep by metis+
  obtain v1 where r1: "process_entity api products_spec ''products/search'' [(''q'', JStr DEFAULT_SEARCH)]
               (log_add INFO (StartProducts DEFAULT_SEARCH) w1) = (v1, Inr ())"
    and d1: "db_file v1 = db_file w1"
    using process_entity_again_local [OF specs_in(1) _ _ rp, where v = "log_add INFO (StartProducts DEFAULT_SEARCH) w1"]
      sa ids(1) F1 Fc sa(4) by (auto simp: table_of_def)
  have wv1: "writable v1 = writable w" using process_entity_frame [OF r1, of "''users''"] F1 by simp
  obtain v2 where r2: "process_entity api users_spec ''users'' [(''limit'', JInt 20), (''skip'', JInt DEFAULT_SKIP)]
               (log_add INFO (StartUsers 20 DEFAULT_SKIP) v1) = (v2, Inr ())"
    and d2: "db_file v2 = db_file v1"
    using process_entity_again_local [OF specs_in(2) _ _ ru, where v = "log_add INFO (StartUsers 20 DEFAULT_SKIP) v1"]
      su ids(2) F1 Fb Fc wv1 d1 table_of_cong [OF d1] by auto
  have wv2: "writable v2 = writable w" using process_entity_frame [OF r2, of "''products''"] wv1 F1 d1 by simp
  obtain v3 where r3: "process_entity api posts_spec ''posts'' [(''limit'', JInt 30), (''skip'', JInt DEFAULT_SKIP)]
               (log_add INFO (StartAllPosts 30 DEFAULT_SKIP) v2) = (v3, Inr ())"
    and d3: "db_file v3 = db_file v2"
    using process_entity_again_local [OF specs_in(3) _ _ ro, where v = "log_add INFO (StartAllPosts 30 DEFAULT_SKIP) v2"]
      so ids(3) F1 Fc wv2 d1 d2 table_of_cong [of v2 w1] by auto
  have "processor_main api [prog] w1 = (v3, [StartProcessing, ProcessingDone, ViewHint], Inr ())"
    using r1 r2 r3 by (simp add: processor_main_def clean_db_def process_products_def process_users_def
                                 process_posts_def)
  then show ?thesis using d1 d2 d3 by auto
qed

lemma ex_one_json:
  "json_loads ''{\"products\": [{\"id\": 1, \"title\": \"a\"}]}'' =
   Some (JObj [(''products'', JArr [JObj [(''id'', JInt 1), (''title'', JStr ''a'')]])])"
  by code_simp

lemma ex_one_fetch:
  "\<exists>wf. fetch_api_data ex_one_api ep ps w =
     (wf, Some (JObj [(''products'', JArr [JObj [(''id'', JInt 1), (''title'', JStr ''a'')]])])) \<and>
     db_file wf = db_file w \<and> writable wf = writable w"
  by (simp add: fetch_api_data_def Let_def http_error_status_def ex_one_json)

lemma ex_one_other:
  assumes "es_table es \<noteq> ''products''"
  shows "\<exists>w'. process_entity ex_one_api es ep ps w = (w', Inr ())"
proof -
  obtain wf where "fetch_api_data ex_one_api ep ps w =
     (wf, Some (JObj [(''products'', JArr [JObj [(''id'', JInt 1), (''title'', JStr ''a'')]])]))"
    using ex_one_fetch by blast
  then show ?thesis using assms by (simp add: process_entity_def response_list_def)
qed

lemma ex_one_products:
  assumes "db_file w = None" "writable w"
  shows "\<exists>w'. process_entity ex_one_api products_spec ep ps w = (w', Inr ())"
proof -
  obtain wf where f: "fetch_api_data ex_one_api ep ps w =
     (wf, Some (JObj [(''products'', JArr [JObj [(''id'', JInt 1), (''title'', JStr ''a'')]])]))"
    and wf: "db_file wf = None" "writable wf"
    using ex_one_fetch [of ep ps w] assms by auto
  obtain w3 where st: "store_entity products_spec (JArr [JObj [(''id'', JInt 1), (''title'', JStr ''a'')]])
      (log_add INFO (DbConnected DB_NAME) ((log_add INFO (Found (es_entity products_spec) 1) wf)\<lparr>db_file := Some []\<rparr>)) [] = (w3, Inr ())"
    using ex_store_one [of "log_add INFO (DbConnected DB_NAME) ((log_add INFO (Found (es_entity products_spec) 1) wf)\<lparr>db_file := Some []\<rparr>)"] wf
    by auto
  show ?thesis using st wf by (simp add: process_entity_def f response_list_def get_db_connection_eq)
qed

theorem processor_main_rerun_witness:
  "\<exists>w1 out. list_all (\<lambda>es. start_ok es ex_wn) [products_spec, users_spec, posts_spec] \<and>
     ids_not_null ''products'' (snd (fetch_api_data ex_one_api ''products/search'' [(''q'', JStr DEFAULT_SEARCH)] ex_wn)) \<and>
     ids_not_null ''users'' (snd (fetch_api_data ex_one_api ''users'' [(''limit'', JInt 20), (''skip'', JInt DEFAULT_SKIP)] ex_wn)) \<and>
     ids_not_null ''posts'' (snd (fetch_api_data ex_one_api ''posts'' [(''limit'', JInt 30), (''skip'', JInt DEFAULT_SKIP)] ex_wn)) \<and>
     processor_main ex_one_api [''processor.py''] ex_wn = (w1, out, Inr ()) \<and>
     (\<exists>w2 out2. processor_main ex_one_api [''processor.py''] w1 = (w2, out2, Inr ()) \<and> db_file w2 = db_file w1)"
proof -
  have s: "list_all (\<lambda>es. start_ok es ex_wn) [products_spec, users_spec, posts_spec]" by (simp add: start_ok_def)
  have i: "ids_not_null t (snd (fetch_api_data ex_one_api ep ps ex_wn))" for t ep ps
  proof -
    obtain wf where "fetch_api_data ex_one_api ep ps ex_wn =
       (wf, Some (JObj [(''products'', JArr [JObj [(''id'', JInt 1), (''title'', JStr ''a'')]])]))"
      using ex_one_fetch [of ep ps ex_wn] by blast
    then show ?thesis by (cases "t = ''products''") (simp_all add: ids_not_null_def response_list_def)
  qed
  obtain wb where rp: "process_entity ex_one_api products_spec ''products/search'' [(''q'', JStr DEFAULT_SEARCH)]
      (log_add INFO (StartProducts DEFAULT_SEARCH) ex_wn) = (wb, Inr ())"
    using ex_one_products by fastforce
  obtain wc where ru: "process_entity ex_one_api users_spec ''users'' [(''limit'', JInt 20), (''skip'', JInt DEFAULT_SKIP)]
      (log_add INFO (StartUsers 20 DEFAULT_SKIP) wb) = (wc, Inr ())"
    using ex_one_other [of users_spec] by fastforce
  obtain w1 where ro: "process_entity ex_one_api posts_spec ''posts'' [(''limit'', JInt 30), (''skip'', JInt DEFAULT_SKIP)]
      (log_add INFO (StartAllPosts 30 DEFAULT_SKIP) wc) = (w1, Inr ())"
    using ex_one_other [of posts_spec] by fastforce
  have r: "processor_main ex_one_api [''processor.py''] ex_wn = (w1, [StartProcessing, ProcessingDone, ViewHint], Inr ())"
    using rp ru ro by (simp add: processor_main_def clean_db_def process_products_def process_users_def process_posts_def)
  show ?thesis using processor_main_rerun [OF s i i i r] s i r by blast
qed














lemma next_rowid_one_row [simp]: "next_rowid \<lparr>tcols = cs, trows = [(k, r)]\<rparr> = k + 1"
  by (simp add: next_rowid_def)


lemma conn_pairs_step:
  assumes "conn_trace (log v) = conn_trace (log w) @ concat (replicate k [DbConnected DB_NAME, ConnClosed])"
    and "conn_trace (log v') \<in> {conn_trace (log v), conn_trace (log v) @ [DbConnected DB_NAME, ConnClosed]}"
  obtains k' where "k' \<le> Suc k"
    "conn_trace (log v') = conn_trace (log w) @ concat (replicate k' [DbConnected DB_NAME, ConnClosed])"
proof -
  have "replicate (Suc k) [DbConnected DB_NAME, ConnClosed] =
        replicate k [DbConnected DB_NAME, ConnClosed] @ [[DbConnected DB_NAME, ConnClosed]]"
    by (simp add: replicate_append_same)
  then show ?thesis using assms that [of k] that [of "Suc k"] by auto
qed

lemma clean_db_log [simp]: "log (fst (clean_db argv w)) = log w"
  by (simp add: clean_db_def)

text \<open>C34. Every database connection the program opens is closed again, on every
  path: the connection events a run adds to the log are at most three pairs
  of an opening followed by its closing, also when a processor raises (the
  \<open>finally\<close> clauses) and when the run stops early.\<close>

theorem processor_main_closes_connections:
  "\<exists>k. k \<le> 3 \<and> conn_trace (log (fst (processor_main api argv w))) =
     conn_trace (log w) @ concat (replicate k [DbConnected DB_NAME, ConnClosed])"
proof -
  obtain w1 out1 where c: "clean_db argv w = (w1, out1)" by fastforce
  have t1: "conn_trace (log w1) = conn_trace (log w) @ concat (replicate 0 [DbConnected DB_NAME, ConnClosed])"
    using clean_db_log [of argv w] c by simp
  obtain w2 r2 where p2: "process_products api DEFAULT_SEARCH w1 = (w2, r2)" by fastforce
  obtain k2 where k2: "k2 \<le> 1"
    "conn_trace (log w2) = conn_trace (log w) @ concat (replicate k2 [DbConnected DB_NAME, ConnClosed])"
    using conn_pairs_step [OF t1, of w2] process_entities_conn_trace(1) [of api DEFAULT_SEARCH w1] p2
    by (metis One_nat_def fst_conv)
  obtain w3 r3 where p3: "process_users api 20 DEFAULT_SKIP w2 = (w3, r3)" by fastforce
  obtain k3 where k3: "k3 \<le> 2"
    "conn_trace (log w3) = conn_trace (log w) @ concat (replicate k3 [DbConnected DB_NAME, ConnClosed])"
    using conn_pairs_step [OF k2(2), of w3] process_entities_conn_trace(2) [of api 20 DEFAULT_SKIP w2] p3 k2(1)
    by (metis fst_conv le_trans Suc_le_mono numeral_2_eq_2 One_nat_def)
  obtain w4 r4 where p4: "process_posts api 30 DEFAULT_SKIP None w3 = (w4, r4)" by fastforce
  obtain k4 where k4: "k4 \<le> 3"
    "conn_trace (log w4) = conn_trace (log w) @ concat (replicate k4 [DbConnected DB_NAME, ConnClosed])"
    using conn_pairs_step [OF k3(2), of w4] process_entities_conn_trace(3) [of api 30 DEFAULT_SKIP None w3] p4 k3(1)
    by (metis fst_conv le_trans Suc_le_mono numeral_3_eq_3 numeral_2_eq_2)
  show ?thesis
  proof (cases r2)
    case Inl
    then show ?thesis using k2 by (intro exI [of _ k2]) (simp add: processor_main_def c p2)
  next
    case Inr
    show ?thesis
    proof (cases r3)
      case Inl
      then show ?thesis using k3 \<open>r2 = Inr _\<close> by (intro exI [of _ k3]) (simp add: processor_main_def c p2 p3)
    next
      case Inr
      then show ?thesis using k4 \<open>r2 = Inr _\<close> by (intro exI [of _ k4]) (simp add: processor_main_def c p2 p3 p4 split: sum.split)
    qed
  qed
qed



end
