(* ===== verification/JsonRoundtrip.thy ===== *)
theory JsonRoundtrip
  imports JsonText
begin

text \<open>
  The round trip between the two halves of the JSON codec: what \<open>json.dumps\<close>
  writes, \<open>json.loads\<close> reads back as the same value.
\<close>

definition num_end :: "string \<Rightarrow> bool" where
  "num_end r \<longleftrightarrow> r = [] \<or> (\<not> is_digit (hd r) \<and> hd r \<noteq> CHR ''.'' \<and> hd r \<noteq> CHR ''e'' \<and> hd r \<noteq> CHR ''E'')"

text \<open>A member of an object as \<open>json.dumps\<close> writes it.\<close>

definition member_text :: "string \<times> json \<Rightarrow> string" where
  "member_text kv = json_str (fst kv) @ '': '' @ json_dumps (snd kv)"

subsection \<open>Strings\<close>

lemma hex_val_hex_char: "d < 16 \<Longrightarrow> hex_val (hex_char d) = Some d"
  by (auto simp: hex_val_def hex_char_def Let_def)

lemma hex4_u_escape:
  assumes "n < 256"
  shows "hex4 ([hex_char (n div 4096 mod 16), hex_char (n div 256 mod 16),
                hex_char (n div 16 mod 16), hex_char (n mod 16)] @ s) = Some n"
proof -
  have z: "n div 4096 = 0" "n div 256 = 0" using assms by simp_all
  have m: "n div 16 mod 16 = n div 16" and l: "n div 16 < 16" using assms by simp_all
  show ?thesis
    using div_mult_mod_eq [of n 16] by (simp add: hex4_def hex_val_hex_char z m l)
qed

lemma scan_esc_char: "scan_string acc (esc_char c @ s) = scan_string (acc @ [c]) s"
proof -
  have n: "(of_char c :: nat) < 256" by (rule nat_of_char_less_256)
  show ?thesis
  proof (cases "c = backslash \<or> c = CHR ''\"'' \<or> c = CHR 0x08 \<or> c = CHR 0x0C \<or> c = CHR 0x0A \<or>
                c = CHR 0x0D \<or> c = CHR 0x09")
    case True
    then show ?thesis by (auto simp: esc_char_def unescape_def backslash_def)
  next
    case False
    show ?thesis
    proof (cases "32 \<le> (of_char c :: nat) \<and> (of_char c :: nat) \<le> 126")
      case True
      with False show ?thesis by (simp add: esc_char_def)
    next
      case out: False
      have "hex4 ([hex_char (of_char c div 4096 mod 16), hex_char (of_char c div 256 mod 16),
                hex_char (of_char c div 16 mod 16), hex_char (of_char c mod 16)] @ s) = Some (of_char c)"
        using n by (intro hex4_u_escape) simp
      with False out n show ?thesis
        by (simp add: esc_char_def u_escape_def unescape_def backslash_def Let_def)
    qed
  qed
qed

lemma scan_json_str:
  "scan_string acc (concat (map esc_char s) @ CHR ''\"'' # r) = Some (acc @ s, r)"
  by (induction s arbitrary: acc) (simp_all add: scan_esc_char)

subsection \<open>Integers\<close>

lemma show_nat_ne [simp]: "show_nat n \<noteq> []"
  by (subst show_nat.simps) simp

lemma num_end_takeWhile: "num_end r \<Longrightarrow> takeWhile is_digit r = []"
  by (cases r) (auto simp: num_end_def)

lemma frac_part_num_end: "num_end r \<Longrightarrow> frac_part r = ([], r)"
  by (cases r) (auto simp: num_end_def frac_part_def)

lemma exp_part_num_end: "num_end r \<Longrightarrow> exp_part r = (False, [], r)"
  by (cases r) (auto simp: num_end_def exp_part_def)

lemma hd_show_nat_digit: "is_digit (hd (show_nat n))"
  using show_nat_digits [of "hd (show_nat n)" n] by simp

lemma int_part_show_nat:
  assumes "num_end r" shows "int_part (show_nat n @ r) = show_nat n"
proof (cases "n = 0")
  case True
  have d: "digit_char 0 = CHR ''0''" using digit_char_zero_iff [of 0] by simp
  show ?thesis using True d by (simp add: int_part_def show_nat.simps del: digit_char_zero_iff)
next
  case False
  have "takeWhile is_digit (show_nat n @ r) = show_nat n"
    using assms by (simp add: takeWhile_append2 show_nat_digits num_end_takeWhile)
  with False show ?thesis by (simp add: int_part_def show_nat_hd)
qed

lemma hd_show_nat_minus: "hd (show_nat n @ r) \<noteq> CHR ''-''"
  using hd_show_nat_digit [of n] by (auto simp: is_digit_def)

lemma scan_number_show_int:
  assumes "num_end r" shows "scan_number (show_int i @ r) = Some (JInt i, r)"
proof (cases "i < 0")
  case True
  then show ?thesis
    using assms by (simp add: scan_number_def show_int_def int_part_show_nat frac_part_num_end
        exp_part_num_end Let_def)
next
  case False
  then show ?thesis
    using assms hd_show_nat_minus [of "nat i" r]
    by (simp add: scan_number_def show_int_def int_part_show_nat frac_part_num_end
        exp_part_num_end Let_def)
qed

subsection \<open>Floats\<close>

definition all_digits :: "string \<Rightarrow> bool" where
  "all_digits ds \<longleftrightarrow> (\<forall>c \<in> set ds. is_digit c)"

lemma takeWhile_digits:
  "all_digits ds \<Longrightarrow> (r = [] \<or> \<not> is_digit (hd r)) \<Longrightarrow> takeWhile is_digit (ds @ r) = ds"
  by (cases r) (auto simp: all_digits_def takeWhile_append2)

lemma digits_val_Nil [simp]: "digits_val [] = 0"
  by (simp add: digits_val_def)

lemma all_digits_show_nat [simp]: "all_digits (show_nat n)"
  by (auto simp: all_digits_def)

lemma is_digit_zero [simp]: "is_digit (CHR ''0'')"
  by (simp add: is_digit_def)

lemma all_digits_append [simp]: "all_digits (xs @ ys) \<longleftrightarrow> all_digits xs \<and> all_digits ys"
  by (auto simp: all_digits_def)

lemma all_digits_replicate_zero [simp]: "all_digits (replicate k (CHR ''0''))"
  by (simp add: all_digits_def)

lemma digits_val_zeros [simp]: "digits_val (replicate k (CHR ''0'') @ ds) = digits_val ds"
proof -
  have "foldl (\<lambda>acc c. 10 * acc + digit_val c) 0 (replicate k (CHR ''0'')) = 0"
    by (induction k) (simp_all add: digit_val_def replicate_append_same [symmetric])
  then show ?thesis by (simp add: digits_val_def)
qed

lemma scan_number_parts:
  assumes "s1 = (if s \<noteq> [] \<and> hd s = CHR ''-'' then tl s else s)"
    and "int_part s1 = ip" "ip \<noteq> []"
    and "frac_part (drop (length ip) s1) = (fr, s3)" and "exp_part s3 = (eneg, ex, r)"
    and "fr \<noteq> [] \<or> ex \<noteq> []"
  shows "scan_number s = Some (dec_of (s \<noteq> [] \<and> hd s = CHR ''-'') (ip @ fr)
           ((if eneg then - int (digits_val ex) else int (digits_val ex)) - int (length fr)), r)"
  using assms unfolding scan_number_def Let_def assms(1) [symmetric] by (cases "fr = []") simp_all

lemma dec_of_trailing:
  assumes "ds \<noteq> []" "last ds \<noteq> CHR ''0''"
  shows "dec_of neg (ds @ replicate k (CHR ''0'')) e =
         JFloat ((if neg then -1 else 1) * int (digits_val ds)) (e + int k)"
proof -
  have h: "hd (rev ds) \<noteq> CHR ''0''" using assms by (simp add: hd_rev)
  have t0: "takeWhile (\<lambda>c. c = CHR ''0'') (rev ds) = []" and d0: "dropWhile (\<lambda>c. c = CHR ''0'') (rev ds) = rev ds"
    using h assms(1) by (cases "rev ds"; simp)+
  have t: "takeWhile (\<lambda>c. c = CHR ''0'') (replicate k (CHR ''0'') @ rev ds) = replicate k (CHR ''0'')"
    using t0 by (induction k) simp_all
  have d: "dropWhile (\<lambda>c. c = CHR ''0'') (replicate k (CHR ''0'') @ rev ds) = rev ds"
    using d0 by (induction k) simp_all
  show ?thesis using assms(1) unfolding dec_of_def Let_def rev_append rev_replicate t d by simp
qed

lemma last_show_nat: "last (show_nat n) = digit_char (n mod 10)"
  by (subst show_nat.simps) simp

lemma last_show_nat_nonzero: "\<not> 10 dvd n \<Longrightarrow> last (show_nat n) \<noteq> CHR ''0''"
  by (simp add: last_show_nat dvd_eq_mod_eq_0)

lemma pad2_digits [simp]: "all_digits (pad2 (show_nat n))" "digits_val (pad2 (show_nat n)) = n"
    "pad2 (show_nat n) \<noteq> []"
  by (simp_all add: pad2_def)

lemma hd_digits_not_minus: "ds \<noteq> [] \<Longrightarrow> all_digits ds \<Longrightarrow> hd (ds @ r) \<noteq> CHR ''-''"
  by (cases ds) (auto simp: all_digits_def is_digit_def)

lemma scan_number_signed:
  assumes "T \<noteq> []" "all_digits [hd T]"
    and "int_part (T @ r) = ip" "ip \<noteq> []"
    and "frac_part (drop (length ip) (T @ r)) = (fr, s3)" and "exp_part s3 = (eneg, ex, r)"
    and "fr \<noteq> [] \<or> ex \<noteq> []"
  shows "scan_number ((if neg then ''-'' else []) @ T @ r) = Some (dec_of neg (ip @ fr)
           ((if eneg then - int (digits_val ex) else int (digits_val ex)) - int (length fr)), r)"
proof -
  have "hd (T @ r) \<noteq> CHR ''-''" using assms(1,2) by (cases T) (auto simp: all_digits_def is_digit_def)
  then show ?thesis
    using scan_number_parts [OF _ assms(3-7), of "(if neg then ''-'' else []) @ T @ r"] assms(1)
    by (cases neg) simp_all
qed

lemma int_part_digits:
  assumes "ds \<noteq> []" "all_digits ds" "hd ds \<noteq> CHR ''0''" "r = [] \<or> \<not> is_digit (hd r)"
  shows "int_part (ds @ r) = ds"
  using assms by (simp add: int_part_def takeWhile_digits)

lemma all_digits_take_drop [simp]:
  "all_digits ds \<Longrightarrow> all_digits (take p ds)" "all_digits ds \<Longrightarrow> all_digits (drop p ds)"
  by (auto simp: all_digits_def dest: in_set_takeD in_set_dropD)

lemma frac_part_digits:
  assumes "fs \<noteq> []" "all_digits fs" "r = [] \<or> \<not> is_digit (hd r)"
  shows "frac_part (CHR ''.'' # fs @ r) = (fs, r)"
proof -
  obtain a l where fs: "fs = a # l" using assms(1) by (cases fs) auto
  have "is_digit a" "all_digits l" using assms(2) fs by (simp_all add: all_digits_def)
  moreover have "takeWhile is_digit (l @ r) = l" using takeWhile_digits [OF _ assms(3)] calculation(2) .
  ultimately show ?thesis by (simp add: frac_part_def fs)
qed

lemma num_end_digit: "num_end r \<Longrightarrow> r = [] \<or> \<not> is_digit (hd r)"
  by (auto simp: num_end_def)

text \<open>Fixed notation with the point inside the digits.\<close>

lemma scan_float_inner:
  assumes k: "\<not> 10 dvd k" and p: "0 < p" "p < length (show_nat k)" and r: "num_end r"
  shows "scan_number ((if neg then ''-'' else []) @ (take p (show_nat k) @ CHR ''.'' # drop p (show_nat k)) @ r) =
         Some (JFloat ((if neg then -1 else 1) * int k) (int p - int (length (show_nat k))), r)"
proof -
  let ?ds = "show_nat k"
  have k0: "0 < k" using k by (cases k) auto
  have hd: "hd (take p ?ds) = hd ?ds" "hd ?ds \<noteq> CHR ''0''" using p k0 show_nat_hd [OF k0] by simp_all
  have ip: "int_part ((take p ?ds @ CHR ''.'' # drop p ?ds) @ r) = take p ?ds"
    using int_part_digits [of "take p ?ds" "CHR ''.'' # drop p ?ds @ r"] p hd
    by (simp add: is_digit_def)
  have fr: "frac_part (drop (length (take p ?ds)) ((take p ?ds @ CHR ''.'' # drop p ?ds) @ r)) = (drop p ?ds, r)"
    using frac_part_digits [of "drop p ?ds" r] p num_end_digit [OF r]
    by simp
  have "take p ?ds \<noteq> []" using p by simp
  moreover have "drop p ?ds \<noteq> []" using p by simp
  ultimately have "scan_number ((if neg then ''-'' else []) @ (take p ?ds @ CHR ''.'' # drop p ?ds) @ r) =
     Some (dec_of neg ?ds (- int (length (drop p ?ds))), r)"
    using scan_number_signed [OF _ _ ip _ fr exp_part_num_end [OF r], of neg] hd p hd_show_nat_digit [of k]
    by (simp add: all_digits_def)
  also have "\<dots> = Some (JFloat ((if neg then -1 else 1) * int k) (int p - int (length ?ds)), r)"
    using dec_of_trailing [of ?ds neg 0] last_show_nat_nonzero [OF k] p by simp
  finally show ?thesis .
qed

text \<open>Fixed notation of an integral value: the digits, the zeros of the exponent,
  and \<open>.0\<close>.\<close>

lemma scan_float_integral:
  assumes k: "\<not> 10 dvd k" and r: "num_end r"
  shows "scan_number ((if neg then ''-'' else []) @ (show_nat k @ replicate z (CHR ''0'') @ ''.0'') @ r) =
         Some (JFloat ((if neg then -1 else 1) * int k) (int z), r)"
proof -
  let ?ds = "show_nat k"
  have k0: "0 < k" using k by (cases k) auto
  have hd: "hd ?ds \<noteq> CHR ''0''" "is_digit (hd ?ds)" using show_nat_hd [OF k0] hd_show_nat_digit by simp_all
  have ip: "int_part ((?ds @ replicate z (CHR ''0'') @ ''.0'') @ r) = ?ds @ replicate z (CHR ''0'')"
    using int_part_digits [of "?ds @ replicate z (CHR ''0'')" "''.0'' @ r"] hd by (simp add: is_digit_def)
  have fr: "frac_part (drop (length (?ds @ replicate z (CHR ''0''))) ((?ds @ replicate z (CHR ''0'') @ ''.0'') @ r)) =
      (''0'', r)"
    using frac_part_digits [of "''0''" r] num_end_digit [OF r] by (simp add: all_digits_def)
  have "scan_number ((if neg then ''-'' else []) @ (?ds @ replicate z (CHR ''0'') @ ''.0'') @ r) =
     Some (dec_of neg (?ds @ replicate (Suc z) (CHR ''0'')) (- 1), r)"
    using scan_number_signed [OF _ _ ip _ fr exp_part_num_end [OF r], of neg] hd
    by (simp add: all_digits_def replicate_append_same)
  also have "\<dots> = Some (JFloat ((if neg then -1 else 1) * int k) (int z), r)"
    using dec_of_trailing [of ?ds neg "Suc z"] last_show_nat_nonzero [OF k] by simp
  finally show ?thesis .
qed

lemma scan_float_zero:
  assumes r: "num_end r"
  shows "scan_number (''0.0'' @ r) = Some (JFloat 0 0, r)"
proof -
  have ip: "int_part (''0.0'' @ r) = ''0''" by (simp add: int_part_def)
  have fr: "frac_part (drop (length ''0'') (''0.0'' @ r)) = (''0'', r)"
    using frac_part_digits [of "''0''" r] num_end_digit [OF r] by (simp add: all_digits_def)
  have "scan_number ((if False then ''-'' else []) @ ''0.0'' @ r) = Some (dec_of False ''00'' (- 1), r)"
    using scan_number_signed [OF _ _ ip _ fr exp_part_num_end [OF r], of False]
    by (simp add: all_digits_def)
  then show ?thesis by (simp add: dec_of_def)
qed

text \<open>Fixed notation of a value below one: \<open>0.\<close>, zeros, the digits.\<close>

lemma scan_float_small:
  assumes k: "\<not> 10 dvd k" and r: "num_end r"
  shows "scan_number ((if neg then ''-'' else []) @ (''0.'' @ replicate z (CHR ''0'') @ show_nat k) @ r) =
         Some (JFloat ((if neg then -1 else 1) * int k) (- int z - int (length (show_nat k))), r)"
proof -
  let ?ds = "show_nat k"
  have ip: "int_part ((''0.'' @ replicate z (CHR ''0'') @ ?ds) @ r) = ''0''" by (simp add: int_part_def)
  have fr: "frac_part (drop (length ''0'') ((''0.'' @ replicate z (CHR ''0'') @ ?ds) @ r)) =
      (replicate z (CHR ''0'') @ ?ds, r)"
    using frac_part_digits [of "replicate z (CHR ''0'') @ ?ds" r] num_end_digit [OF r] by simp
  have "scan_number ((if neg then ''-'' else []) @ (''0.'' @ replicate z (CHR ''0'') @ ?ds) @ r) =
     Some (dec_of neg (CHR ''0'' # replicate z (CHR ''0'') @ ?ds) (- int z - int (length ?ds)), r)"
    using scan_number_signed [OF _ _ ip _ fr exp_part_num_end [OF r], of neg]
    by (simp add: all_digits_def)
  also have "\<dots> = Some (JFloat ((if neg then -1 else 1) * int k) (- int z - int (length ?ds)), r)"
    using dec_of_trailing [of "CHR ''0'' # replicate z (CHR ''0'') @ ?ds" neg 0] last_show_nat_nonzero [OF k]
      digits_val_zeros [of "Suc z" ?ds]
    by simp
  finally show ?thesis .
qed

lemma exp_part_e:
  assumes "P \<noteq> []" "all_digits P" "num_end r"
  shows "exp_part (CHR ''e'' # (if eneg then ''-'' else ''+'') @ P @ r) = (eneg, P, r)"
proof -
  have "takeWhile is_digit (P @ r) = P" using takeWhile_digits [OF assms(2) num_end_digit [OF assms(3)]] .
  with assms(1) show ?thesis by (cases eneg) (simp_all add: exp_part_def Let_def)
qed

text \<open>Scientific notation: the first digit, the others after a point, and the
  exponent with its sign and at least two digits.\<close>

lemma scan_float_sci:
  assumes k: "\<not> 10 dvd k" and r: "num_end r"
  shows "scan_number ((if neg then ''-'' else []) @
           ([hd (show_nat k)] @ (if tl (show_nat k) = [] then [] else CHR ''.'' # tl (show_nat k)) @ ''e'' @
            (if x < 0 then ''-'' else ''+'') @ pad2 (show_nat (nat \<bar>x\<bar>))) @ r) =
         Some (JFloat ((if neg then -1 else 1) * int k) (x - (int (length (show_nat k)) - 1)), r)"
proof -
  let ?ds = "show_nat k" and ?P = "pad2 (show_nat (nat \<bar>x\<bar>))"
  let ?E = "CHR ''e'' # (if x < 0 then ''-'' else ''+'') @ ?P @ r"
  let ?F = "if tl ?ds = [] then [] else CHR ''.'' # tl ?ds"
  have k0: "0 < k" using k by (cases k) auto
  have hd: "hd ?ds \<noteq> CHR ''0''" "is_digit (hd ?ds)" using show_nat_hd [OF k0] hd_show_nat_digit by simp_all
  have ds: "?ds = hd ?ds # tl ?ds" by simp
  have tl: "all_digits (tl ?ds)" using all_digits_take_drop(2) [of ?ds 1] by (simp add: drop_Suc)
  have ip: "int_part (([hd ?ds] @ ?F @ ''e'' @ (if x < 0 then ''-'' else ''+'') @ ?P) @ r) = [hd ?ds]"
    using int_part_digits [of "[hd ?ds]" "?F @ ?E"] hd by (simp add: all_digits_def is_digit_def)
  have fr: "frac_part (drop (length [hd ?ds]) (([hd ?ds] @ ?F @ ''e'' @ (if x < 0 then ''-'' else ''+'') @ ?P) @ r)) =
      (tl ?ds, ?E)"
  proof (cases "tl ?ds = []")
    case True
    then show ?thesis by (simp add: frac_part_def)
  next
    case False
    then show ?thesis using frac_part_digits [OF False tl, of ?E] by (simp add: is_digit_def)
  qed
  have ex: "exp_part ?E = (x < 0, ?P, r)" by (rule exp_part_e) (simp_all add: r)
  have "(if x < 0 then - int (digits_val ?P) else int (digits_val ?P)) = x" by simp
  then have "scan_number ((if neg then ''-'' else []) @ ([hd ?ds] @ ?F @ ''e'' @ (if x < 0 then ''-'' else ''+'') @ ?P) @ r) =
     Some (dec_of neg ?ds (x - int (length (tl ?ds))), r)"
    using scan_number_signed [OF _ _ ip _ fr ex, of neg] hd ds pad2_digits(3) [of "nat \<bar>x\<bar>"]
    by (simp add: all_digits_def)
  also have "\<dots> = Some (JFloat ((if neg then -1 else 1) * int k) (x - (int (length ?ds) - 1)), r)"
  proof -
    have "0 < length ?ds" by simp
    then have "int (length (tl ?ds)) = int (length ?ds) - 1" by (simp add: of_nat_diff Suc_le_eq)
    then show ?thesis using dec_of_trailing [of ?ds neg 0] last_show_nat_nonzero [OF k] by simp
  qed
  finally show ?thesis by simp
qed

lemma show_nat_zero: "show_nat 0 = ''0''"
proof -
  have "digit_char 0 = CHR ''0''" using digit_char_zero_iff [of 0] by simp
  then show ?thesis by (simp add: show_nat.simps del: digit_char_zero_iff)
qed

lemma scan_number_float_repr:
  assumes fn: "float_normal m e" and r: "num_end r"
  shows "scan_number (float_repr m e @ r) = Some (JFloat m e, r)"
proof (cases "m = 0")
  case True
  with fn have "e = 0" by (simp add: float_normal_def)
  with True show ?thesis using scan_float_zero [OF r] by (simp add: float_repr_def show_nat_zero)
next
  case False
  define k where "k = nat \<bar>m\<bar>"
  define n where "n = int (length (show_nat k))"
  define decpt where "decpt = n + e"
  have k: "\<not> 10 dvd k" using fn False by (simp add: float_normal_def k_def dvd_nat_abs_iff)
  have m: "(if m < 0 then -1 else 1) * int k = m" by (simp add: k_def)
  have fr: "float_repr m e = (if m < 0 then ''-'' else []) @
         (if decpt \<le> -4 \<or> 16 < decpt then
            (let x = decpt - 1 in
             [hd (show_nat k)] @ (if tl (show_nat k) = [] then [] else CHR ''.'' # tl (show_nat k)) @ ''e'' @
             (if x < 0 then ''-'' else ''+'') @ pad2 (show_nat (nat \<bar>x\<bar>)))
          else if decpt \<le> 0 then ''0.'' @ replicate (nat (- decpt)) (CHR ''0'') @ show_nat k
          else if n \<le> decpt then show_nat k @ replicate (nat (decpt - n)) (CHR ''0'') @ ''.0''
          else take (nat decpt) (show_nat k) @ CHR ''.'' # drop (nat decpt) (show_nat k))"
    by (simp add: float_repr_def k_def n_def decpt_def Let_def)
  consider "decpt \<le> -4 \<or> 16 < decpt" | "\<not> (decpt \<le> -4 \<or> 16 < decpt)" "decpt \<le> 0"
    | "\<not> (decpt \<le> -4 \<or> 16 < decpt)" "\<not> decpt \<le> 0" "n \<le> decpt"
    | "\<not> (decpt \<le> -4 \<or> 16 < decpt)" "\<not> decpt \<le> 0" "\<not> n \<le> decpt"
    by blast
  then show ?thesis
  proof cases
    case 1
    then show ?thesis
      using scan_float_sci [OF k r, of "m < 0" "decpt - 1"] m by (simp add: fr Let_def decpt_def n_def)
  next
    case 2
    then show ?thesis
      using scan_float_small [OF k r, of "m < 0" "nat (- decpt)"] m by (simp add: fr decpt_def n_def)
  next
    case 3
    then show ?thesis
      using scan_float_integral [OF k r, of "m < 0" "nat (decpt - n)"] m by (simp add: fr decpt_def)
  next
    case 4
    then have "0 < nat decpt" "nat decpt < length (show_nat k)" by (simp_all add: n_def)
    with 4 show ?thesis
      using scan_float_inner [OF k _ _ r, of "nat decpt" "m < 0"] m by (simp add: fr decpt_def n_def)
  qed
qed

subsection \<open>Layout\<close>

lemma skip_ws_nows: "s = [] \<or> \<not> is_ws (hd s) \<Longrightarrow> skip_ws s = s"
  by (cases s) (auto simp: skip_ws_def)

lemma skip_ws_space [simp]: "skip_ws (CHR '' '' # s) = skip_ws s"
  by (simp add: skip_ws_def is_ws_def)

lemma py_join_Cons: "py_join sep (x # xs) = x @ concat (map (\<lambda>y. sep @ y) xs)"
  by (induction xs arbitrary: x) simp_all

lemma json_dumps_JArr_Cons:
  "json_dumps (JArr (x # xs)) = CHR ''['' # json_dumps x @ concat (map (\<lambda>y. '', '' @ json_dumps y) xs) @ '']''"
  by (simp add: py_join_Cons comp_def)

lemma json_dumps_JObj_Cons:
  "json_dumps (JObj (kv # kvs)) = CHR ''{'' # member_text kv @ concat (map (\<lambda>y. '', '' @ member_text y) kvs) @ ''}''"
  by (simp add: py_join_Cons comp_def member_text_def split_def)

lemma json_str_Cons: "json_str s = CHR ''\"'' # concat (map esc_char s) @ [CHR ''\"'']"
  by (simp add: json_str_def)

lemma show_int_hd: "show_int i \<noteq> [] \<and> (hd (show_int i) = CHR ''-'' \<or> is_digit (hd (show_int i)))"
  by (simp add: show_int_def hd_show_nat_digit)

lemma float_repr_hd: "float_repr m e \<noteq> [] \<and> (hd (float_repr m e) = CHR ''-'' \<or> is_digit (hd (float_repr m e)))"
  by (auto simp: float_repr_def Let_def hd_show_nat_digit hd_append)

lemma json_dumps_hd:
  "json_dumps j \<noteq> [] \<and> hd (json_dumps j) \<in> {CHR ''n'', CHR ''t'', CHR ''f'', CHR ''\"'', CHR ''['', CHR ''{''} \<union>
     {c. c = CHR ''-'' \<or> is_digit c}"
  using show_int_hd [of] float_repr_hd by (cases j) (auto simp: json_str_def)

lemma json_dumps_nows: "\<not> is_ws (hd (json_dumps j))"
  using json_dumps_hd [of j] by (auto simp: is_ws_def is_digit_def)

lemma update_fresh: "k \<notin> fst ` set al \<Longrightarrow> AList.update k v al = al @ [(k, v)]"
  by (induction al) auto

lemma fold_update_fresh:
  "distinct (map fst (acc @ l)) \<Longrightarrow> fold (\<lambda>(k, v) d. AList.update k v d) l acc = acc @ l"
proof (induction l arbitrary: acc)
  case Nil
  then show ?case by simp
next
  case (Cons kv l)
  obtain k v where kv: "kv = (k, v)" by fastforce
  have "k \<notin> fst ` set acc" using Cons.prems kv by auto
  then have "AList.update k v acc = acc @ [(k, v)]" by (rule update_fresh)
  with Cons.IH [of "acc @ [(k, v)]"] Cons.prems kv show ?case by simp
qed

lemma dict_of_distinct: "distinct (map fst l) \<Longrightarrow> dict_of l = l"
  using fold_update_fresh [of "[]" l] by (simp add: dict_of_def)

lemma skip_ws_dumps [simp]: "skip_ws (json_dumps j @ r) = json_dumps j @ r"
  using json_dumps_hd [of j] json_dumps_nows [of j] by (intro skip_ws_nows) simp

lemma skip_ws_punct [simp]:
  "skip_ws (CHR '','' # s) = CHR '','' # s" "skip_ws (CHR '']'' # s) = CHR '']'' # s"
  "skip_ws (CHR ''}'' # s) = CHR ''}'' # s" "skip_ws (CHR '':'' # s) = CHR '':'' # s"
  "skip_ws (CHR ''\"'' # s) = CHR ''\"'' # s"
  by (simp_all add: skip_ws_def is_ws_def)

lemma num_end_punct [simp]:
  "num_end (CHR '','' # s)" "num_end (CHR '']'' # s)" "num_end (CHR ''}'' # s)"
  by (simp_all add: num_end_def is_digit_def)

lemma num_end_sep: "num_end (concat (map (\<lambda>y. '', '' @ g y) ys) @ c # r) \<longleftrightarrow> ys \<noteq> [] \<or> num_end (c # r)"
  by (cases ys) simp_all

lemma parse_elems:
  assumes "\<And>x r f. x \<in> set xs \<Longrightarrow> num_end r \<Longrightarrow> length (json_dumps x @ r) < f \<Longrightarrow>
             parse f PValue (json_dumps x @ r) = POk x r"
  shows "length (concat (map (\<lambda>y. '', '' @ json_dumps y) xs) @ CHR '']'' # r) < f \<Longrightarrow>
         parse f (PElems acc) (concat (map (\<lambda>y. '', '' @ json_dumps y) xs) @ CHR '']'' # r) = POk (JArr (acc @ xs)) r"
  using assms
proof (induction xs arbitrary: acc f)
  case Nil
  then obtain f' where "f = Suc f'" by (cases f) auto
  then show ?case by simp
next
  case (Cons y ys)
  let ?rest = "concat (map (\<lambda>y. '', '' @ json_dumps y) ys) @ CHR '']'' # r"
  obtain f' where f: "f = Suc f'" using Cons.prems(1) by (cases f) auto
  have l: "length (json_dumps y @ ?rest) < f'" "length ?rest < f'" using Cons.prems(1) f by simp_all
  have y: "parse f' PValue (json_dumps y @ ?rest) = POk y ?rest"
    using Cons.prems(2) [of y ?rest f'] l num_end_sep [of json_dumps ys "CHR '']''" r] by simp
  have ys: "parse f' (PElems (acc @ [y])) ?rest = POk (JArr ((acc @ [y]) @ ys)) r"
    using Cons.IH [OF l(2)] Cons.prems(2) by simp
  show ?case using y ys by (simp add: f)
qed

lemma parse_pair:
  assumes v: "parse g PValue (json_dumps v @ rest) = POk v rest"
  shows "parse (Suc g) (PPair acc) (concat (map esc_char k) @ CHR ''\"'' # '': '' @ json_dumps v @ rest) =
         parse g (PMembers (acc @ [(k, v)])) rest"
proof -
  have "scan_string [] (concat (map esc_char k) @ CHR ''\"'' # '': '' @ json_dumps v @ rest) =
        Some (k, '': '' @ json_dumps v @ rest)"
    using scan_json_str [of "[]" k] by simp
  with v show ?thesis by (simp add: Let_def)
qed

lemma parse_members:
  assumes "\<And>k v r f. (k, v) \<in> set kvs \<Longrightarrow> num_end r \<Longrightarrow> length (json_dumps v @ r) < f \<Longrightarrow>
             parse f PValue (json_dumps v @ r) = POk v r"
  shows "length (concat (map (\<lambda>y. '', '' @ member_text y) kvs) @ CHR ''}'' # r) < f \<Longrightarrow>
         parse f (PMembers acc) (concat (map (\<lambda>y. '', '' @ member_text y) kvs) @ CHR ''}'' # r) =
         POk (JObj (dict_of (acc @ kvs))) r"
  using assms
proof (induction kvs arbitrary: acc f)
  case Nil
  then obtain f' where "f = Suc f'" by (cases f) auto
  then show ?case by simp
next
  case (Cons kv kvs)
  obtain k v where kv: "kv = (k, v)" by fastforce
  let ?rest = "concat (map (\<lambda>y. '', '' @ member_text y) kvs) @ CHR ''}'' # r"
  let ?p = "concat (map esc_char k) @ CHR ''\"'' # '': '' @ json_dumps v @ ?rest"
  have "2 \<le> f" using Cons.prems(1) by simp
  define g where "g = f - 2"
  have f: "f = Suc (Suc g)" using \<open>2 \<le> f\<close> by (simp add: g_def)
  have lp: "length (json_dumps v @ ?rest) < g" "length ?rest < g"
    using Cons.prems(1) f kv by (simp_all add: member_text_def json_str_def)
  have ne: "num_end ?rest" using num_end_sep [of member_text kvs "CHR ''}''" r] by simp
  have v: "parse g PValue (json_dumps v @ ?rest) = POk v ?rest"
    using Cons.prems(2) [of k v ?rest g] kv lp ne by simp
  have m: "parse g (PMembers (acc @ [(k, v)])) ?rest = POk (JObj (dict_of ((acc @ [(k, v)]) @ kvs))) r"
  proof -
    have h: "\<And>k v r f. (k, v) \<in> set kvs \<Longrightarrow> num_end r \<Longrightarrow> length (json_dumps v @ r) < f \<Longrightarrow>
               parse f PValue (json_dumps v @ r) = POk v r"
      using Cons.prems(2) by (metis list.set_intros(2))
    show ?thesis using Cons.IH [OF lp(2) h, where acc = "acc @ [(k, v)]"] by simp
  qed
  have "parse f (PMembers acc) ('', '' @ member_text kv @ ?rest) = parse (Suc g) (PPair acc) ?p"
    by (simp add: f kv member_text_def json_str_def Let_def)
  also have "\<dots> = POk (JObj (dict_of ((acc @ [(k, v)]) @ kvs))) r" using parse_pair [OF v] m by simp
  finally show ?case by (simp add: kv)
qed

lemma starts_hd: "starts p s \<Longrightarrow> p \<noteq> [] \<Longrightarrow> s \<noteq> [] \<and> hd s = hd p"
  unfolding starts_def by (cases p; cases s) auto

lemma parse_number_start:
  assumes "s \<noteq> []" "hd s = CHR ''-'' \<or> is_digit (hd s)"
  shows "parse (Suc g) PValue s = (case scan_number s of None \<Rightarrow> PErr | Some (v, r) \<Rightarrow> POk v r)"
proof -
  have h: "hd s \<noteq> CHR ''\"''" "hd s \<noteq> CHR ''{''" "hd s \<noteq> CHR ''[''" "hd s \<noteq> CHR ''n''" "hd s \<noteq> CHR ''t''"
    "hd s \<noteq> CHR ''f''"
    using assms(2) by (auto simp: is_digit_def)
  then have "\<not> starts ''null'' s" "\<not> starts ''true'' s" "\<not> starts ''false'' s"
    using starts_hd [of "''null''" s] starts_hd [of "''true''" s] starts_hd [of "''false''" s] by auto
  with h assms(1) show ?thesis by simp
qed

lemma parse_dumps:
  "json_wf j \<Longrightarrow> num_end r \<Longrightarrow> length (json_dumps j @ r) < f \<Longrightarrow> parse f PValue (json_dumps j @ r) = POk j r"
proof (induction j arbitrary: r f)
  case JNull
  then obtain g where "f = Suc g" by (cases f) auto
  then show ?case by (simp add: starts_def)
next
  case (JBool b)
  then obtain g where "f = Suc g" by (cases f) auto
  then show ?case by (simp add: starts_def)
next
  case (JInt i)
  then obtain g where f: "f = Suc g" by (cases f) auto
  show ?case
    using parse_number_start [of "show_int i @ r" g] show_int_hd [of i] scan_number_show_int [OF JInt(2)]
    by (simp add: f hd_append)
next
  case (JFloat m e)
  then obtain g where f: "f = Suc g" by (cases f) auto
  show ?case
    using parse_number_start [of "float_repr m e @ r" g] float_repr_hd [of m e]
      scan_number_float_repr [of m e r] JFloat
    by (simp add: f hd_append)
next
  case (JStr s)
  then obtain g where f: "f = Suc g" by (cases f) auto
  show ?case using scan_json_str [of "[]" s r] by (simp add: f json_str_def)
next
  case (JArr xs)
  have "0 < f" using JArr.prems(3) by simp
  then obtain g where f: "f = Suc g" using gr0_implies_Suc by blast
  show ?case
  proof (cases xs)
    case Nil
    then show ?thesis by (simp add: f)
  next
    case (Cons y ys)
    let ?rest = "concat (map (\<lambda>y. '', '' @ json_dumps y) ys) @ CHR '']'' # r"
    have IH: "\<And>x r f. x \<in> set xs \<Longrightarrow> num_end r \<Longrightarrow> length (json_dumps x @ r) < f \<Longrightarrow>
                parse f PValue (json_dumps x @ r) = POk x r"
      using JArr.IH JArr.prems(1) by (simp add: list_all_iff)
    have l: "length (json_dumps y @ ?rest) < g" "length ?rest < g" using JArr.prems(3) f Cons
      by (simp_all add: json_dumps_JArr_Cons del: json_dumps.simps)
    have ne: "num_end ?rest" using num_end_sep [of json_dumps ys "CHR '']''" r] by simp
    have y: "parse g PValue (json_dumps y @ ?rest) = POk y ?rest" using IH [of y ?rest g] Cons l ne by simp
    have ys: "parse g (PElems [y]) ?rest = POk (JArr ([y] @ ys)) r"
      using parse_elems [of ys r g "[y]"] IH Cons l by simp
    have h: "hd (json_dumps y @ ?rest) \<noteq> CHR '']''"
      using json_dumps_hd [of y] by (auto simp: hd_append is_digit_def)
    show ?thesis using y ys h Cons json_dumps_hd [of y]
      by (simp add: f json_dumps_JArr_Cons Let_def del: json_dumps.simps)
  qed
next
  case (JObj kvs)
  have "0 < f" using JObj.prems(3) by simp
  then obtain g where f: "f = Suc g" using gr0_implies_Suc by blast
  show ?case
  proof (cases kvs)
    case Nil
    then show ?thesis by (simp add: f)
  next
    case (Cons kv kvs')
    obtain k v where kv: "kv = (k, v)" by fastforce
    let ?rest = "concat (map (\<lambda>y. '', '' @ member_text y) kvs') @ CHR ''}'' # r"
    have IH: "\<And>k v r f. (k, v) \<in> set kvs \<Longrightarrow> num_end r \<Longrightarrow> length (json_dumps v @ r) < f \<Longrightarrow>
                parse f PValue (json_dumps v @ r) = POk v r"
      using JObj.IH JObj.prems(1) by (fastforce simp: list_all_iff)
    have len: "length (json_dumps (JObj kvs) @ r) = 5 + length (concat (map esc_char k)) + length (json_dumps v @ ?rest)"
      using Cons kv by (simp add: json_dumps_JObj_Cons member_text_def json_str_def del: json_dumps.simps)
    have "2 \<le> g" using JObj.prems(3) f len by simp
    define g' where "g' = g - 1"
    have g: "g = Suc g'" using \<open>2 \<le> g\<close> by (simp add: g'_def)
    have l: "length (json_dumps v @ ?rest) < g'" "length ?rest < g'"
      using JObj.prems(3) f g len by simp_all
    have ne: "num_end ?rest" using num_end_sep [of member_text kvs' "CHR ''}''" r] by simp
    have v: "parse g' PValue (json_dumps v @ ?rest) = POk v ?rest" using IH [of k v ?rest g'] Cons kv l ne by simp
    have m: "parse g' (PMembers [(k, v)]) ?rest = POk (JObj (dict_of ([(k, v)] @ kvs'))) r"
    proof -
      have IH': "\<And>k v r f. (k, v) \<in> set kvs' \<Longrightarrow> num_end r \<Longrightarrow> length (json_dumps v @ r) < f \<Longrightarrow>
                   parse f PValue (json_dumps v @ r) = POk v r"
        using IH Cons by (metis append.simps(2) list.set_intros(2))
      show ?thesis using parse_members [OF IH' l(2), where acc = "[(k, v)]"] by simp
    qed
    have d: "dict_of ([(k, v)] @ kvs') = kvs" using JObj.prems(1) Cons kv by (simp add: dict_of_distinct)
    have "parse f PValue (json_dumps (JObj kvs) @ r) = parse g (PPair []) (concat (map esc_char k) @ CHR ''\"'' # '': '' @ json_dumps v @ ?rest)"
      using Cons kv by (simp add: f json_dumps_JObj_Cons member_text_def json_str_def Let_def del: json_dumps.simps)
    also have "\<dots> = POk (JObj kvs) r" using parse_pair [OF v, of "[]" k] m d by (simp add: g)
    finally show ?thesis .
  qed
qed

subsection \<open>The round trip\<close>

lemma loads_dumps:
  "PyJson.json_wf j \<Longrightarrow> json_loads (json_dumps j) = Some j"
proof -
  assume wf: "PyJson.json_wf j"
  have ne: "num_end []" by (simp add: num_end_def)
  have p: "parse (Suc (length (json_dumps j))) PValue (json_dumps j) = POk j []"
    using parse_dumps [OF wf ne, of "Suc (length (json_dumps j))"] by (simp del: parse.simps)
  have sk: "skip_ws (json_dumps j) = json_dumps j" using skip_ws_dumps [of j "[]"] by simp
  show ?thesis unfolding json_loads_def Let_def sk p by (simp add: skip_ws_def)
qed

text \<open>C15. Every well-formed value that \<open>json.dumps\<close> writes (finite floats in
  CPython's shortest repr, objects with distinct keys) is read back by
  \<open>json.loads\<close> as the same value: the JSON text the ETL stores in the
  \<open>images\<close>, \<open>tags\<close>, \<open>hair\<close> and \<open>address\<close> columns decodes to what was stored.\<close>

theorem json_loads_dumps:
  "PyJson.json_wf j \<Longrightarrow> json_loads (json_dumps j) = Some j"
  by (rule loads_dumps)

theorem json_loads_dumps_witness:
  "PyJson.json_wf (JObj [(''tags'', JArr [JStr ''a\"b'', JInt (-12)]), (''likes'', JFloat 25 (-1))]) \<and>
   json_loads (json_dumps (JObj [(''tags'', JArr [JStr ''a\"b'', JInt (-12)]), (''likes'', JFloat 25 (-1))])) =
   Some (JObj [(''tags'', JArr [JStr ''a\"b'', JInt (-12)]), (''likes'', JFloat 25 (-1))])"
  using json_loads_dumps [of "JObj [(''tags'', JArr [JStr ''a\"b'', JInt (-12)]), (''likes'', JFloat 25 (-1))]"]
  by (simp add: float_normal_def)

end
