(* ===== verification/FloatFormat.thy ===== *)
theory FloatFormat
  imports JsonText
begin

text \<open>
  Python's \<open>format(x, '.2f')\<close> of a \<open>float\<close>, used by src/view_db.py for
  the price columns: the exact rational is rounded to a binary double and the
  double to two decimal places. The lemmas bound both roundings
  (\<open>rnd_even_near\<close>, \<open>rnd_even_unique\<close>), bound the binary exponent by the bit
  lengths (\<open>nbits_bounds\<close>, \<open>flog2_le\<close>), and show that a value with at most two
  decimal places below \<open>2 ^ 46\<close> is printed exactly (\<open>format_2f_exact\<close>).
\<close>

text \<open>
  \<open>f"{value:.2f}"\<close> formats the binary double (an \<open>int\<close> is first converted
  to \<open>float\<close>): the nonnegative rational \<open>a / b\<close> is rounded to the nearest
  double \<open>M * 2 ^ E\<close> (53-bit significand, ties to even, subnormals below
  \<open>2 ^ -1022\<close>), then to the nearest multiple of \<open>1/100\<close>, ties to even, as
  CPython's correctly rounded \<open>dtoa\<close> does. A \<open>float\<close> read from the
  database is \<open>SReal m e\<close>, the double whose shortest repr is \<open>m * 10 ^ e\<close>,
  i.e. the double nearest to that decimal.
\<close>

definition rnd_even :: "int \<Rightarrow> int \<Rightarrow> int" where
  "rnd_even a b =
     (let q = a div b; r = a mod b
      in if 2 * r < b then q else if b < 2 * r then q + 1 else if even q then q else q + 1)"

fun nbits :: "nat \<Rightarrow> nat" where
  "nbits n = (if n = 0 then 0 else Suc (nbits (n div 2)))"

text \<open>\<open>\<lfloor>log2 (a / b)\<rfloor>\<close> for positive \<open>a\<close>, \<open>b\<close>: it is \<open>k\<close> or \<open>k - 1\<close>
  for \<open>k\<close> the difference of the bit lengths.\<close>

definition flog2 :: "int \<Rightarrow> int \<Rightarrow> int" where
  "flog2 a b =
     (let k = int (nbits (nat a)) - int (nbits (nat b))
      in if (if 0 \<le> k then b * 2 ^ nat k \<le> a else b \<le> a * 2 ^ nat (- k)) then k else k - 1)"

definition dbl_round :: "int \<Rightarrow> int \<Rightarrow> int \<times> int" where
  "dbl_round a b =
     (if a = 0 then (0, 0)
      else let E = max (flog2 a b - 52) (-1074)
           in (if 0 \<le> E then rnd_even a (b * 2 ^ nat E) else rnd_even (a * 2 ^ nat (- E)) b, E))"

definition cents :: "int \<times> int \<Rightarrow> int" where
  "cents ME = (case ME of (M, E) \<Rightarrow>
     if 0 \<le> E then M * 100 * 2 ^ nat E else rnd_even (M * 100) (2 ^ nat (- E)))"

definition format_2f :: "bool \<Rightarrow> int \<Rightarrow> int \<Rightarrow> string" where
  "format_2f neg a b =
     (let (M, E) = dbl_round a b; sign = (if neg then ''-'' else [])
      in if 0 \<le> E \<and> 2 ^ 1024 \<le> M * 2 ^ nat E then sign @ ''inf''
         else let N = cents (M, E)
              in sign @ show_nat (nat (N div 100)) @ CHR ''.'' # pad2 (show_nat (nat (N mod 100))))"

text \<open>The decimal with two places of a number of hundredths, as it should read.\<close>

definition decimal_2dp :: "bool \<Rightarrow> nat \<Rightarrow> string" where
  "decimal_2dp neg N =
     (if neg then ''-'' else []) @ show_nat (N div 100) @ CHR ''.'' # pad2 (show_nat (N mod 100))"

subsection \<open>Rounding bounds\<close>

lemma rnd_even_near:
  assumes "0 < b" shows "\<bar>2 * (rnd_even x b * b - x)\<bar> \<le> b"
proof -
  define q r where "q = x div b" and "r = x mod b"
  have x: "x = q * b + r" and r: "0 \<le> r" "r < b"
    using assms by (simp_all add: q_def r_def)
  have "rnd_even x b = q \<or> rnd_even x b = q + 1"
    by (simp add: rnd_even_def Let_def q_def r_def)
  moreover have "rnd_even x b = q \<Longrightarrow> 2 * r \<le> b"
    using r by (auto simp: rnd_even_def Let_def q_def r_def split: if_splits)
  moreover have "rnd_even x b = q + 1 \<Longrightarrow> b \<le> 2 * r"
    using r by (auto simp: rnd_even_def Let_def q_def r_def split: if_splits)
  ultimately show ?thesis
    using r unfolding x by (auto simp: algebra_simps abs_if)
qed

lemma div_mod_eqI:
  fixes x b q r :: int
  assumes "x = q * b + r" "0 \<le> r" "r < b"
  shows "x div b = q" "x mod b = r"
  using assms by (simp_all add: int_div_pos_eq int_mod_pos_eq)

lemma rnd_even_unique:
  assumes b: "0 < b" and d: "\<bar>2 * (q * b - x)\<bar> < b" shows "rnd_even x b = q"
proof (cases "q * b \<le> x")
  have d2: "2 * (q * b - x) < b" "- (2 * (q * b - x)) < b" using d abs_less_iff by blast+
  case True
  have r: "0 \<le> x - q * b" "2 * (x - q * b) < b" using True d2 by (simp_all add: algebra_simps)
  have e: "x = q * b + (x - q * b)" by simp
  have "x div b = q" "x mod b = x - q * b"
    using div_mod_eqI [OF e] r by simp_all
  then show ?thesis using r by (simp add: rnd_even_def Let_def)
next
  have d2: "2 * (q * b - x) < b" "- (2 * (q * b - x)) < b" using d abs_less_iff by blast+
  case False
  have r: "0 < x - (q - 1) * b" "b < 2 * (x - (q - 1) * b)" "x - (q - 1) * b < b"
    using False d2 by (simp_all add: algebra_simps)
  have e: "x = (q - 1) * b + (x - (q - 1) * b)" by simp
  have "x div b = q - 1" "x mod b = x - (q - 1) * b"
    using div_mod_eqI [OF e] r by simp_all
  then show ?thesis using r by (simp add: rnd_even_def Let_def)
qed

lemma nbits_0: "nbits 0 = 0"
  by (simp only: nbits.simps [of 0]) simp

lemma nbits_Suc: "0 < n \<Longrightarrow> nbits n = Suc (nbits (n div 2))"
  by (simp only: nbits.simps [of n]) simp

lemma nbits_bounds:
  "0 < n \<Longrightarrow> 2 ^ (nbits n - 1) \<le> n \<and> n < 2 ^ nbits n"
proof (induction n rule: nbits.induct)
  case (1 n)
  have nb: "nbits n = Suc (nbits (n div 2))" using 1(2) by (rule nbits_Suc)
  show ?case
  proof (cases "n < 2")
    case True
    with 1(2) have "n = 1" by simp
    then show ?thesis by (simp add: nbits_Suc nbits_0 del: nbits.simps)
  next
    case False
    then have h: "0 < n div 2" by simp
    define k where "k = nbits (n div 2)"
    have ih: "2 ^ (k - 1) \<le> n div 2" "n div 2 < 2 ^ k"
      using 1(1) 1(2) h unfolding k_def by (simp_all del: nbits.simps)
    have pos: "0 < k" using h unfolding k_def by (simp add: nbits_Suc del: nbits.simps)
    have "2 ^ k = (2::nat) * 2 ^ (k - 1)"
      using pos by (metis Suc_diff_1 power_Suc)
    then show ?thesis using ih unfolding nb k_def [symmetric] by simp linarith
  qed
qed

lemma flog2_le:
  assumes a: "0 < a" and b: "0 < b" and j: "0 \<le> j" and lt: "a < b * 2 ^ nat (j + 1)"
  shows "flog2 a b \<le> j"
  supply nbits.simps [simp del]
proof (rule ccontr)
  assume "\<not> flog2 a b \<le> j"
  then have F: "j + 1 \<le> flog2 a b" by simp
  define k where "k = int (nbits (nat a)) - int (nbits (nat b))"
  have fl: "flog2 a b = (if (if 0 \<le> k then b * 2 ^ nat k \<le> a else b \<le> a * 2 ^ nat (- k)) then k else k - 1)"
    unfolding flog2_def Let_def k_def ..
  have low: "b * 2 ^ nat (flog2 a b) \<le> a"
  proof (cases "(if 0 \<le> k then b * 2 ^ nat k \<le> a else b \<le> a * 2 ^ nat (- k))")
    case True
    then have "flog2 a b = k" using fl by simp
    with True F j show ?thesis by (simp split: if_splits)
  next
    case False
    then have fk: "flog2 a b = k - 1" using fl by simp
    let ?na = "nbits (nat a)" and ?nb = "nbits (nat b)"
    have ka: "2 ^ (?na - 1) \<le> nat a" and kb: "nat b < 2 ^ ?nb"
      using nbits_bounds [of "nat a"] nbits_bounds [of "nat b"] a b by simp_all
    have e: "?na - 1 = ?nb + nat (k - 1)" using F j fk k_def by linarith
    have "nat b * 2 ^ nat (k - 1) < 2 ^ ?nb * 2 ^ nat (k - 1)"
      using kb by simp
    also have "\<dots> = 2 ^ (?na - 1)" by (simp only: e power_add)
    finally have lt2: "nat b * 2 ^ nat (k - 1) < 2 ^ (?na - 1)" .
    have "nat b * 2 ^ nat (k - 1) \<le> nat a" using less_le_trans [OF lt2 ka] by simp
    then have "int (nat b * 2 ^ nat (k - 1)) \<le> int (nat a)" by linarith
    then show ?thesis using a b fk by simp
  qed
  have "b * 2 ^ nat (j + 1) \<le> b * 2 ^ nat (flog2 a b)"
    using F j b by (simp add: power_increasing)
  with low lt show False by simp
qed

lemma dbl_round_small:
  assumes a: "0 < a" and b: "0 < b" and lt: "a < b * 2 ^ 46"
  obtains M p where "dbl_round a b = (M, - int p)" "7 \<le> p" "\<bar>2 * (M * b - a * 2 ^ p)\<bar> \<le> b"
proof -
  have "flog2 a b \<le> 45" using flog2_le [OF a b, of 45] lt by simp
  then have E: "max (flog2 a b - 52) (-1074) \<le> -7" by simp
  define p where "p = nat (- max (flog2 a b - 52) (-1074))"
  have p: "7 \<le> p" "max (flog2 a b - 52) (-1074) = - int p" using E by (simp_all add: p_def)
  have d: "dbl_round a b = (rnd_even (a * 2 ^ p) b, - int p)"
    using a p by (simp add: dbl_round_def Let_def)
  show ?thesis
    by (rule that [OF d p(1)]) (use rnd_even_near [OF b, of "a * 2 ^ p"] in simp)
qed

lemma cents_exact:
  assumes b: "0 < b" and p: "7 \<le> p" and near: "\<bar>2 * (M * b - a * 2 ^ p)\<bar> \<le> b"
    and N: "N * b = 100 * a"
  shows "cents (M, - int p) = N"
proof -
  have pos: "(0::int) < 2 ^ p" by simp
  have "(128::int) \<le> 2 ^ p" using power_increasing [OF p, of "2::int"] by simp
  then have big: "100 * b < 2 ^ p * b" using b by simp
  have "\<bar>2 * (N * 2 ^ p - M * 100)\<bar> * b = \<bar>2 * (N * 2 ^ p - M * 100) * b\<bar>"
    using b by (simp add: abs_mult)
  also have "2 * (N * 2 ^ p - M * 100) * b = (-100) * (2 * (M * b - a * 2 ^ p))"
    using N by (simp add: algebra_simps)
  also have "\<bar>(-100) * (2 * (M * b - a * 2 ^ p))\<bar> = 100 * \<bar>2 * (M * b - a * 2 ^ p)\<bar>"
    by (simp only: abs_mult)
  also have "\<dots> \<le> 100 * b" using near by simp
  finally have "\<bar>2 * (N * 2 ^ p - M * 100)\<bar> * b < 2 ^ p * b" using big by simp
  then have "\<bar>2 * (N * 2 ^ p - M * 100)\<bar> < 2 ^ p" using b by simp
  then have "rnd_even (M * 100) (2 ^ p) = N" by (rule rnd_even_unique [OF pos])
  then show ?thesis using p by (simp add: cents_def)
qed

lemma format_2f_cents:
  assumes "dbl_round a b = (M, - int p)" "0 < p" "0 \<le> cents (M, - int p)"
  shows "format_2f neg a b = decimal_2dp neg (nat (cents (M, - int p)))"
  using assms by (simp add: format_2f_def decimal_2dp_def Let_def nat_div_distrib nat_mod_distrib)

theorem format_2f_exact:
  assumes a: "0 \<le> a" and b: "0 < b" and dv: "b dvd 100 * a" and lt: "a < b * 2 ^ 46"
  shows "format_2f neg a b = decimal_2dp neg (nat (100 * a div b))"
proof (cases "a = 0")
  case True
  then show ?thesis by (simp add: format_2f_def dbl_round_def cents_def decimal_2dp_def)
next
  case False
  with a have a0: "0 < a" by simp
  obtain M p where d: "dbl_round a b = (M, - int p)" and p: "7 \<le> p"
    and near: "\<bar>2 * (M * b - a * 2 ^ p)\<bar> \<le> b"
    using dbl_round_small [OF a0 b lt] by blast
  have "100 * a div b * b = 100 * a" using dv by simp
  then have c: "cents (M, - int p) = 100 * a div b" by (rule cents_exact [OF b p near])
  have "0 \<le> 100 * a div b" using a b by (simp add: pos_imp_zdiv_nonneg_iff)
  then show ?thesis using format_2f_cents [OF d] p c by simp
qed

end
