(* ===== verification/Inspector.thy ===== *)
theory Inspector
  imports Sqlite FloatFormat "HOL-Library.Multiset"
begin

text \<open>
  The inspector src/view_db.py: \<open>format_value\<close>, \<open>get_table_info\<close>,
  \<open>print_table_data\<close>, \<open>view_database\<close> and the command line. It reads the
  database the ETL writes (theory \<open>Sqlite\<close>) and prints it. The printed lines are
  values of the datatype \<open>line\<close>: a line whose text is ASCII apart from the
  interpolated values is a constructor holding those values (the Russian fixed
  text is the constructor), a line that is ASCII throughout is \<open>Out\<close> of its text.
  A failing SQL statement ends the run with the lines printed so far and the
  error line of the \<open>except sqlite3.Error\<close> handler.
\<close>

subsection \<open>Python's \<open>str\<close> and \<open>repr\<close> of decoded values\<close>

definition hex2 :: "nat \<Rightarrow> string" where
  "hex2 n = [hex_char (n div 16 mod 16), hex_char (n mod 16)]"

text \<open>\<open>str.isprintable\<close> on code points 0 to 255: ASCII graphic characters and space,
  and the Latin-1 letters and signs except the soft hyphen (U+0080 to U+00A0 are
  control characters or a separator).\<close>

definition py_printable :: "char \<Rightarrow> bool" where
  "py_printable c \<longleftrightarrow>
     (let n = of_char c :: nat in (32 \<le> n \<and> n < 127) \<or> (161 \<le> n \<and> n \<noteq> 173))"

text \<open>\<open>unicode_repr\<close>: the quote and the backslash escaped, \<open>\t \n \r\<close> named, other
  unprintable characters as \<open>\xhh\<close>.\<close>

definition repr_char :: "char \<Rightarrow> char \<Rightarrow> string" where
  "repr_char q c =
     (if c = q \<or> c = backslash then [backslash, c]
      else if c = CHR 0x09 then [backslash, CHR ''t'']
      else if c = CHR 0x0A then [backslash, CHR ''n'']
      else if c = CHR 0x0D then [backslash, CHR ''r'']
      else if py_printable c then [c]
      else backslash # CHR ''x'' # hex2 (of_char c))"

text \<open>Single quotes, unless the string holds a single quote and no double quote.\<close>

definition py_str_repr :: "string \<Rightarrow> string" where
  "py_str_repr s =
     (let q = (if CHR 0x27 \<in> set s \<and> CHR 0x22 \<notin> set s then CHR 0x22 else CHR 0x27)
      in q # concat (map (repr_char q) s) @ [q])"

fun py_repr :: "json \<Rightarrow> string" where
  "py_repr JNull = ''None''"
| "py_repr (JBool b) = (if b then ''True'' else ''False'')"
| "py_repr (JInt i) = show_int i"
| "py_repr (JFloat m e) = float_repr m e"
| "py_repr (JStr s) = py_str_repr s"
| "py_repr (JArr xs) = CHR ''['' # py_join '', '' (map py_repr xs) @ '']''"
| "py_repr (JObj kvs) =
     CHR ''{'' # py_join '', '' (map (\<lambda>(k, v). py_str_repr k @ '': '' @ py_repr v) kvs) @ ''}''"

text \<open>\<open>str(x)\<close> and \<open>f"{x}"\<close>: a string is itself, anything else its \<open>repr\<close>.\<close>

fun py_str :: "json \<Rightarrow> string" where
  "py_str (JStr s) = s"
| "py_str v = py_repr v"

text \<open>A column value as \<open>sqlite3\<close> returns it (\<open>None\<close>, \<open>int\<close>, \<open>float\<close>, \<open>str\<close>),
  its \<open>str\<close> and its truth value.\<close>

fun sql_str :: "sql_value \<Rightarrow> string" where
  "sql_str SNull = ''None''"
| "sql_str (SInteger i) = show_int i"
| "sql_str (SReal m e) = float_repr m e"
| "sql_str (SText s) = s"

fun sql_truthy :: "sql_value \<Rightarrow> bool" where
  "sql_truthy SNull = False"
| "sql_truthy (SInteger i) = (i \<noteq> 0)"
| "sql_truthy (SReal m e) = (m \<noteq> 0)"
| "sql_truthy (SText s) = (s \<noteq> [])"

subsection \<open>The \<open>:.2f\<close> format of a number\<close>

fun sql_format_2f :: "sql_value \<Rightarrow> string" where
  "sql_format_2f (SInteger i) = format_2f (i < 0) \<bar>i\<bar> 1"
| "sql_format_2f (SReal m e) =
     (if 0 \<le> e then format_2f (m < 0) (\<bar>m\<bar> * 10 ^ nat e) 1 else format_2f (m < 0) \<bar>m\<bar> (10 ^ nat (- e)))"
| "sql_format_2f v = sql_str v"

subsection \<open>format_value\<close>

text \<open>
  The string \<open>format_value\<close> returns. \<open>Shown s\<close> is the text \<open>s\<close>;
  \<open>ShownMore s n\<close> is \<open>f"{s} (+ \<dots> {n})"\<close>, the first image and the number of
  the others; \<open>ShownDict items h\<close> is \<open>"{" + ", ".join(items) + "}"\<close> where the
  hidden-count item \<open>f"... ({h} \<dots>)"\<close> is appended when \<open>h\<close> is present. The
  Russian words of the last two are their constructors.
\<close>

datatype shown = Shown string | ShownMore string nat | ShownDict "string list" "nat option"

definition json_columns :: "string list" where
  "json_columns = [''images'', ''tags'', ''hair'', ''address'', ''bank'', ''company'']"

text \<open>\<open>", ".join(data)\<close> raises \<open>TypeError\<close> on an item that is not a string.\<close>

fun join_item :: "json \<Rightarrow> string result" where
  "join_item (JStr s) = Inr s"
| "join_item _ = Inl TypeError"

text \<open>The body of the \<open>try\<close> block after \<open>json.loads\<close> (lines 40 to 57).\<close>

definition format_json :: "string \<Rightarrow> json \<Rightarrow> shown result" where
  "format_json key data =
     (case data of
        JArr xs \<Rightarrow>
          (if key = ''images'' \<and> 0 < length xs then
             (if 1 < length xs then Inr (ShownMore (py_str (xs ! 0)) (length xs - 1))
              else Inr (Shown (py_str (xs ! 0))))
           else if key = ''tags'' \<and> 0 < length xs then
             (case map_err join_item xs of Inl e \<Rightarrow> Inl e | Inr ss \<Rightarrow> Inr (Shown (py_join '', '' ss)))
           else Inr (Shown (py_str data)))
      | JObj kvs \<Rightarrow>
          (if kvs \<noteq> [] then
             Inr (ShownDict (map (\<lambda>(k, v). k @ '': '' @ py_str v) (take 3 kvs))
                    (if 3 < length kvs then Some (length kvs - 3) else None))
           else Inr (Shown (py_str data)))
      | _ \<Rightarrow> Inr (Shown (py_str data)))"

text \<open>
  \<open>format_value\<close>: \<open>NULL\<close> first; a non-empty value of a JSON column is decoded,
  and on \<open>json.JSONDecodeError\<close> or \<open>TypeError\<close> (\<open>json.loads\<close> of a number, a
  non-string tag) shown as \<open>str(value)\<close>; a long description or body is cut to 47
  characters and \<open>...\<close>; a price or discount is shown with two decimals.
\<close>

definition format_value :: "string \<Rightarrow> sql_value \<Rightarrow> shown" where
  "format_value key value =
     (if value = SNull then Shown ''NULL''
      else if key \<in> set json_columns \<and> sql_truthy value then
        (case value of
           SText s \<Rightarrow>
             (case json_loads s of
                None \<Rightarrow> Shown (sql_str value)
              | Some data \<Rightarrow> (case format_json key data of Inl _ \<Rightarrow> Shown (sql_str value) | Inr r \<Rightarrow> r))
         | _ \<Rightarrow> Shown (sql_str value))
      else case value of
        SText s \<Rightarrow>
          (if key \<in> {''description'', ''body''} \<and> 50 < length s then Shown (take 47 s @ ''...'')
           else Shown s)
      | _ \<Rightarrow> (if key \<in> {''price'', ''discountPercentage''} then Shown (sql_format_2f value)
             else Shown (sql_str value)))"

subsection \<open>Printed lines and SQL errors\<close>

text \<open>
  One constructor per \<open>print\<close> call whose fixed text is Russian, holding the
  interpolated values; \<open>Out\<close> for a line that is ASCII throughout (a column
  description, the rule of fifty \<open>=\<close>). A leading \<open>\n\<close> of the source is part
  of the line it opens.
\<close>

datatype view_error =
    NotADatabase
  | SyntaxError string
  | NoSuchTable string

datatype line =
    Out string
  | StructureHeader
  | TableEmpty
  | DataHeader nat
  | RecordHeader nat
  | FieldLine string shown
  | DbNotFound string
  | RunProcessorFirst
  | ProcessorCommand
  | OrWithCleanFlag
  | ProcessorCleanCommand
  | NoTables string
  | TableNotFound string
  | AvailableTables string
  | TableTitle string
  | TotalRecords nat
  | TablesIn string
  | TableBanner string nat
  | DbErrorLine view_error

text \<open>Lines printed so far, and the value or the \<open>sqlite3.Error\<close> that ended the run.\<close>

type_synonym 'a out = "line list \<times> (view_error + 'a)"

definition out_bind :: "'a out \<Rightarrow> ('a \<Rightarrow> 'b out) \<Rightarrow> 'b out" where
  "out_bind m f =
     (case m of
        (ls, Inl e) \<Rightarrow> (ls, Inl e)
      | (ls, Inr a) \<Rightarrow> (case f a of (ls', r) \<Rightarrow> (ls @ ls', r)))"

definition say :: "line list \<Rightarrow> unit out" where
  "say ls = (ls, Inr ())"

text \<open>
  A table name interpolated into SQL text (\<open>PRAGMA table_info({t})\<close>,
  \<open>FROM {t}\<close>) is read by SQLite's tokenizer: it is one identifier when it starts
  with a letter, \<open>_\<close> or a non-ASCII character and goes on with those, digits and
  \<open>$\<close>; anything else is a syntax error.
\<close>

definition id_start :: "char \<Rightarrow> bool" where
  "id_start c \<longleftrightarrow>
     (let n = of_char c :: nat in (65 \<le> n \<and> n \<le> 90) \<or> (97 \<le> n \<and> n \<le> 122) \<or> n = 95 \<or> 128 \<le> n)"

definition plain_ident :: "string \<Rightarrow> bool" where
  "plain_ident t \<longleftrightarrow>
     t \<noteq> [] \<and> id_start (hd t) \<and> list_all (\<lambda>c. id_start c \<or> is_digit c \<or> c = CHR ''$'') t"

subsection \<open>get_table_info and print_table_data\<close>

record table_info =
  ti_name :: string
  ti_columns :: "coldef list"
  ti_row_count :: nat

text \<open>\<open>PRAGMA table_info\<close> (no rows for a missing table), then \<open>SELECT COUNT(*)\<close>.\<close>

definition get_table_info :: "database \<Rightarrow> string \<Rightarrow> view_error + table_info" where
  "get_table_info db t =
     (if \<not> plain_ident t then Inl (SyntaxError t)
      else case map_of db t of
        None \<Rightarrow> Inl (NoSuchTable t)
      | Some tb \<Rightarrow> Inr \<lparr>ti_name = t, ti_columns = tcols tb, ti_row_count = length (trows tb)\<rparr>)"

definition column_line :: "coldef \<Rightarrow> line" where
  "column_line c =
     Out (''  '' @ col_name c @ '' ('' @ col_type c @
          (if col_pk c then '' [PRIMARY KEY]'' else []) @
          (if col_notnull c then '' [NOT NULL]'' else []) @ '')'')"

text \<open>The records \<open>enumerate(rows, 1)\<close>: a header, then each column with its
  formatted value (\<open>dict(row)\<close> keeps the column order).\<close>

fun record_lines :: "string list \<Rightarrow> nat \<Rightarrow> (int \<times> sql_value list) list \<Rightarrow> line list" where
  "record_lines names i [] = []"
| "record_lines names i ((k, r) # rs) =
     RecordHeader i # map (\<lambda>(key, v). FieldLine key (format_value key v)) (zip names r) @
     record_lines names (Suc i) rs"

text \<open>\<open>SELECT * FROM t LIMIT limit\<close> yields the first rows in rowid order.\<close>

definition print_table_data :: "database \<Rightarrow> string \<Rightarrow> nat \<Rightarrow> unit out" where
  "print_table_data db t limit =
     (if \<not> plain_ident t then ([], Inl (SyntaxError t))
      else case map_of db t of
        None \<Rightarrow> ([StructureHeader], Inl (NoSuchTable t))
      | Some tb \<Rightarrow>
          (let hdr = StructureHeader # map column_line (tcols tb); rows = take limit (trows tb)
           in if rows = [] then (hdr @ [TableEmpty], Inr ())
              else (hdr @ DataHeader (min limit (length rows)) #
                    record_lines (map col_name (tcols tb)) 1 rows, Inr ())))"

subsection \<open>view_database\<close>

text \<open>\<open>table_infos.sort(key=lambda x: x["row_count"], reverse=True)\<close>: CPython
  reverses the list, sorts it stably and reverses it again.\<close>

definition py_sort_desc :: "('a \<Rightarrow> nat) \<Rightarrow> 'a list \<Rightarrow> 'a list" where
  "py_sort_desc f xs = rev (sort_key f (rev xs))"

text \<open>One section of the listing: the banner between two rules, then the table.\<close>

fun table_sections :: "database \<Rightarrow> table_info list \<Rightarrow> unit out" where
  "table_sections db [] = say []"
| "table_sections db (ti # tis) =
     out_bind (say [Out (replicate 50 (CHR ''='')), TableBanner (ti_name ti) (ti_row_count ti),
                    Out (replicate 50 (CHR ''=''))])
       (\<lambda>_. out_bind (print_table_data db (ti_name ti) 10) (\<lambda>_. table_sections db tis))"

definition count_rows :: "database \<Rightarrow> string \<Rightarrow> view_error + nat" where
  "count_rows db t =
     (if \<not> plain_ident t then Inl (SyntaxError t)
      else case map_of db t of None \<Rightarrow> Inl (NoSuchTable t) | Some tb \<Rightarrow> Inr (length (trows tb)))"

text \<open>The body of the \<open>try\<close> block: the tables of \<open>sqlite_master\<close>, then one table
  (when \<open>table_name\<close> is a non-empty string) or all of them.\<close>

definition view_tables :: "database \<Rightarrow> string \<Rightarrow> string option \<Rightarrow> unit out" where
  "view_tables db db_name table_name =
     (let tables = map fst db in
      if tables = [] then say [NoTables db_name]
      else case table_name of
        Some t \<Rightarrow>
          (if t \<noteq> [] then
             (if \<not> table_exists db t then say [TableNotFound t, AvailableTables (py_join '', '' tables)]
              else out_bind (say [TableTitle t])
                     (\<lambda>_. out_bind (print_table_data db t 10)
                       (\<lambda>_. out_bind ([], count_rows db t) (\<lambda>n. say [TotalRecords n]))))
           else out_bind (say [TablesIn db_name]) (\<lambda>_. out_bind ([], map_err (get_table_info db) tables)
                  (\<lambda>infos. table_sections db (py_sort_desc ti_row_count infos))))
      | None \<Rightarrow>
          out_bind (say [TablesIn db_name]) (\<lambda>_. out_bind ([], map_err (get_table_info db) tables)
            (\<lambda>infos. table_sections db (py_sort_desc ti_row_count infos))))"

text \<open>What is at the path: nothing, a file SQLite cannot read (every statement
  fails with \<open>file is not a database\<close>), or a database.\<close>

datatype db_path = Missing | NotADb | Database database

definition view_database :: "db_path \<Rightarrow> string \<Rightarrow> string option \<Rightarrow> line list" where
  "view_database f db_name table_name =
     (case f of
        Missing \<Rightarrow>
          [DbNotFound db_name, RunProcessorFirst, ProcessorCommand, OrWithCleanFlag, ProcessorCleanCommand]
      | NotADb \<Rightarrow> [DbErrorLine NotADatabase]
      | Database db \<Rightarrow>
          (case view_tables db db_name table_name of
             (ls, Inl e) \<Rightarrow> ls @ [DbErrorLine e]
           | (ls, Inr _) \<Rightarrow> ls))"

text \<open>The command line: \<open>--db\<close> defaults to \<open>dummy_data.db\<close>, \<open>--table\<close> to
  \<open>None\<close>; \<open>fs\<close> says what is at a path.\<close>

definition view_main :: "(string \<Rightarrow> db_path) \<Rightarrow> string option \<Rightarrow> string option \<Rightarrow> line list" where
  "view_main fs db_arg table_arg =
     (let db_name = (case db_arg of None \<Rightarrow> ''dummy_data.db'' | Some d \<Rightarrow> d)
      in view_database (fs db_name) db_name table_arg)"

subsection \<open>Observations of the output\<close>


text \<open>The table banners of a run, the numbers of its record headers, and whether it
  printed the error line of the \<open>sqlite3.Error\<close> handler.\<close>


definition banners :: "line list \<Rightarrow> (string \<times> nat) list" where
  "banners ls = [(t, n). TableBanner t n \<leftarrow> ls]"

definition record_numbers :: "line list \<Rightarrow> nat list" where
  "record_numbers ls = [i. RecordHeader i \<leftarrow> ls]"

definition has_error_line :: "line list \<Rightarrow> bool" where
  "has_error_line ls \<longleftrightarrow> (\<exists>l \<in> set ls. case l of DbErrorLine _ \<Rightarrow> True | _ \<Rightarrow> False)"

subsection \<open>Lemmas\<close>


lemma out_bind_Inr [simp]: "out_bind (ls, Inr a) f = (ls @ fst (f a), snd (f a))"
  by (simp add: out_bind_def split: prod.splits)

lemma out_bind_Inl [simp]: "out_bind (ls, Inl e) f = (ls, Inl e)"
  by (simp add: out_bind_def)

lemma record_lines_numbers: "record_numbers (record_lines names i rs) = [i..<i + length rs]"
proof (induction rs arbitrary: i)
  case Nil
  then show ?case by (simp add: record_numbers_def)
next
  case (Cons kr rs)
  then show ?case
    by (cases kr) (simp add: record_numbers_def split_def upt_rec)
qed

lemma record_lines_set:
  "l \<in> set (record_lines names i rs) \<Longrightarrow> (\<exists>j. l = RecordHeader j) \<or> (\<exists>k v. l = FieldLine k v)"
  by (induction names i rs rule: record_lines.induct) auto

lemma print_table_data_ok:
  "plain_ident t \<Longrightarrow> map_of db t = Some tb \<Longrightarrow> snd (print_table_data db t l) = Inr ()"
  by (simp add: print_table_data_def Let_def)

lemma print_table_data_banners [simp]: "banners (fst (print_table_data db t l)) = []"
  by (auto simp: print_table_data_def Let_def banners_def column_line_def split: option.splits
           dest!: record_lines_set)

lemma print_table_data_no_error [simp]: "\<not> has_error_line (fst (print_table_data db t l))"
  by (auto simp: print_table_data_def Let_def has_error_line_def column_line_def split: option.splits
           dest!: record_lines_set)

lemma banners_append [simp]: "banners (xs @ ys) = banners xs @ banners ys"
  and banners_Nil [simp]: "banners [] = []"
  and banners_Cons [simp]:
    "banners (l # xs) = (case l of TableBanner t n \<Rightarrow> [(t, n)] | _ \<Rightarrow> []) @ banners xs"
  by (simp_all add: banners_def)

lemma has_error_line_append [simp]: "has_error_line (xs @ ys) \<longleftrightarrow> has_error_line xs \<or> has_error_line ys"
  and has_error_line_Nil [simp]: "\<not> has_error_line []"
  and has_error_line_Cons [simp]:
    "has_error_line (l # xs) \<longleftrightarrow> (case l of DbErrorLine _ \<Rightarrow> True | _ \<Rightarrow> False) \<or> has_error_line xs"
  by (auto simp: has_error_line_def)

lemma out_bind_ok: "snd m = Inr a \<Longrightarrow> out_bind m f = (fst m @ fst (f a), snd (f a))"
  by (cases m) simp

lemma set_py_sort_desc [simp]: "set (py_sort_desc f xs) = set xs"
  by (simp add: py_sort_desc_def)

lemma table_sections_ok:
  assumes "\<And>ti. ti \<in> set tis \<Longrightarrow> plain_ident (ti_name ti) \<and> ti_name ti \<in> set (map fst db)"
  shows "snd (table_sections db tis) = Inr () \<and> \<not> has_error_line (fst (table_sections db tis)) \<and>
         banners (fst (table_sections db tis)) = map (\<lambda>ti. (ti_name ti, ti_row_count ti)) tis"
  using assms
proof (induction tis)
  case Nil
  then show ?case by (simp add: say_def banners_def)
next
  case (Cons ti tis)
  obtain tb where tb: "map_of db (ti_name ti) = Some tb"
    using Cons.prems [of ti] by (auto dest: weak_map_of_SomeI)
  have p: "snd (print_table_data db (ti_name ti) 10) = Inr ()"
    using print_table_data_ok [OF _ tb] Cons.prems [of ti] by simp
  have "snd (table_sections db tis) = Inr () \<and> \<not> has_error_line (fst (table_sections db tis)) \<and>
        banners (fst (table_sections db tis)) = map (\<lambda>ti. (ti_name ti, ti_row_count ti)) tis"
    using Cons.IH Cons.prems by simp
  then show ?case
    by (simp add: say_def out_bind_ok [OF p])
qed

lemma get_infos:
  assumes "\<And>t. t \<in> set ns \<Longrightarrow> plain_ident t \<and> t \<in> set (map fst db)"
  shows "map_err (get_table_info db) ns =
     Inr (map (\<lambda>t. \<lparr>ti_name = t, ti_columns = tcols (the (map_of db t)),
                    ti_row_count = length (trows (the (map_of db t)))\<rparr>) ns)"
proof (rule map_err_Inr_map)
  fix t assume "t \<in> set ns"
  then have t: "plain_ident t" "t \<in> fst ` set db" using assms by auto
  then obtain tb where "map_of db t = Some tb" by (metis map_of_eq_None_iff option.exhaust)
  then show "get_table_info db t = Inr \<lparr>ti_name = t, ti_columns = tcols (the (map_of db t)),
                    ti_row_count = length (trows (the (map_of db t)))\<rparr>"
    using t by (simp add: get_table_info_def)
qed

lemma insort_key_map: "insort_key f (g x) (map g ys) = map g (insort_key (f \<circ> g) x ys)"
  by (induction ys) auto

lemma sort_key_map: "sort_key f (map g xs) = map g (sort_key (f \<circ> g) xs)"
  by (induction xs) (simp_all add: insort_key_map comp_def)

lemma py_sort_desc_map: "py_sort_desc f (map g xs) = map g (py_sort_desc (f \<circ> g) xs)"
  by (simp add: py_sort_desc_def rev_map sort_key_map)

lemma py_sort_desc_eq: "py_sort_desc f xs = sort_key (\<lambda>x. - int (f x)) xs"
proof (rule sym, rule properties_for_sort_key)
  show "mset (py_sort_desc f xs) = mset xs" by (simp add: py_sort_desc_def)
  show "filter (\<lambda>x. - int (f k) = - int (f x)) (py_sort_desc f xs) = filter (\<lambda>x. - int (f k) = - int (f x)) xs" for k
  proof -
    have "filter (\<lambda>x. f x = f k) (sort_key f (rev xs)) = filter (\<lambda>x. f x = f k) (rev xs)"
      by (rule sort_key_stable)
    then show ?thesis by (simp add: py_sort_desc_def rev_filter [symmetric] eq_commute) (metis rev_rev_ident)
  qed
  show "sorted (map (\<lambda>x. - int (f x)) (py_sort_desc f xs))"
  proof -
    have "sorted (map f (sort_key f (rev xs)))" by simp
    then have "sorted_wrt (\<lambda>a b. b \<le> a) (rev (map f (sort_key f (rev xs))))"
      by (simp add: sorted_wrt_rev)
    then show ?thesis by (simp add: py_sort_desc_def rev_map sorted_wrt_map)
  qed
qed

lemma map_info_distinct:
  assumes "distinct (map fst db)"
  shows "map (\<lambda>t. \<lparr>ti_name = t, ti_columns = tcols (the (map_of db t)),
                    ti_row_count = length (trows (the (map_of db t)))\<rparr>) (map fst db) =
         map (\<lambda>p. \<lparr>ti_name = fst p, ti_columns = tcols (snd p), ti_row_count = length (trows (snd p))\<rparr>) db"
  using map_of_is_SomeI [OF assms] by (auto intro: map_cong)

lemma view_tables_ok:
  assumes "list_all plain_ident (map fst db)"
  shows "snd (view_tables db n tn) = Inr () \<and> \<not> has_error_line (fst (view_tables db n tn))"
proof -
  have pl: "\<And>t. t \<in> set (map fst db) \<Longrightarrow> plain_ident t" using assms by (auto simp: list_all_iff)
  have pl': "\<And>p. p \<in> set db \<Longrightarrow> plain_ident (fst p)" using assms by (simp add: list_all_iff)
  let ?infos = "map (\<lambda>t. \<lparr>ti_name = t, ti_columns = tcols (the (map_of db t)),
                    ti_row_count = length (trows (the (map_of db t)))\<rparr>) (map fst db)"
  have inf: "map_err (get_table_info db) (map fst db) = Inr ?infos" using pl by (intro get_infos) auto
  have sec: "snd (table_sections db (py_sort_desc ti_row_count ?infos)) = Inr () \<and>
             \<not> has_error_line (fst (table_sections db (py_sort_desc ti_row_count ?infos)))"
  proof -
    have "\<And>ti. ti \<in> set (py_sort_desc ti_row_count ?infos) \<Longrightarrow>
            plain_ident (ti_name ti) \<and> ti_name ti \<in> set (map fst db)"
      using pl' by (auto intro: rev_image_eqI)
    then show ?thesis using table_sections_ok by blast
  qed
  show ?thesis
  proof (cases "tn = None \<or> tn = Some []")
    case True
    then show ?thesis using sec by (auto simp: view_tables_def Let_def say_def inf)
  next
    case False
    then obtain t where t: "tn = Some t" "t \<noteq> []" by auto
    show ?thesis
    proof (cases "table_exists db t")
      case False
      then show ?thesis using t by (simp add: view_tables_def Let_def say_def)
    next
      case True
      then obtain tb where tb: "map_of db t = Some tb"
        by (metis table_exists_def map_of_eq_None_iff option.exhaust image_set)
      have p: "plain_ident t" using True pl by (simp add: table_exists_def)
      have c: "count_rows db t = Inr (length (trows tb))" using p tb by (simp add: count_rows_def)
      show ?thesis using t True print_table_data_ok [OF p tb, of 10]
        by (auto simp: view_tables_def Let_def say_def out_bind_ok c)
    qed
  qed
qed

lemma view_database_Database:
  "snd (view_tables db n tn) = Inr () \<Longrightarrow> view_database (Database db) n tn = fst (view_tables db n tn)"
  by (cases "view_tables db n tn") (simp add: view_database_def)

lemma json_loads_Nil [simp]: "json_loads [] = None"
  by (simp add: json_loads_def skip_ws_def)

subsection \<open>Properties\<close>



text \<open>C17. Without \<open>--table\<close>, the inspector prints one banner per table of the
  catalogue, with its row count, in descending order of the count and, among
  tables with the same count, in catalogue order.\<close>

theorem view_database_listing:
  assumes "distinct (map fst db)" "list_all plain_ident (map fst db)"
  shows "banners (view_database (Database db) n None) =
         map (\<lambda>p. (fst p, length (trows (snd p)))) (sort_key (\<lambda>p. - int (length (trows (snd p)))) db)"
proof -
  have pl: "\<And>t. t \<in> set (map fst db) \<Longrightarrow> plain_ident t" using assms(2) by (auto simp: list_all_iff)
  have pl': "\<And>p. p \<in> set db \<Longrightarrow> plain_ident (fst p)" using assms(2) by (simp add: list_all_iff)
  let ?h = "\<lambda>p. \<lparr>ti_name = fst p, ti_columns = tcols (snd p), ti_row_count = length (trows (snd p))\<rparr>"
  have inf: "map_err (get_table_info db) (map fst db) = Inr (map ?h db)"
    using get_infos [of "map fst db" db] pl map_info_distinct [OF assms(1)] by auto
  have srt: "py_sort_desc ti_row_count (map ?h db) = map ?h (sort_key (\<lambda>p. - int (length (trows (snd p)))) db)"
    by (simp add: py_sort_desc_eq sort_key_map comp_def)
  have sec: "snd (table_sections db (py_sort_desc ti_row_count (map ?h db))) = Inr () \<and>
             banners (fst (table_sections db (py_sort_desc ti_row_count (map ?h db)))) =
             map (\<lambda>ti. (ti_name ti, ti_row_count ti)) (py_sort_desc ti_row_count (map ?h db))"
  proof -
    have "\<And>ti. ti \<in> set (py_sort_desc ti_row_count (map ?h db)) \<Longrightarrow>
            plain_ident (ti_name ti) \<and> ti_name ti \<in> set (map fst db)"
      using pl' by (auto intro: rev_image_eqI)
    then show ?thesis using table_sections_ok by blast
  qed
  show ?thesis
  proof (cases "db = []")
    case True
    then show ?thesis by (simp add: view_database_def view_tables_def say_def banners_def)
  next
    case False
    then show ?thesis using sec srt
      by (simp add: view_database_def view_tables_def Let_def say_def inf comp_def split: prod.splits sum.splits)
  qed
qed

theorem view_database_listing_witness:
  "distinct (map fst [(''a'', \<lparr>tcols = [], trows = [(1, [])]\<rparr>), (''b'', \<lparr>tcols = [], trows = [(1, []), (2, [])]\<rparr>),
                      (''c'', \<lparr>tcols = [], trows = [(5, [])]\<rparr>)]) \<and>
   list_all plain_ident (map fst [(''a'', \<lparr>tcols = [], trows = [(1, [])]\<rparr>), (''b'', \<lparr>tcols = [], trows = [(1, []), (2, [])]\<rparr>),
                      (''c'', \<lparr>tcols = [], trows = [(5, [])]\<rparr>)]) \<and>
   banners (view_database (Database [(''a'', \<lparr>tcols = [], trows = [(1, [])]\<rparr>),
              (''b'', \<lparr>tcols = [], trows = [(1, []), (2, [])]\<rparr>), (''c'', \<lparr>tcols = [], trows = [(5, [])]\<rparr>)]) ''d.db'' None) =
     [(''b'', 2), (''a'', 1), (''c'', 1)]"
proof -
  have d: "distinct (map fst [(''a'', \<lparr>tcols = [], trows = [(1, [])]\<rparr>), (''b'', \<lparr>tcols = [], trows = [(1, []), (2, [])]\<rparr>),
                      (''c'', \<lparr>tcols = [], trows = [(5, [])]\<rparr>)])" by simp
  have p: "list_all plain_ident (map fst [(''a'', \<lparr>tcols = [], trows = [(1, [])]\<rparr>), (''b'', \<lparr>tcols = [], trows = [(1, []), (2, [])]\<rparr>),
                      (''c'', \<lparr>tcols = [], trows = [(5, [])]\<rparr>)])"
    by (simp add: plain_ident_def id_start_def)
  show ?thesis using view_database_listing [OF d p, of "''d.db''"] d p by simp
qed

text \<open>C18. On a database whose table names are plain SQL identifiers (the tables
  the ETL creates), the inspector never reaches its \<open>sqlite3.Error\<close> handler,
  whatever \<open>--table\<close> names.\<close>

theorem view_database_no_error:
  "list_all plain_ident (map fst db) \<Longrightarrow> \<not> has_error_line (view_database (Database db) n tn)"
  using view_tables_ok [of db n tn] view_database_Database [of db n tn] by simp

theorem view_database_no_error_witness:
  "list_all plain_ident (map fst [(''posts'', \<lparr>tcols = [], trows = []\<rparr>)]) \<and>
   \<not> has_error_line (view_database (Database [(''posts'', \<lparr>tcols = [], trows = []\<rparr>)]) ''d.db'' (Some ''posts''))"
proof -
  have p: "list_all plain_ident (map fst [(''posts'', \<lparr>tcols = [], trows = []\<rparr>)])"
    by (simp add: plain_ident_def id_start_def)
  show ?thesis using view_database_no_error [OF p, of "''d.db''" "Some ''posts''"] p by simp
qed

text \<open>C19. \<open>print_table_data\<close> prints \<open>min(limit, n)\<close> records of a table of
  \<open>n\<close> rows, numbered from 1: \<open>LIMIT\<close> bounds the output and no row is skipped.\<close>

lemma print_table_data_records:
  assumes "plain_ident t" "map_of db t = Some tb"
  shows "record_numbers (fst (print_table_data db t l)) = [1..<Suc (min l (length (trows tb)))]"
  using assms record_lines_numbers [of "map col_name (tcols tb)" 1 "take l (trows tb)"]
  by (auto simp: print_table_data_def Let_def record_numbers_def column_line_def min_def)

theorem print_table_data_records_witness:
  "plain_ident ''t'' \<and> map_of [(''t'', \<lparr>tcols = [], trows = [(1, []), (2, [])]\<rparr>)] ''t'' = Some \<lparr>tcols = [], trows = [(1, []), (2, [])]\<rparr> \<and>
   record_numbers (fst (print_table_data [(''t'', \<lparr>tcols = [], trows = [(1, []), (2, [])]\<rparr>)] ''t'' 1)) = [1]"
proof -
  have p: "plain_ident ''t''" by (simp add: plain_ident_def id_start_def)
  show ?thesis using print_table_data_records [OF p, of "[(''t'', \<lparr>tcols = [], trows = [(1, []), (2, [])]\<rparr>)]"] p by simp
qed

text \<open>C20. A description or body of more than 50 characters is shown as its first
  47 characters and \<open>...\<close> (50 in all); a shorter one unchanged.\<close>

theorem format_value_long_text:
  "key \<in> {''description'', ''body''} \<Longrightarrow>
   format_value key (SText s) = Shown (if length s \<le> 50 then s else take 47 s @ ''...'')"
  by (auto simp: format_value_def json_columns_def)

theorem format_value_long_text_witness:
  "''body'' \<in> {''description'', ''body''} \<and>
   format_value ''body'' (SText (replicate 60 (CHR ''a''))) = Shown (replicate 47 (CHR ''a'') @ ''...'')"
  using format_value_long_text [of "''body''" "replicate 60 (CHR ''a'')"] by simp

text \<open>C21. A JSON column whose text does not decode (\<open>json.JSONDecodeError\<close>) is
  shown as the stored text.\<close>

theorem format_value_bad_json:
  "key \<in> set json_columns \<Longrightarrow> json_loads s = None \<Longrightarrow> format_value key (SText s) = Shown s"
  by (cases "s = []") (simp_all add: format_value_def)

theorem format_value_bad_json_witness:
  "''hair'' \<in> set json_columns \<and> json_loads ''{bad'' = None \<and> format_value ''hair'' (SText ''{bad'') = Shown ''{bad''"
proof -
  have l: "json_loads ''{bad'' = None" by code_simp
  show ?thesis using format_value_bad_json [OF _ l, of "''hair''"] l by (simp add: json_columns_def)
qed

text \<open>C22. A \<open>tags\<close> value that decodes to a list holding a non-string makes
  \<open>", ".join\<close> raise \<open>TypeError\<close>, which the handler turns into the stored text.\<close>

theorem format_value_tags_not_str:
  assumes "json_loads s = Some (JArr xs)" "x \<in> set xs" "\<forall>u. x \<noteq> JStr u"
  shows "format_value ''tags'' (SText s) = Shown s"
proof -
  have "join_item x = Inl TypeError" using assms(3) by (cases x) auto
  from map_err_Inl [where f = join_item, OF assms(2) this] obtain e where e: "map_err join_item xs = Inl e" ..
  have "s \<noteq> []" using assms(1) by auto
  then show ?thesis using assms(1,2) e
    by (auto simp: format_value_def json_columns_def format_json_def)
qed

theorem format_value_tags_not_str_witness:
  "json_loads ''[\"x\", 1]'' = Some (JArr [JStr ''x'', JInt 1]) \<and> JInt 1 \<in> set [JStr ''x'', JInt 1] \<and>
   (\<forall>u. JInt 1 \<noteq> JStr u) \<and> format_value ''tags'' (SText ''[\"x\", 1]'') = Shown ''[\"x\", 1]''"
proof -
  have l: "json_loads ''[\"x\", 1]'' = Some (JArr [JStr ''x'', JInt 1])" by code_simp
  show ?thesis using format_value_tags_not_str [OF l, of "JInt 1"] l by simp
qed

lemma price_scale:
  assumes "-2 \<le> e"
  shows "0 \<le> e \<Longrightarrow> (10::int) ^ nat (e + 2) = 100 * 10 ^ nat e"
    and "e < 0 \<Longrightarrow> (10::int) ^ nat (e + 2) * 10 ^ nat (- e) = 100"
proof -
  assume "0 \<le> e"
  then have "nat (e + 2) = nat e + 2" by simp
  then show "(10::int) ^ nat (e + 2) = 100 * 10 ^ nat e" by (simp add: power_add)
next
  assume "e < 0"
  with assms have "e = -1 \<or> e = -2" by linarith
  then show "(10::int) ^ nat (e + 2) * 10 ^ nat (- e) = 100" by auto
qed

text \<open>C33. A price or discount percentage read back as a \<open>float\<close> with at most two
  decimals and below \<open>2 ^ 46\<close> is shown by \<open>f"{value:.2f}"\<close> as exactly that
  decimal, although Python rounds it to a binary double first (\<open>0.29\<close> prints
  \<open>0.29\<close>, not \<open>0.28\<close>).\<close>

theorem format_value_price_exact:
  assumes key: "key \<in> {''price'', ''discountPercentage''}" and e: "-2 \<le> e"
    and lt: "\<bar>m\<bar> * 10 ^ nat (e + 2) < 100 * 2 ^ 46"
  shows "format_value key (SReal m e) = Shown (FloatFormat.decimal_2dp (m < 0) (nat (\<bar>m\<bar> * 10 ^ nat (e + 2))))"
proof -
  have fv: "format_value key (SReal m e) = Shown (sql_format_2f (SReal m e))"
    using key by (auto simp: format_value_def json_columns_def)
  show ?thesis
  proof (cases "0 \<le> e")
    case True
    note sc = price_scale(1) [OF e True]
    have eq: "\<bar>m\<bar> * 10 ^ nat (e + 2) = 100 * (\<bar>m\<bar> * 10 ^ nat e)"
      unfolding sc by (rule mult.left_commute)
    have "\<bar>m\<bar> * 10 ^ nat e < 1 * 2 ^ 46" using lt unfolding eq by simp
    then have f: "format_2f (m < 0) (\<bar>m\<bar> * 10 ^ nat e) 1 = decimal_2dp (m < 0) (nat (100 * (\<bar>m\<bar> * 10 ^ nat e)))"
      using format_2f_exact [of "\<bar>m\<bar> * 10 ^ nat e" 1 "m < 0"] by simp
    have "sql_format_2f (SReal m e) = format_2f (m < 0) (\<bar>m\<bar> * 10 ^ nat e) 1" using True by simp
    then show ?thesis unfolding fv f eq by simp
  next
    case False
    note sc = price_scale(2) [OF e, simplified not_le [symmetric], OF False]
    have b: "(0::int) < 10 ^ nat (- e)" by simp
    have dv: "10 ^ nat (- e) dvd 100 * \<bar>m\<bar>"
      by (metis sc dvd_mult dvd_mult2 dvd_refl)
    have "\<bar>m\<bar> * 10 ^ nat (e + 2) * 10 ^ nat (- e) = \<bar>m\<bar> * 100"
      by (simp only: mult.assoc sc)
    then have r: "100 * \<bar>m\<bar> = \<bar>m\<bar> * 10 ^ nat (e + 2) * 10 ^ nat (- e)"
      by (simp add: mult.commute)
    have q: "100 * \<bar>m\<bar> div 10 ^ nat (- e) = \<bar>m\<bar> * 10 ^ nat (e + 2)"
      unfolding r using b by simp
    have "\<bar>m\<bar> * 10 ^ nat (e + 2) * 10 ^ nat (- e) < 100 * 2 ^ 46 * 10 ^ nat (- e)"
      by (rule mult_strict_right_mono [OF lt b])
    then have "100 * \<bar>m\<bar> < 100 * (10 ^ nat (- e) * 2 ^ 46)"
      unfolding r [symmetric] by (simp only: mult.commute mult.left_commute)
    then have "\<bar>m\<bar> < 10 ^ nat (- e) * 2 ^ 46" by simp
    from format_2f_exact [OF _ b dv this, of "m < 0"]
    show ?thesis using False fv q by simp
  qed
qed

theorem format_value_price_exact_witness:
  "format_value ''price'' (SReal 29 (-2)) = Shown ''0.29'' \<and>
   format_value ''discountPercentage'' (SReal 1299 (-2)) = Shown ''12.99'' \<and>
   format_value ''price'' (SReal 549 0) = Shown ''549.00''"
  using format_value_price_exact [of "''price''" "-2" 29] format_value_price_exact [of "''discountPercentage''" "-2" 1299]
    format_value_price_exact [of "''price''" 0 549]
  by (simp add: decimal_2dp_def pad2_def show_nat.simps digit_char_def char_of_def bit_simps)

lemma view_database_table:
  assumes "plain_ident t" "map_of db t = Some tb"
  shows "view_database (Database db) n (Some t) =
         TableTitle t # fst (print_table_data db t 10) @ [TotalRecords (length (trows tb))]"
proof -
  have "t \<noteq> []" "table_exists db t" "db \<noteq> []"
    using assms by (auto simp: plain_ident_def table_exists_def dest: map_of_SomeD intro: rev_image_eqI)
  moreover obtain ls where "print_table_data db t 10 = (ls, Inr ())"
    using print_table_data_ok [OF assms, of 10] by (cases "print_table_data db t 10") auto
  ultimately show ?thesis using assms
    by (simp add: view_database_def view_tables_def Let_def say_def count_rows_def)
qed

lemma record_numbers_simps [simp]:
  "record_numbers [] = []"
  "record_numbers (l # ls) = (case l of RecordHeader i \<Rightarrow> i # record_numbers ls | _ \<Rightarrow> record_numbers ls)"
  "record_numbers (ls @ ms) = record_numbers ls @ record_numbers ms"
  by (simp_all add: record_numbers_def split: line.split)

text \<open>C35. \<open>--table\<close> naming a table the database does not have prints that the
  table is not found and the catalogue's table names joined by \<open>", "\<close>, and
  nothing else: no query is run.\<close>

theorem view_database_table_not_found:
  assumes "db \<noteq> []" "t \<noteq> []" "t \<notin> set (map fst db)"
  shows "view_database (Database db) n (Some t) = [TableNotFound t, AvailableTables (py_join '', '' (map fst db))]"
  using assms by (simp add: view_database_def view_tables_def Let_def say_def table_exists_def)

theorem view_database_table_not_found_witness:
  "view_database (Database [(''posts'', \<lparr>tcols = [], trows = []\<rparr>), (''users'', \<lparr>tcols = [], trows = []\<rparr>)])
     ''dummy_data.db'' (Some ''product'') =
   [TableNotFound ''product'', AvailableTables ''posts, users'']"
  using view_database_table_not_found [of "[(''posts'', \<lparr>tcols = [], trows = []\<rparr>), (''users'', \<lparr>tcols = [], trows = []\<rparr>)]"
      "''product''" "''dummy_data.db''"]
  by simp

text \<open>C36. \<open>--table t\<close> on a table of the database prints its title first, then at
  most ten records numbered from 1 in rowid order, and last the table's true row
  count (not the number of records shown), with no error line.\<close>

theorem view_database_one_table:
  assumes "plain_ident t" "map_of db t = Some tb"
  shows "hd (view_database (Database db) n (Some t)) = TableTitle t \<and>
         last (view_database (Database db) n (Some t)) = TotalRecords (length (trows tb)) \<and>
         record_numbers (view_database (Database db) n (Some t)) = [1..<Suc (min 10 (length (trows tb)))] \<and>
         \<not> has_error_line (view_database (Database db) n (Some t))"
proof -
  have r: "record_numbers (fst (print_table_data db t 10)) = [1..<Suc (min 10 (length (trows tb)))]"
    using assms record_lines_numbers [of "map col_name (tcols tb)" 1 "take 10 (trows tb)"]
    by (auto simp: print_table_data_def Let_def record_numbers_def column_line_def min_def)
  show ?thesis unfolding view_database_table [OF assms] using r by simp
qed

theorem view_database_one_table_witness:
  "hd (view_database (Database [(''posts'', \<lparr>tcols = [], trows = [(1, []), (2, [])]\<rparr>)]) ''d.db'' (Some ''posts'')) =
     TableTitle ''posts'' \<and>
   last (view_database (Database [(''posts'', \<lparr>tcols = [], trows = [(1, []), (2, [])]\<rparr>)]) ''d.db'' (Some ''posts'')) =
     TotalRecords 2 \<and>
   record_numbers (view_database (Database [(''posts'', \<lparr>tcols = [], trows = [(1, []), (2, [])]\<rparr>)]) ''d.db'' (Some ''posts'')) =
     [1, 2]"
proof -
  have p: "plain_ident ''posts''" by (simp add: plain_ident_def id_start_def)
  show ?thesis
    using view_database_one_table [OF p, of "[(''posts'', \<lparr>tcols = [], trows = [(1, []), (2, [])]\<rparr>)]"
        "\<lparr>tcols = [], trows = [(1, []), (2, [])]\<rparr>" "''d.db''"]
    by (simp add: upt_rec)
qed

end
