(* ===== verification/SqliteAbs.thy ===== *)
theory SqliteAbs
  imports Sqlite
begin

text \<open>
  An abstract specification of a table and of \<open>INSERT OR IGNORE\<close>: a table is
  a finite map from keys to rows; inserting a row puts it under its key unless
  the key is taken; a row without a key gets one more than the largest key. The
  concrete model of theory \<open>Sqlite\<close> (rows in a list sorted by key, the next
  rowid computed from the list) refines it: \<open>table_map\<close> maps every step of
  \<open>executemany\<close> to the abstract step.
\<close>

type_synonym atable = "int \<rightharpoonup> sql_value list"

definition fresh_key :: "atable \<Rightarrow> int" where
  "fresh_key m = (if dom m = {} then 1 else Max (dom m) + 1)"

definition abs_put :: "atable \<Rightarrow> int \<Rightarrow> sql_value list \<Rightarrow> atable \<times> nat" where
  "abs_put m k r = (if k \<in> dom m then (m, 0) else (m(k \<mapsto> r), 1))"

text \<open>One row: a key that is not an integer is an error; a row that breaks a
  \<open>NOT NULL\<close> constraint is ignored; otherwise the row goes under its key (or a
  fresh key, which must fit in 64 bits) unless that key is taken.\<close>

definition abs_insert :: "coldef list \<Rightarrow> atable \<Rightarrow> sql_value list \<Rightarrow> sql_error + (atable \<times> nat)" where
  "abs_insert cs m row =
     (let key = (case pk_index cs of None \<Rightarrow> KeyAuto | Some i \<Rightarrow> key_conv (row ! i));
          keyed = (\<lambda>k. case pk_index cs of None \<Rightarrow> row | Some i \<Rightarrow> row[i := SInteger k])
      in case key of
           KeyMismatch \<Rightarrow> Inl IntegrityError
         | KeyInt k \<Rightarrow> (if notnull_violated cs row then Inr (m, 0) else Inr (abs_put m k (keyed k)))
         | KeyAuto \<Rightarrow>
             (if notnull_violated cs row then Inr (m, 0)
              else if int64_max < fresh_key m then Inl OperationalError
              else Inr (abs_put m (fresh_key m) (keyed (fresh_key m)))))"

fun abs_exec_many ::
  "bool \<Rightarrow> coldef list \<Rightarrow> atable \<Rightarrow> string list \<Rightarrow> json list list \<Rightarrow> (atable \<times> nat) result" where
  "abs_exec_many wr cs m cols [] = Inr (m, 0)"
| "abs_exec_many wr cs m cols (p # ps) =
     (if length p \<noteq> length cols then Inl (SqlError ProgrammingError)
      else case map_err bind_param p of
        Inl e \<Rightarrow> Inl e
      | Inr vals \<Rightarrow>
          (if \<not> wr then Inl (SqlError OperationalError)
           else case abs_insert cs m (row_of cs cols vals) of
             Inl e \<Rightarrow> Inl (SqlError e)
           | Inr (m1, n1) \<Rightarrow>
               (case abs_exec_many wr cs m1 cols ps of
                  Inl e \<Rightarrow> Inl e
                | Inr (m2, n2) \<Rightarrow> Inr (m2, n1 + n2))))"

definition abs_result :: "'e + (table \<times> nat) \<Rightarrow> 'e + (atable \<times> nat)" where
  "abs_result r = map_sum id (\<lambda>(t, n). (table_map t, n)) r"

subsection \<open>Refinement\<close>

lemma dom_table_map: "dom (table_map t) = set (map fst (trows t))"
  by (simp add: table_map_def dom_map_of_conv_image_fst)

lemma next_rowid_fresh_key: "next_rowid t = fresh_key (table_map t)"
proof (cases "map fst (trows t)")
  case Nil
  then show ?thesis by (simp add: next_rowid_def fresh_key_def dom_table_map)
next
  case (Cons k ks)
  have "fold max ks k = Max (set (k # ks))" by (rule Max.set_eq_fold [symmetric])
  with Cons show ?thesis by (simp add: next_rowid_def fresh_key_def dom_table_map)
qed

lemma abs_put_add_row:
  "k \<notin> row_keys t \<Longrightarrow> abs_put (table_map t) k r = (table_map (add_row t k r), 1)"
  by (simp add: abs_put_def table_map_add_row row_keys_dom)

lemma insert_or_ignore_refines:
  "abs_result (insert_or_ignore t row) = abs_insert (tcols t) (table_map t) row"
  by (auto simp: abs_result_def insert_or_ignore_def abs_insert_def abs_put_def next_rowid_fresh_key [symmetric]
        table_map_add_row row_keys_dom [symmetric] split: option.splits rowid_value.splits)

lemma tcols_insert_or_ignore: "insert_or_ignore t row = Inr (t', n) \<Longrightarrow> tcols t' = tcols t"
  by (auto simp: insert_or_ignore_def split: option.splits rowid_value.splits if_splits)

lemma exec_insert_refines:
  "abs_result (exec_insert wr t cols p) =
   (if length p \<noteq> length cols then Inl (SqlError ProgrammingError)
    else case map_err bind_param p of
      Inl e \<Rightarrow> Inl e
    | Inr vals \<Rightarrow>
        (if \<not> wr then Inl (SqlError OperationalError)
         else map_sum SqlError id (abs_insert (tcols t) (table_map t) (row_of (tcols t) cols vals))))"
proof (cases "length p \<noteq> length cols")
  case True
  then show ?thesis by (simp add: exec_insert_def abs_result_def)
next
  case False
  show ?thesis
  proof (cases "map_err bind_param p")
    case (Inl e)
    with False show ?thesis by (simp add: exec_insert_def abs_result_def)
  next
    case (Inr vals)
    have r: "abs_insert (tcols t) (table_map t) (row_of (tcols t) cols vals) =
             abs_result (insert_or_ignore t (row_of (tcols t) cols vals))"
      by (rule insert_or_ignore_refines [symmetric])
    with False Inr show ?thesis
      by (cases "insert_or_ignore t (row_of (tcols t) cols vals)") (auto simp: exec_insert_def abs_result_def)
  qed
qed

text \<open>C32. \<open>executemany\<close> of \<open>INSERT OR IGNORE\<close> on the concrete table (rows in
  a sorted list, fresh rowids computed from it) refines the abstract
  specification: seen through \<open>table_map\<close>, it has the outcome, the rows and
  the count of the abstract insert-if-absent on a map from keys to rows.\<close>

theorem exec_many_refines:
  "abs_result (exec_many wr t cols pss) = abs_exec_many wr (tcols t) (table_map t) cols pss"
proof (induction pss arbitrary: t)
  case Nil
  then show ?case by (simp add: abs_result_def)
next
  case (Cons p ps)
  show ?case
  proof (cases "exec_insert wr t cols p")
    case (Inl e)
    then show ?thesis using exec_insert_refines [of wr t cols p]
      by (auto simp: abs_result_def split: if_splits sum.splits)
  next
    case (Inr r)
    obtain t1 n1 where r: "r = (t1, n1)" by fastforce
    have c1: "tcols t1 = tcols t"
      using Inr r by (auto simp: exec_insert_def tcols_insert_or_ignore split: if_splits sum.splits)
    have a: "abs_insert (tcols t) (table_map t) (row_of (tcols t) cols vals) = Inr (table_map t1, n1)
             \<and> length p = length cols \<and> map_err bind_param p = Inr vals \<and> wr"
      if "map_err bind_param p = Inr vals" for vals
      using exec_insert_refines [of wr t cols p] Inr r that
      by (cases "abs_insert (tcols t) (table_map t) (row_of (tcols t) cols vals)")
         (auto simp: abs_result_def split: if_splits)
    obtain vals where v: "map_err bind_param p = Inr vals"
      using Inr by (auto simp: exec_insert_def split: if_splits sum.splits)
    show ?thesis
      using Cons.IH [of t1] Inr r c1 a [OF v] v
      by (auto simp: abs_result_def split: sum.splits)
  qed
qed

end
