(* ===== verification/Spec2Isabelle.thy ===== *)
theory Spec2Isabelle
  imports Pipeline JsonRoundtrip Inspector SqliteAbs
begin

text \<open>
  Verification library of the DummyJSON-to-SQLite utility: src/processor.py fetches
  products, users and posts from the DummyJSON REST API and stores them in the
  SQLite file \<open>dummy_data.db\<close>; src/view_db.py prints that database.

  \<^bold>\<open>The parts and how they interact.\<close> A run of src/processor.py is a sequence
  of three processors (\<open>process_products\<close>, \<open>process_users\<close>,
  \<open>process_posts\<close>). Each one calls the API client (\<open>fetch_api_data\<close>), checks
  the shape of the answer, opens the database (\<open>get_db_connection\<close>), creates
  its table if needed (\<open>init_db_table\<close>), turns each record into a row and
  saves the batch with \<open>INSERT OR IGNORE\<close> (\<open>save_data_to_db\<close>). Nested values
  are stored as \<open>json.dumps\<close> text; the inspector reads them back with
  \<open>json.loads\<close> and formats them for display.

  \<^bold>\<open>Theories, in import order.\<close>
  \<^item> \<open>Prelude\<close>: the exception type \<open>pyexc\<close>, the result type
    \<open>'a result = pyexc + 'a\<close>, \<open>map_err\<close> (a Python \<open>for\<close> loop whose body
    may raise), and decimal digits (\<open>show_nat\<close>, \<open>show_int\<close>, \<open>digits_val\<close>).
  \<^item> \<open>PyJson\<close>: the values \<open>response.json()\<close> returns (\<open>json\<close>) and the Python
    operations the code applies to them (\<open>py_truthy\<close>, \<open>py_contains\<close>,
    \<open>py_getitem\<close>, \<open>py_get\<close>, \<open>py_iter\<close>, \<open>py_len\<close>), each raising where
    CPython raises.
  \<^item> \<open>Sqlite\<close>: the part of SQLite and of the \<open>sqlite3\<close> module the code
    relies on, modelled from the SQLite documentation: tables with rows in
    rowid order, \<open>CREATE TABLE\<close>, parameter binding, \<open>INSERT OR IGNORE\<close> through
    \<open>executemany\<close> (\<open>insert_or_ignore\<close>, \<open>exec_many\<close>, \<open>insert_many\<close>), the
    table invariant \<open>table_inv\<close> and the abstraction \<open>table_map\<close>.
    \<open>SqliteAbs\<close>: the abstract specification of a table (a finite map from keys
    to rows, \<open>abs_insert\<close>, \<open>abs_exec_many\<close>) that the concrete model refines.
  \<^item> \<open>JsonText\<close>: \<open>json.dumps\<close> with default options (\<open>json_dumps\<close>,
    \<open>esc_char\<close>, \<open>float_repr\<close>) and \<open>json.loads\<close> following CPython's scanner
    (\<open>parse\<close>, \<open>scan_string\<close>, \<open>scan_number\<close>), with fuel.
    \<open>JsonRoundtrip\<close>: the round trip between them.
  \<^item> \<open>FloatFormat\<close>: Python's \<open>format(x, '.2f')\<close> as two roundings, of the
    exact rational to the nearest double (\<open>dbl_round\<close>, with \<open>nbits\<close> and
    \<open>flog2\<close> for the binary exponent) and of the double to cents, ties to even
    (\<open>rnd_even\<close>, \<open>cents\<close>, \<open>format_2f\<close>), with the error bound of each.
  \<^item> \<open>World\<close>: the observable state of a run (\<open>world\<close>: the database file, the
    right to write there, the directories, the log stream of
    \<open>logger = logging.getLogger('dummy_processor')\<close> as (level, event) records).
  \<^item> \<open>Storage\<close>: \<open>get_db_connection\<close>, \<open>init_db_table\<close>, \<open>save_data_to_db\<close>
    (src/processor.py lines 80 to 183) as functions of the world and the
    connection's uncommitted database; commit and rollback are the choice of the
    database returned.
  \<^item> \<open>ApiClient\<close>: \<open>fetch_api_data\<close> (lines 43 to 73); the upstream is an input
    function \<open>api\<close> from URL and parameters to the outcome of the one request.
  \<^item> \<open>Processor\<close>: the three processors as one protocol \<open>process_entity\<close>
    (fetch, shape check, connection, the \<open>try\<close> block \<open>store_entity\<close>, the
    \<open>finally\<close> clause) applied to an \<open>entity_spec\<close> per entity (table, schema,
    columns, row function \<open>product_tuple\<close>, \<open>user_tuple\<close>, \<open>post_tuple\<close>).
  \<^item> \<open>Pipeline\<close>: the \<open>__main__\<close> block of src/processor.py
    (\<open>clean_db\<close>, \<open>processor_main\<close>), and the frame lemmas: a processor touches
    no table but its own (\<open>process_entity_frame\<close>) and re-runs idempotently when its
    own table is as it left it (\<open>process_entity_again_local\<close>).
  \<^item> \<open>Inspector\<close>: src/view_db.py (\<open>format_value\<close>, \<open>get_table_info\<close>,
    \<open>print_table_data\<close>, \<open>view_database\<close>, \<open>view_main\<close>), with Python's
    \<open>str\<close> and \<open>repr\<close> of decoded values and the \<open>:.2f\<close> format of the nearest
    double. Printed lines are values of the datatype \<open>line\<close>; a failing SQL
    statement ends the run with the lines printed so far and the error line.
  \<^item> This theory: the properties that span the ETL and the inspector.

  \<^bold>\<open>What the lemmas show.\<close> \<open>Storage\<close>: a repeated save of a keyed batch
  inserts nothing (C1), the count returned is the number of new keys (C2), the
  database changes only by committing new rows (C3). \<open>ApiClient\<close>: when the
  client returns data (C4), that every failure is logged and gives \<open>None\<close> (C5),
  and that its \<open>JSONDecodeError\<close> handler is dead code (C6). \<open>Processor\<close>: the
  early returns (C7), the row loop as \<open>map\<close> over a filter (C8), its warnings
  (C9), the reaction sum (C10, C11), the escaping \<open>TypeError\<close> (C12), re-runs of
  one processor (C13). \<open>JsonText\<close>: the fuel of \<open>json.loads\<close> (C14);
  \<open>JsonRoundtrip\<close>: \<open>json.loads (json.dumps j) = j\<close> (C15). \<open>Inspector\<close>: the
  listing order as a stable descending sort (C16, C17), no SQL error on the
  ETL's tables (C18), the \<open>LIMIT\<close> bound (C19), the display rules and their error
  paths (C20 to C22), \<open>--table\<close> on a missing table (C35) and on an existing one
  (C36). This theory: what the inspector shows of the columns the
  ETL writes (C23 to C25, C28). \<open>Pipeline\<close>: idempotence of the whole pipeline
  (C26), the crash of the program on a bad reaction (C27), the well-formedness of
  every database a run leaves (C29), the duplication of records whose id is
  \<open>null\<close> (C31). \<open>Storage\<close>: an integer outside 64 bits escapes the handler as
  \<open>OverflowError\<close> (C30). \<open>SqliteAbs\<close>: \<open>executemany\<close> of \<open>INSERT OR IGNORE\<close>
  refines the abstract insert-if-absent (C32). \<open>Inspector\<close> with \<open>FloatFormat\<close>:
  a price with at most two decimals below \<open>2 ^ 46\<close> is shown as exactly its
  decimal (C33). \<open>Pipeline\<close>: every connection a run opens is closed on every
  path, the exceptional ones included (C34), shown on the connection events of
  the log (\<open>conn_trace\<close> of theory \<open>World\<close>), for which every operation has an
  equation (\<open>fetch_api_data_conn_trace\<close>, \<open>get_db_connection_conn_trace\<close>,
  \<open>store_entity_conn_trace\<close>, \<open>process_entity_conn_trace\<close>); in a read-only
  directory without a database a run creates none and opens no connection (C37).

  \<^bold>\<open>Fuel and bounds.\<close> \<open>json.loads\<close> is a recursive descent with fuel:
  \<open>json_loads\<close> gives \<open>parse\<close> one step more than the length of the input,
  and C14 shows that this never runs out and that more fuel gives the same
  answer, because every step consumes input. Every other loop of the code is a
  \<open>for\<close> over a finite list and is structural recursion. SQLite integers are
  64-bit (\<open>int64_range\<close>); Python integers are unbounded (\<open>int\<close>). A double
  has a 53-bit significand: below \<open>2 ^ 46\<close> its exponent is at most \<open>-7\<close>, so
  its error (half a unit in the last place, at most \<open>2 ^ -8\<close>) times 100 stays
  under half a cent, which is why C33 holds up to that bound.

  \<^bold>\<open>Not modelled.\<close> Network I/O (the answer is an input), the text and
  timestamps of log records, the Russian text of printed lines (a constructor
  each), argparse's error exit, NaN and infinite floats in JSON, code points
  above 255 in strings, SQLite column affinity of non-key columns, the random
  rowid choice at the 64-bit limit, and table names that are SQL keywords (the
  inspector treats them as plain identifiers).
\<close>

subsection \<open>What the inspector shows of the columns the ETL writes\<close>

lemma format_value_dumps:
  assumes "json_wf j" "key \<in> set json_columns"
  shows "format_value key (SText (json_dumps j)) =
         (case format_json key j of Inl _ \<Rightarrow> Shown (json_dumps j) | Inr r \<Rightarrow> r)"
proof -
  have "json_dumps j \<noteq> []" using json_dumps_hd [of j] by (cases "json_dumps j") auto
  then show ?thesis using assms loads_dumps [OF assms(1)] by (simp add: format_value_def split: sum.split)
qed

lemma map_err_join_item [simp]: "map_err join_item (map JStr ts) = Inr ts"
  by (induction ts) simp_all

text \<open>C23. The \<open>images\<close> column of a product, written as \<open>json.dumps\<close> of its list
  of URLs, is shown as the first URL, followed by the number of the others when
  there are more.\<close>

theorem images_column_shown:
  "format_value ''images'' (SText (json_dumps (JArr (map JStr (u # us))))) =
   (if us = [] then Shown u else ShownMore u (length us))"
  using format_value_dumps [of "JArr (map JStr (u # us))" "''images''"]
  by (simp add: json_columns_def format_json_def list_all_iff)

text \<open>C24. The \<open>tags\<close> column of a post, written as \<open>json.dumps\<close> of its list of
  tags, is shown as the tags joined by commas, and as \<open>[]\<close> when there are none.\<close>

theorem tags_column_shown:
  "format_value ''tags'' (SText (json_dumps (JArr (map JStr ts)))) =
   Shown (if ts = [] then ''[]'' else py_join '', '' ts)"
  using format_value_dumps [of "JArr (map JStr ts)" "''tags''"]
  by (simp add: json_columns_def format_json_def list_all_iff)

text \<open>C25. A non-empty object stored in a JSON column (a user's \<open>hair\<close> or
  \<open>address\<close>) is shown as its first three members, \<open>key: str(value)\<close>, and the
  number of the members left out when it has more than three.\<close>

theorem object_column_shown:
  assumes "key \<in> set json_columns" "json_wf (JObj kvs)" "kvs \<noteq> []"
  shows "format_value key (SText (json_dumps (JObj kvs))) =
         ShownDict (map (\<lambda>(k, v). k @ '': '' @ py_str v) (take 3 kvs))
                   (if 3 < length kvs then Some (length kvs - 3) else None)"
  using format_value_dumps [OF assms(2,1)] assms(3) by (simp add: format_json_def)

theorem object_column_shown_witness:
  "''address'' \<in> set json_columns \<and>
   json_wf (JObj [(''city'', JStr ''Phoenix''), (''state'', JStr ''AZ''), (''postalCode'', JStr ''85001''),
                  (''coordinates'', JObj [(''lat'', JFloat 3345 (-2))])]) \<and>
   [(''city'', JStr ''Phoenix''), (''state'', JStr ''AZ''), (''postalCode'', JStr ''85001''),
    (''coordinates'', JObj [(''lat'', JFloat 3345 (-2))])] \<noteq> [] \<and>
   format_value ''address'' (SText (json_dumps (JObj [(''city'', JStr ''Phoenix''), (''state'', JStr ''AZ''),
       (''postalCode'', JStr ''85001''), (''coordinates'', JObj [(''lat'', JFloat 3345 (-2))])]))) =
   ShownDict [''city: Phoenix'', ''state: AZ'', ''postalCode: 85001''] (Some 1)"
  using object_column_shown [of "''address''" "[(''city'', JStr ''Phoenix''), (''state'', JStr ''AZ''),
       (''postalCode'', JStr ''85001''), (''coordinates'', JObj [(''lat'', JFloat 3345 (-2))])]"]
  by (simp add: json_columns_def float_normal_def)

text \<open>C28. The spec says a stored list is shown as its first element and the
  number of the others. The code does so only for \<open>images\<close>: a list stored in
  any other JSON column but \<open>tags\<close> is shown whole, as Python's \<open>str\<close> of it.\<close>

theorem list_column_shown_whole:
  assumes "key \<in> {''hair'', ''address'', ''bank'', ''company''}" "json_wf (JArr xs)"
  shows "format_value key (SText (json_dumps (JArr xs))) = Shown (py_repr (JArr xs))"
  using format_value_dumps [OF assms(2)] assms(1) by (auto simp: json_columns_def format_json_def)

theorem list_column_shown_whole_witness:
  "''hair'' \<in> {''hair'', ''address'', ''bank'', ''company''} \<and> json_wf (JArr [JStr ''brown'', JStr ''curly'']) \<and>
   format_value ''hair'' (SText (json_dumps (JArr [JStr ''brown'', JStr ''curly'']))) =
   Shown (''['' @ [CHR 0x27] @ ''brown'' @ [CHR 0x27] @ '', '' @ [CHR 0x27] @ ''curly'' @ [CHR 0x27] @ '']'')"
  using list_column_shown_whole [of "''hair''" "[JStr ''brown'', JStr ''curly'']"]
  by (simp add: py_str_repr_def repr_char_def py_printable_def backslash_def Let_def)

end
